(* ===== verification/Prelude.thy ===== *)
theory Prelude
  imports Main "HOL-Library.Word"
begin

text \<open>
  What every component shares: the machine integers of the Rust code, the byte order of the
  target, the conversions of Rust's standard library between integers and byte arrays
  (\<^verbatim>\<open>from_be_bytes\<close>, \<^verbatim>\<open>to_be_bytes\<close>, \<^verbatim>\<open>from_be\<close>, \<^verbatim>\<open>to_be\<close> and the native loads and
  stores through a typed pointer), results with panics as values, and the algebra of reading
  and overwriting a range of a byte buffer.
\<close>

unbundle bit_operations_syntax

type_synonym u8 = "8 word"
type_synonym u16 = "16 word"
type_synonym u32 = "32 word"
type_synonym u64 = "64 word"

type_synonym bytes = "u8 list"

named_theorems range_simps \<open>reading and overwriting ranges of a buffer\<close>
named_theorems byte_simps \<open>integers and their byte arrays\<close>

section \<open>Results and panics\<close>

text \<open>
  A Rust computation that may panic is a value of \<open>panic + 'a\<close>; the constructors name what
  panicked. The workspace sets \<^verbatim>\<open>panic = "abort"\<close> for both profiles, so nothing runs after
  a panic.
\<close>

datatype panic = Unwrap | Expect | Explicit | Overflow | Bounds

definition and_then :: "'e + 'a \<Rightarrow> ('a \<Rightarrow> 'e + 'b) \<Rightarrow> 'e + 'b" where
  "and_then r f = (case r of Inl e \<Rightarrow> Inl e | Inr a \<Rightarrow> f a)"

lemma and_then_simps [simp]:
  "and_then (Inl e) f = Inl e"
  "and_then (Inr a) f = f a"
  by (simp_all add: and_then_def)

lemma and_then_InrE:
  assumes "and_then r f = Inr b"
  obtains a where "r = Inr a" and "f a = Inr b"
  using assms by (cases r) simp_all

definition unwrap :: "'a option \<Rightarrow> panic + 'a" where
  "unwrap x = (case x of None \<Rightarrow> Inl Unwrap | Some a \<Rightarrow> Inr a)"

lemma unwrap_simps [simp]:
  "unwrap None = Inl Unwrap"
  "unwrap (Some a) = Inr a"
  by (simp_all add: unwrap_def)

text \<open>
  The two ways cargo compiles the arithmetic operators: with overflow checks (the dev
  profile) an overflow panics, without them (the release profile) it wraps around.
\<close>

datatype profile = Debug | Release

definition add_checked :: "profile \<Rightarrow> 'a::len word \<Rightarrow> 'a word \<Rightarrow> panic + 'a word" where
  "add_checked p a b =
     (if p = Debug \<and> 2 ^ LENGTH('a) \<le> unat a + unat b then Inl Overflow else Inr (a + b))"

definition sub_checked :: "profile \<Rightarrow> 'a::len word \<Rightarrow> 'a word \<Rightarrow> panic + 'a word" where
  "sub_checked p a b = (if p = Debug \<and> a < b then Inl Overflow else Inr (a - b))"

text \<open>
  \<^verbatim>\<open>a << n\<close> on a 32-bit integer: a shift by 32 or more is an overflow, and the release
  profile uses the low five bits of the amount.
\<close>

definition shl_u32 :: "profile \<Rightarrow> u32 \<Rightarrow> u32 \<Rightarrow> panic + u32" where
  "shl_u32 p a n =
     (if 32 \<le> n then (if p = Debug then Inl Overflow else Inr (push_bit (unat (n AND 31)) a))
      else Inr (push_bit (unat n) a))"

section \<open>Byte order\<close>

text \<open>
  The eBPF object is built for \<^verbatim>\<open>bpfel\<close> or \<^verbatim>\<open>bpfeb\<close>; every definition that
  reinterprets memory takes the byte order of the target.
\<close>

datatype endian = Little | Big

definition from_be_bytes :: "bytes \<Rightarrow> 'a::len word" where
  "from_be_bytes bs = foldl (\<lambda>acc b. push_bit 8 acc OR ucast b) 0 bs"

definition be_bytes :: "nat \<Rightarrow> 'a::len word \<Rightarrow> bytes" where
  "be_bytes n w = map (\<lambda>i. ucast (drop_bit (8 * (n - 1 - i)) w)) [0..<n]"

definition u16_to_be_bytes :: "u16 \<Rightarrow> bytes" where
  "u16_to_be_bytes w = be_bytes 2 w"

definition u32_to_be_bytes :: "u32 \<Rightarrow> bytes" where
  "u32_to_be_bytes w = be_bytes 4 w"

definition u64_to_be_bytes :: "u64 \<Rightarrow> bytes" where
  "u64_to_be_bytes w = be_bytes 8 w"

definition load_u16 :: "endian \<Rightarrow> bytes \<Rightarrow> u16" where
  "load_u16 e bs = (case e of Little \<Rightarrow> from_be_bytes (rev bs) | Big \<Rightarrow> from_be_bytes bs)"

definition store_u16 :: "endian \<Rightarrow> u16 \<Rightarrow> bytes" where
  "store_u16 e w = (case e of Little \<Rightarrow> rev (u16_to_be_bytes w) | Big \<Rightarrow> u16_to_be_bytes w)"

definition load_u32 :: "endian \<Rightarrow> bytes \<Rightarrow> u32" where
  "load_u32 e bs = (case e of Little \<Rightarrow> from_be_bytes (rev bs) | Big \<Rightarrow> from_be_bytes bs)"

definition store_u32 :: "endian \<Rightarrow> u32 \<Rightarrow> bytes" where
  "store_u32 e w = (case e of Little \<Rightarrow> rev (u32_to_be_bytes w) | Big \<Rightarrow> u32_to_be_bytes w)"

text \<open>
  \<^verbatim>\<open>u16::from_be\<close> and \<^verbatim>\<open>u16::to_be\<close> are the same function: the identity on a
  big-endian target and a byte swap on a little-endian one.
\<close>

definition u16_be :: "endian \<Rightarrow> u16 \<Rightarrow> u16" where
  "u16_be e w = (case e of Little \<Rightarrow> from_be_bytes (rev (u16_to_be_bytes w)) | Big \<Rightarrow> w)"

definition u32_be :: "endian \<Rightarrow> u32 \<Rightarrow> u32" where
  "u32_be e w = (case e of Little \<Rightarrow> from_be_bytes (rev (u32_to_be_bytes w)) | Big \<Rightarrow> w)"

lemma be_bytes_length [simp, byte_simps]:
  "length (u16_to_be_bytes w) = 2"
  "length (u32_to_be_bytes x) = 4"
  "length (u64_to_be_bytes y) = 8"
  "length (store_u16 e w) = 2"
  "length (store_u32 e x) = 4"
  by (simp_all add: u16_to_be_bytes_def u32_to_be_bytes_def u64_to_be_bytes_def be_bytes_def
      store_u16_def store_u32_def split: endian.split)

lemma length_2_conv: "length bs = 2 \<longleftrightarrow> (\<exists>a b. bs = [a, b])"
  by (auto simp: numeral_2_eq_2 length_Suc_conv)

lemma length_4_conv: "length bs = 4 \<longleftrightarrow> (\<exists>a b c d. bs = [a, b, c, d])"
  by (auto simp: eval_nat_numeral length_Suc_conv)

lemma u8_high_bit [simp]: "8 \<le> n \<Longrightarrow> \<not> bit (b :: u8) n"
  using bit_imp_le_length [of b n] by auto

lemma u32_high_bit [simp]: "32 \<le> n \<Longrightarrow> \<not> bit (w :: u32) n"
  using bit_imp_le_length [of w n] by auto

lemma u16_to_be_bytes_eq:
  "u16_to_be_bytes w = [ucast (drop_bit 8 w), ucast w]"
  by (simp add: u16_to_be_bytes_def be_bytes_def upt_rec)

lemma u32_to_be_bytes_eq:
  "u32_to_be_bytes w =
     [ucast (drop_bit 24 w), ucast (drop_bit 16 w), ucast (drop_bit 8 w), ucast w]"
  by (simp add: u32_to_be_bytes_def be_bytes_def upt_rec)

lemma u64_to_be_bytes_eq:
  "u64_to_be_bytes w =
     [ucast (drop_bit 56 w), ucast (drop_bit 48 w), ucast (drop_bit 40 w), ucast (drop_bit 32 w),
      ucast (drop_bit 24 w), ucast (drop_bit 16 w), ucast (drop_bit 8 w), ucast w]"
  by (simp add: u64_to_be_bytes_def be_bytes_def upt_rec)

lemma u16_from_to_be_bytes [simp, byte_simps]: "from_be_bytes (u16_to_be_bytes w) = w"
  by (rule bit_word_eqI)
    (auto simp: u16_to_be_bytes_eq from_be_bytes_def bit_simps not_less le_less_Suc_eq)

lemma u32_from_to_be_bytes [simp, byte_simps]: "from_be_bytes (u32_to_be_bytes w) = w"
proof (rule bit_word_eqI)
  fix n :: nat
  assume "n < LENGTH(32)"
  then consider "n < 8" | "8 \<le> n" "n < 16" | "16 \<le> n" "n < 24" | "24 \<le> n" "n < 32"
    by force
  then show "bit (from_be_bytes (u32_to_be_bytes w) :: u32) n = bit w n"
    by cases (auto simp: u32_to_be_bytes_eq from_be_bytes_def bit_simps)
qed

lemma u64_from_to_be_bytes [simp, byte_simps]: "from_be_bytes (u64_to_be_bytes w) = w"
proof (rule bit_word_eqI)
  fix n :: nat
  assume "n < LENGTH(64)"
  then consider "n < 8" | "8 \<le> n" "n < 16" | "16 \<le> n" "n < 24" | "24 \<le> n" "n < 32"
    | "32 \<le> n" "n < 40" | "40 \<le> n" "n < 48" | "48 \<le> n" "n < 56" | "56 \<le> n" "n < 64"
    by force
  then show "bit (from_be_bytes (u64_to_be_bytes w) :: u64) n = bit w n"
    by cases (auto simp: u64_to_be_bytes_eq from_be_bytes_def bit_simps)
qed

lemma u16_to_from_be_bytes [simp, byte_simps]:
  "length bs = 2 \<Longrightarrow> u16_to_be_bytes (from_be_bytes bs) = bs"
  by (auto simp: length_2_conv u16_to_be_bytes_eq from_be_bytes_def bit_simps
      intro!: bit_word_eqI)

lemma u32_to_from_be_bytes [simp, byte_simps]:
  "length bs = 4 \<Longrightarrow> u32_to_be_bytes (from_be_bytes bs) = bs"
  by (auto simp: length_4_conv u32_to_be_bytes_eq from_be_bytes_def bit_simps
      intro!: bit_word_eqI)

lemma store_load_u16 [simp, byte_simps]: "length bs = 2 \<Longrightarrow> store_u16 e (load_u16 e bs) = bs"
  by (cases e) (simp_all add: store_u16_def load_u16_def)

lemma store_load_u32 [simp, byte_simps]: "length bs = 4 \<Longrightarrow> store_u32 e (load_u32 e bs) = bs"
  by (cases e) (simp_all add: store_u32_def load_u32_def)

lemma u16_be_load [simp, byte_simps]:
  "length bs = 2 \<Longrightarrow> u16_be e (load_u16 e bs) = from_be_bytes bs"
  by (cases e) (simp_all add: u16_be_def load_u16_def)

lemma u32_be_load [simp, byte_simps]:
  "length bs = 4 \<Longrightarrow> u32_be e (load_u32 e bs) = from_be_bytes bs"
  by (cases e) (simp_all add: u32_be_def load_u32_def)

lemma u16_be_be [simp, byte_simps]: "u16_be e (u16_be e w) = w"
  by (cases e) (simp_all add: u16_be_def)

lemma store_u16_be [simp, byte_simps]: "store_u16 e (u16_be e w) = u16_to_be_bytes w"
  by (cases e) (simp_all add: u16_be_def store_u16_def)

section \<open>Ranges of a buffer\<close>

definition range_at :: "nat \<Rightarrow> nat \<Rightarrow> 'a list \<Rightarrow> 'a list" where
  "range_at i n xs = take n (drop i xs)"

definition overwrite :: "nat \<Rightarrow> 'a list \<Rightarrow> 'a list \<Rightarrow> 'a list" where
  "overwrite i ys xs = take i xs @ ys @ drop (i + length ys) xs"

lemma length_range_at [simp, range_simps]:
  "i + n \<le> length xs \<Longrightarrow> length (range_at i n xs) = n"
  by (simp add: range_at_def)

lemma length_overwrite [simp, range_simps]:
  "i + length ys \<le> length xs \<Longrightarrow> length (overwrite i ys xs) = length xs"
  by (simp add: overwrite_def)

lemma range_overwrite_same [range_simps]:
  "n = length ys \<Longrightarrow> i + length ys \<le> length xs \<Longrightarrow> range_at i n (overwrite i ys xs) = ys"
  by (simp add: range_at_def overwrite_def)

lemma range_overwrite_before [range_simps]:
  "j + n \<le> i \<Longrightarrow> i + length ys \<le> length xs \<Longrightarrow>
   range_at j n (overwrite i ys xs) = range_at j n xs"
  by (rule nth_equalityI) (auto simp: range_at_def overwrite_def nth_append)

lemma range_overwrite_after [range_simps]:
  "i + length ys \<le> j \<Longrightarrow> i + length ys \<le> length xs \<Longrightarrow>
   range_at j n (overwrite i ys xs) = range_at j n xs"
  by (simp add: range_at_def overwrite_def)

lemma drop_overwrite [range_simps]:
  "i + length ys \<le> j \<Longrightarrow> i + length ys \<le> length xs \<Longrightarrow>
   drop j (overwrite i ys xs) = drop j xs"
  by (simp add: overwrite_def)

lemma range_at_split:
  "range_at i (m + n) xs = range_at i m xs @ range_at (i + m) n xs"
  by (simp add: range_at_def take_add drop_drop add.commute)

lemma nth_range_at:
  "k < n \<Longrightarrow> i + n \<le> length xs \<Longrightarrow> range_at i n xs ! k = xs ! (i + k)"
  by (simp add: range_at_def)

lemma range_at_self [simp]: "n = length xs \<Longrightarrow> range_at 0 n xs = xs"
  by (simp add: range_at_def)

end
