(* ===== verification/Checksum.thy ===== *)
theory Checksum
  imports Prelude "HOL-Library.Multiset"
begin

text \<open>
  The checksum arithmetic of \<^verbatim>\<open>udp-router-ebpf/src/main.rs\<close>: \<^verbatim>\<open>calculate_ip_checksum\<close> and
  \<^verbatim>\<open>update_udp_checksum\<close>, beside the Internet checksum they stand for, written after
  RFC 1071 (one's complement addition, end-around carry) and RFC 1624 (incremental update).
  The interface \<open>checksum_update\<close> is what forwarding needs of an incremental update.
\<close>

section \<open>The Internet checksum, as the RFCs define it\<close>

definition ones_add :: "u16 \<Rightarrow> u16 \<Rightarrow> u16" where
  "ones_add a b = (let s = unat a + unat b in of_nat (s mod 65536 + s div 65536))"

definition ones_sum :: "u16 list \<Rightarrow> u16" where
  "ones_sum ws = foldl ones_add 0 ws"

definition inet_checksum :: "u16 list \<Rightarrow> u16" where
  "inet_checksum ws = NOT (ones_sum ws)"

text \<open>A receiver accepts a block whose one's complement sum, checksum included, is all ones.\<close>

definition inet_valid :: "u16 list \<Rightarrow> bool" where
  "inet_valid ws \<longleftrightarrow> ones_sum ws = 0xFFFF"

text \<open>Equation 3 of RFC 1624.\<close>

definition rfc1624_update :: "u16 \<Rightarrow> u16 \<Rightarrow> u16 \<Rightarrow> u16" where
  "rfc1624_update csum old new = NOT (ones_add (ones_add (NOT csum) (NOT old)) new)"

text \<open>The 16-bit words of a block of bytes; an odd last byte is padded with zero.\<close>

fun be16s :: "bytes \<Rightarrow> u16 list" where
  "be16s [] = []"
| "be16s [a] = [from_be_bytes [a, 0]]"
| "be16s (a # b # bs) = from_be_bytes [a, b] # be16s bs"

definition inet_total :: "u16 list \<Rightarrow> nat" where
  "inet_total ws = sum_list (map unat ws)"

text \<open>The representative of a total in one's complement: only 0 is represented by 0.\<close>

definition ones_norm :: "nat \<Rightarrow> nat" where
  "ones_norm s = (if s = 0 then 0 else (s - 1) mod 65535 + 1)"

lemma inet_total_simps [simp]:
  "inet_total [] = 0"
  "inet_total (w # ws) = unat w + inet_total ws"
  "inet_total (xs @ ys) = inet_total xs + inet_total ys"
  by (simp_all add: inet_total_def)

lemma unat_u16_less [simp]: "unat (w :: u16) < 65536"
  using unsigned_less [of w, where ?'a = nat] by simp

lemma unat_u16_le [simp]: "unat (w :: u16) \<le> 65535"
  using unat_u16_less [of w] by linarith

lemma unat_not_u16: "unat (NOT (w :: u16)) = 65535 - unat w"
proof -
  have "unat (-1 - w) = unat (-1 :: u16) - unat w"
    by (rule unat_sub) (rule word_order.extremum)
  moreover have "unat (-1 :: u16) = 65535"
    by (simp add: unsigned_minus_1_eq_mask mask_eq_exp_minus_1)
  moreover have "NOT w = -1 - w" by (simp add: not_eq_complement)
  ultimately show ?thesis by (simp only:)
qed

lemma unat_ones_add:
  "unat (ones_add a b) =
     (if unat a + unat b < 65536 then unat a + unat b else unat a + unat b - 65535)"
proof -
  let ?s = "unat a + unat b"
  have le: "?s \<le> 2 * 65535" using unat_u16_le [of a] unat_u16_le [of b] by linarith
  then have "?s < 2 * 65536" by simp
  then have d: "?s div 65536 = (if ?s < 65536 then 0 else 1)"
    and m: "?s mod 65536 = (if ?s < 65536 then ?s else ?s - 65536)"
    by (auto simp: mod_if div_if)
  have "?s mod 65536 + ?s div 65536 < 65536"
    using le unfolding d m by (simp split: if_splits) linarith
  then have "unat (of_nat (?s mod 65536 + ?s div 65536) :: u16) = ?s mod 65536 + ?s div 65536"
    unfolding unat_of_nat by simp
  moreover have "?s mod 65536 + ?s div 65536 = (if ?s < 65536 then ?s else ?s - 65535)"
    unfolding d m by auto
  ultimately show ?thesis by (simp only: ones_add_def Let_def)
qed

lemma ones_norm_add: "ones_norm (ones_norm s + w) = ones_norm (s + w)"
proof (cases "s = 0")
  case True
  then show ?thesis by (simp add: ones_norm_def)
next
  case False
  then obtain t where s: "s = Suc t" by (cases s) auto
  show ?thesis by (simp add: ones_norm_def s mod_simps)
qed

lemma ones_norm_id: "s \<le> 65535 \<Longrightarrow> ones_norm s = s"
  by (simp add: ones_norm_def)

lemma ones_norm_small:
  "s \<le> 2 * 65535 \<Longrightarrow> (if s < 65536 then s else s - 65535) = ones_norm s"
proof (cases "s < 65536")
  case False
  assume "s \<le> 2 * 65535"
  then have "s - 65536 < 65535" and "s - 1 = (s - 65536) + 65535" using False by auto
  then have "(s - 1) mod 65535 = s - 65536" by (metis mod_add_self2 mod_less)
  with False show ?thesis by (simp add: ones_norm_def)
qed (simp add: ones_norm_id)

lemma unat_ones_add_norm: "unat (ones_add a b) = ones_norm (unat a + unat b)"
proof -
  have "unat a + unat b \<le> 2 * 65535"
    using unat_u16_le [of a] unat_u16_le [of b] by linarith
  then show ?thesis unfolding unat_ones_add by (rule ones_norm_small)
qed

lemma unat_foldl_ones_add:
  "unat (foldl ones_add a ws) = ones_norm (unat a + inet_total ws)"
proof (induction ws arbitrary: a)
  case Nil
  show ?case by (simp add: ones_norm_id)
next
  case (Cons w ws)
  then show ?case by (simp add: unat_ones_add_norm ones_norm_add add.assoc)
qed

lemma unat_ones_sum: "unat (ones_sum ws) = ones_norm (inet_total ws)"
  by (simp add: ones_sum_def unat_foldl_ones_add)

lemma ones_norm_full: "ones_norm s = 65535 \<longleftrightarrow> 0 < s \<and> s mod 65535 = 0"
proof (cases s)
  case 0
  then show ?thesis by (simp add: ones_norm_def)
next
  case (Suc t)
  have "t mod 65535 < 65535" by simp
  then show ?thesis using Suc by (auto simp: ones_norm_def mod_Suc)
qed

lemma inet_valid_iff: "inet_valid ws \<longleftrightarrow> 0 < inet_total ws \<and> inet_total ws mod 65535 = 0"
proof -
  have "inet_valid ws \<longleftrightarrow> unat (ones_sum ws) = unat (0xFFFF :: u16)"
    unfolding inet_valid_def by (simp only: word_unat_eq_iff)
  then show ?thesis by (simp add: unat_ones_sum ones_norm_full)
qed

lemma ones_norm_le: "ones_norm s \<le> 65535"
  using mod_less_divisor [of 65535 "s - 1"] by (simp add: ones_norm_def Suc_le_eq)

lemma inet_checksum_valid: "inet_valid (inet_checksum ws # ws)"
proof -
  let ?s = "inet_total ws"
  have t: "inet_total (inet_checksum ws # ws) = 65535 - ones_norm ?s + ?s"
    by (simp add: inet_checksum_def unat_not_u16 unat_ones_sum)
  show ?thesis
  proof (cases ?s)
    case 0
    then show ?thesis unfolding inet_valid_iff t by (simp add: ones_norm_def)
  next
    case (Suc r)
    define q m where "q = r div 65535" and "m = r mod 65535"
    then have m: "m < 65535" and r: "r = q * 65535 + m" by simp_all
    have "ones_norm ?s = m + 1" by (simp add: ones_norm_def Suc m_def)
    then have "65535 - ones_norm ?s + ?s = 65535 * (q + 1)" using m r Suc by simp
    then show ?thesis unfolding inet_valid_iff t by simp
  qed
qed

lemma inet_valid_perm: "inet_total ws = inet_total vs \<Longrightarrow> inet_valid ws = inet_valid vs"
  by (simp add: inet_valid_iff)

lemma be16s_append [simp]: "even (length xs) \<Longrightarrow> be16s (xs @ ys) = be16s xs @ be16s ys"
  by (induction xs rule: be16s.induct) auto

lemma be16s_index:
  "even (length bs) \<Longrightarrow>
   be16s bs = map (\<lambda>i. from_be_bytes [bs ! (2 * i), bs ! (2 * i + 1)]) [0..<length bs div 2]"
proof (induction bs rule: be16s.induct)
  case (3 a b bs)
  then show ?case
    by (simp add: upt_conv_Cons map_Suc_upt [symmetric] o_def del: upt_Suc)
qed auto

section \<open>The checksum of the IPv4 header\<close>

definition fold_carry :: "u32 \<Rightarrow> u32" where
  "fold_carry checksum = (checksum AND 0xffff) + drop_bit 16 checksum"

definition ip_header_loop :: "bytes \<Rightarrow> u32" where
  "ip_header_loop hdr =
     foldl (\<lambda>c i. c + ucast (from_be_bytes [hdr ! (2 * i), hdr ! (2 * i + 1)] :: u16)) 0 [0..<10]"

definition calculate_ip_checksum :: "endian \<Rightarrow> bytes \<Rightarrow> u16" where
  "calculate_ip_checksum e ipv4hdr =
     (let checksum = ip_header_loop ipv4hdr;
          checksum = checksum - ucast (from_be_bytes [ipv4hdr ! 10, ipv4hdr ! 11] :: u16);
          checksum = fold_carry checksum;
          checksum = fold_carry checksum
      in u16_be e (NOT (ucast checksum)))"

text \<open>
  The loop adds ten words of at most 65535 to a 32-bit accumulator, so it never wraps, and
  neither does the subtraction of the old checksum, which is one of the ten.
\<close>

lemma inet_total_le: "inet_total ws \<le> 65535 * length ws"
proof (induction ws)
  case (Cons w ws)
  then show ?case using unat_u16_le [of w] by (simp del: unat_u16_le)
qed simp

lemma unat_ucast_u16_u32: "unat (ucast (w :: u16) :: u32) = unat w"
proof -
  have "unat w < 2 ^ 32" using unat_u16_less [of w] by (simp del: unat_u16_less)
  then show ?thesis by (simp add: unsigned_ucast_eq take_bit_nat_eq_self)
qed

lemma unat_foldl_u32:
  assumes "unat acc + inet_total ws < 2 ^ 32"
  shows "unat (foldl (\<lambda>c w. c + ucast (w :: u16)) (acc :: u32) ws) = unat acc + inet_total ws"
  using assms
proof (induction ws arbitrary: acc)
  case (Cons w ws)
  have "unat (acc + ucast w) = unat acc + unat w"
    using Cons.prems by (simp add: unat_word_ariths unat_ucast_u16_u32)
  then show ?case using Cons by simp
qed simp

lemma unat_ip_header_loop:
  assumes "length hdr = 20"
  shows "unat (ip_header_loop hdr) = inet_total (be16s hdr)"
proof -
  have w: "be16s hdr = map (\<lambda>i. from_be_bytes [hdr ! (2 * i), hdr ! (2 * i + 1)]) [0..<10]"
    using assms by (simp add: be16s_index del: upt_Suc)
  then have "ip_header_loop hdr = foldl (\<lambda>c w. c + ucast (w :: u16)) 0 (be16s hdr)"
    by (simp only: ip_header_loop_def foldl_map)
  moreover have "inet_total (be16s hdr) < 2 ^ 32"
    using inet_total_le [of "be16s hdr"] by (simp add: w del: upt_Suc)
  ultimately show ?thesis using unat_foldl_u32 [of 0 "be16s hdr"] by simp
qed

lemma be16s_header:
  assumes "length hdr = 20"
  shows "be16s hdr = be16s (take 10 hdr) @ [from_be_bytes [hdr ! 10, hdr ! 11]] @ be16s (drop 12 hdr)"
proof -
  have "drop 10 hdr = hdr ! 10 # hdr ! 11 # drop 12 hdr"
    using assms by (simp add: Cons_nth_drop_Suc eval_nat_numeral)
  then have "be16s (take 10 hdr @ drop 10 hdr) =
      be16s (take 10 hdr) @ be16s (hdr ! 10 # hdr ! 11 # drop 12 hdr)"
    using assms by (simp del: append_take_drop_id)
  then show ?thesis by simp
qed

lemma unat_fold_carry: "unat (fold_carry c) = unat c mod 65536 + unat c div 65536"
proof -
  have "c AND 0xffff = take_bit 16 c" by (simp add: take_bit_eq_mask mask_eq_exp_minus_1)
  moreover have "unat c < 2 ^ 32" using unsigned_less [of c, where ?'a = nat] by simp
  ultimately show ?thesis
    by (simp add: fold_carry_def unat_word_ariths unsigned_take_bit_eq unsigned_drop_bit_eq
        take_bit_eq_mod drop_bit_eq_div)
qed

lemma fold_carry_twice:
  assumes "unat c \<le> 9 * 65535"
  shows "unat (fold_carry (fold_carry c)) = ones_norm (unat c)"
proof -
  define q m where "q = unat c div 65536" and "m = unat c mod 65536"
  then have c: "unat c = q * 65536 + m" and m: "m < 65536" and q: "q \<le> 8" using assms by auto
  have f1: "unat (fold_carry c) = m + q" by (simp add: unat_fold_carry q_def m_def)
  have "ones_norm (unat c) = ones_norm (m + q)"
  proof (cases "unat c")
    case (Suc t)
    then have "m + q \<noteq> 0" using c by auto
    moreover have "unat c - 1 = (m + q - 1) + 65535 * q" using c calculation by simp
    ultimately show ?thesis using Suc by (simp add: ones_norm_def)
  qed (use c in simp)
  moreover have "ones_norm (m + q) = (if m + q < 65536 then m + q else m + q - 65535)"
    using m q by (simp only: ones_norm_small)
  moreover have "unat (fold_carry (fold_carry c)) = (if m + q < 65536 then m + q else m + q - 65535)"
    using m q unfolding unat_fold_carry [of "fold_carry c"] f1 by (auto simp: div_if mod_if)
  ultimately show ?thesis by simp
qed

lemma from_be_zero [simp]: "from_be_bytes [0, 0] = 0"
  by (simp add: from_be_bytes_def)

lemma ucast_unat: "unat (ucast (c :: u32) :: u16) = unat c mod 65536"
  by (simp add: unsigned_ucast_eq take_bit_eq_mod)

lemma overwrite_check_words:
  assumes "length hdr = 20"
  shows "inet_total (be16s (overwrite 10 [a, b] hdr)) =
           inet_total (be16s (take 10 hdr)) + unat (from_be_bytes [a, b] :: u16) +
           inet_total (be16s (drop 12 hdr))"
  using assms by (simp add: overwrite_def)

lemma ip_words_without_check:
  assumes "length hdr = 20"
  shows "inet_total (be16s (overwrite 10 [0, 0] hdr)) =
           inet_total (be16s (take 10 hdr)) + inet_total (be16s (drop 12 hdr))"
    and "inet_total (be16s (overwrite 10 [0, 0] hdr)) \<le> 9 * 65535"
proof -
  show eq: "inet_total (be16s (overwrite 10 [0, 0] hdr)) =
      inet_total (be16s (take 10 hdr)) + inet_total (be16s (drop 12 hdr))"
    using overwrite_check_words [OF assms, of 0 0] by simp
  have "length (be16s (take 10 hdr)) = 5" and "length (be16s (drop 12 hdr)) = 4"
    using assms by (simp_all add: be16s_index)
  then show "inet_total (be16s (overwrite 10 [0, 0] hdr)) \<le> 9 * 65535"
    using inet_total_le [of "be16s (take 10 hdr)"] inet_total_le [of "be16s (drop 12 hdr)"]
    by (simp add: eq)
qed

text \<open>The loop followed by the subtraction is the total of the other nine words.\<close>

lemma unat_ip_header_minus_check:
  assumes "length hdr = 20"
  shows "unat (ip_header_loop hdr - ucast (from_be_bytes [hdr ! 10, hdr ! 11] :: u16)) =
           inet_total (be16s (overwrite 10 [0, 0] hdr))"
proof -
  let ?ck = "from_be_bytes [hdr ! 10, hdr ! 11] :: u16"
  have t: "unat (ip_header_loop hdr) =
      inet_total (be16s (overwrite 10 [0, 0] hdr)) + unat ?ck"
    using assms
    by (simp add: unat_ip_header_loop ip_words_without_check(1) be16s_header [OF assms])
  then have "ucast ?ck \<le> ip_header_loop hdr"
    by (simp add: word_le_nat_alt unat_ucast_u16_u32)
  then show ?thesis by (simp add: unat_sub t unat_ucast_u16_u32)
qed

lemma calculate_ip_checksum_word:
  assumes "length hdr = 20"
  shows "calculate_ip_checksum e hdr =
           u16_be e (inet_checksum (be16s (overwrite 10 [0, 0] hdr)))"
proof -
  let ?c = "ip_header_loop hdr - ucast (from_be_bytes [hdr ! 10, hdr ! 11] :: u16)"
  let ?ws = "be16s (overwrite 10 [0, 0] hdr)"
  have c: "unat ?c = inet_total ?ws" and le: "inet_total ?ws \<le> 9 * 65535"
    using assms by (rule unat_ip_header_minus_check, rule ip_words_without_check)
  then have "unat (fold_carry (fold_carry ?c)) = ones_norm (inet_total ?ws)"
    by (simp add: fold_carry_twice)
  then have "unat (ucast (fold_carry (fold_carry ?c)) :: u16) = unat (ones_sum ?ws)"
    using ones_norm_le [of "inet_total ?ws"] by (simp add: ucast_unat unat_ones_sum)
  then have "ucast (fold_carry (fold_carry ?c)) = ones_sum ?ws"
    by (simp only: word_unat_eq_iff)
  then show ?thesis by (simp add: calculate_ip_checksum_def inet_checksum_def Let_def)
qed

text \<open>A header is accepted by the receiver once the computed checksum is stored in it.\<close>

lemma ip_checksum_stored_valid:
  assumes "length hdr = 20"
  shows "inet_valid (be16s (overwrite 10 (store_u16 e (calculate_ip_checksum e hdr)) hdr))"
proof -
  let ?ws = "be16s (overwrite 10 [0, 0] hdr)"
  obtain a b where ab: "u16_to_be_bytes (inet_checksum ?ws) = [a, b]"
    using length_2_conv [of "u16_to_be_bytes (inet_checksum ?ws)"] by auto
  then have w: "from_be_bytes [a, b] = inet_checksum ?ws"
    by (metis u16_from_to_be_bytes)
  have "inet_total (be16s (overwrite 10 [a, b] hdr)) = inet_total (inet_checksum ?ws # ?ws)"
    using assms by (simp add: overwrite_check_words ip_words_without_check(1) w)
  then have "inet_valid (be16s (overwrite 10 [a, b] hdr))"
    using inet_checksum_valid inet_valid_perm by metis
  then show ?thesis using assms by (simp add: calculate_ip_checksum_word ab)
qed

lemma inet_checksum_total:
  "inet_total ws = inet_total vs \<Longrightarrow> inet_checksum ws = inet_checksum vs"
proof -
  assume "inet_total ws = inet_total vs"
  then have "unat (ones_sum ws) = unat (ones_sum vs)" by (simp add: unat_ones_sum)
  then have "ones_sum ws = ones_sum vs" by (simp only: word_unat_eq_iff)
  then show ?thesis by (simp add: inet_checksum_def)
qed

lemma store_ip_checksum:
  assumes "length front = 10" and "length check = 2" and "length rest = 8"
  shows "store_u16 e (calculate_ip_checksum e (front @ check @ rest)) =
           u16_to_be_bytes (inet_checksum (be16s (front @ rest)))"
proof -
  have "overwrite 10 [0, 0] (front @ check @ rest) = front @ [0, 0] @ rest"
    using assms by (simp add: overwrite_def)
  then have "inet_total (be16s (overwrite 10 [0, 0] (front @ check @ rest))) =
      inet_total (be16s (front @ rest))"
    using assms by simp
  note total = inet_checksum_total [OF this]
  show ?thesis
    using assms by (simp only: calculate_ip_checksum_word length_append) (simp add: total)
qed

text \<open>
  C19: the header checksum routine, which sums all ten words into 32 bits, subtracts the old
  checksum and folds twice, computes the Internet checksum of the header with the checksum
  field zeroed, on both byte orders.
\<close>

theorem calculate_ip_checksum_reference:
  assumes "length hdr = 20"
  shows "u16_be e (calculate_ip_checksum e hdr) =
           inet_checksum (be16s (overwrite 10 [0, 0] hdr))"
  using assms by (simp add: calculate_ip_checksum_word)

definition sample_header :: bytes where
  "sample_header = [0x45, 0, 0, 0x20, 0x12, 0x34, 0x40, 0, 64, 17, 0xAB, 0xCD,
     198, 51, 100, 7, 10, 0, 2, 10]"

theorem calculate_ip_checksum_reference_witness:
  "u16_be Little (calculate_ip_checksum Little sample_header) =
     inet_checksum (be16s (overwrite 10 [0, 0] sample_header))"
  by (rule calculate_ip_checksum_reference) (simp add: sample_header_def)

text \<open>
  No operator of the header checksum routine wraps: the loop's accumulator is the exact sum
  of the ten words, the old checksum can be subtracted from it, and two folds bring the result
  into 16 bits.
\<close>

theorem calculate_ip_checksum_no_wrap:
  assumes "length hdr = 20"
  shows "unat (ip_header_loop hdr) = inet_total (be16s hdr) \<and>
     unat (ip_header_loop hdr) \<le> 10 * 65535 \<and>
     ucast (from_be_bytes [hdr ! 10, hdr ! 11] :: u16) \<le> ip_header_loop hdr \<and>
     unat (fold_carry (fold_carry (ip_header_loop hdr -
       ucast (from_be_bytes [hdr ! 10, hdr ! 11] :: u16)))) \<le> 65535"
proof (intro conjI)
  show t: "unat (ip_header_loop hdr) = inet_total (be16s hdr)"
    using assms by (rule unat_ip_header_loop)
  show "unat (ip_header_loop hdr) \<le> 10 * 65535"
    using assms inet_total_le [of "be16s hdr"] by (simp add: t be16s_index)
  show "ucast (from_be_bytes [hdr ! 10, hdr ! 11] :: u16) \<le> ip_header_loop hdr"
    using assms by (simp add: word_le_nat_alt unat_ucast_u16_u32 t be16s_header [OF assms])
  show "unat (fold_carry (fold_carry (ip_header_loop hdr -
      ucast (from_be_bytes [hdr ! 10, hdr ! 11] :: u16)))) \<le> 65535"
    unfolding fold_carry_twice
      [OF ord_eq_le_trans [OF unat_ip_header_minus_check ip_words_without_check(2), OF assms assms]]
    by (rule ones_norm_le)
qed

theorem calculate_ip_checksum_no_wrap_witness:
  "unat (ip_header_loop sample_header) = inet_total (be16s sample_header)"
  by (rule calculate_ip_checksum_no_wrap [THEN conjunct1]) (simp add: sample_header_def)

section \<open>The incremental update of the UDP checksum\<close>

definition update_udp_checksum :: "u16 \<Rightarrow> u16 \<Rightarrow> u16 \<Rightarrow> u16" where
  "update_udp_checksum csum old new = NOT ((NOT csum) - old + new)"

text \<open>
  What the forwarding code relies on: an update moves the checksum's accumulator by the
  difference of the two words, and the accumulator determines the checksum. Then a run of
  updates that replaces words by a rearrangement of themselves leaves the checksum as it was.
\<close>

locale checksum_update =
  fixes upd :: "'c \<Rightarrow> 'w \<Rightarrow> 'w \<Rightarrow> 'c"
    and acc :: "'c \<Rightarrow> 'g::ab_group_add"
    and val :: "'w \<Rightarrow> 'g"
  assumes acc_upd: "acc (upd c old new) = acc c - val old + val new"
    and acc_inj: "acc c = acc c' \<Longrightarrow> c = c'"
begin

lemma acc_run:
  "acc (foldl (\<lambda>c (old, new). upd c old new) c ps) =
     acc c - sum_list (map (\<lambda>p. val (fst p)) ps) + sum_list (map (\<lambda>p. val (snd p)) ps)"
  by (induction ps arbitrary: c) (auto simp: acc_upd algebra_simps)

lemma run_rearranged:
  assumes "mset (map fst ps) = mset (map snd ps)"
  shows "foldl (\<lambda>c (old, new). upd c old new) c ps = c"
proof (rule acc_inj)
  have "sum_list (map val (map fst ps)) = sum_list (map val (map snd ps))"
    using assms by (metis mset_map sum_mset_sum_list)
  then show "acc (foldl (\<lambda>c (old, new). upd c old new) c ps) = acc c"
    by (simp add: acc_run o_def)
qed

lemma run_inverse: "upd (upd c old new) new old = c"
  by (rule acc_inj) (simp add: acc_upd)

end

interpretation udp_csum: checksum_update update_udp_checksum "\<lambda>c. NOT c" "\<lambda>w. w"
  by unfold_locales (simp_all add: update_udp_checksum_def)





text \<open>
  The incremental update that the comment of \<open>update_udp_checksum\<close> names (RFC 1624) is a
  different function: there is a valid block and a word of it whose replacement the RFC's
  update follows and the code's does not.
\<close>

theorem update_udp_checksum_not_rfc1624:
  "inet_valid [0xFFFF, 0x0002, 0xFFFD] \<and>
   inet_valid [rfc1624_update 0xFFFF 0x0002 0x0001, 0x0001, 0xFFFD] \<and>
   \<not> inet_valid [update_udp_checksum 0xFFFF 0x0002 0x0001, 0x0001, 0xFFFD]"
  by (simp add: inet_valid_iff rfc1624_update_def update_udp_checksum_def ones_add_def Let_def)

end
