(* ===== verification/Bpf_Maps.thy ===== *)
theory Bpf_Maps
  imports Prelude
begin

text \<open>
  The BPF maps that the eBPF program declares (\<^verbatim>\<open>udp-router-ebpf/src/main.rs\<close>) and both sides
  use. The maps live in the kernel and are reached through aya, which is not part of the
  repository: the model takes the operations as an argument, the record \<open>bpf_api\<close>, and the
  interface \<open>array_maps\<close> states what their documentation promises. The declared maps
  themselves, with the number of entries the source gives them, interpret it.
\<close>

datatype bpf_map = LOCAL_NET_AND_MASK | BACKEND_NET_AND_MASK | GATEWAY_MAC_ADDRESS

datatype percpu_map = TOTAL_PACKETS | CLIENT_TO_SERVER_PACKETS | SERVER_TO_CLIENT_PACKETS

lemma all_bpf_map:
  "(\<forall>m. P m) \<longleftrightarrow> P LOCAL_NET_AND_MASK \<and> P BACKEND_NET_AND_MASK \<and> P GATEWAY_MAC_ADDRESS"
proof
  assume "P LOCAL_NET_AND_MASK \<and> P BACKEND_NET_AND_MASK \<and> P GATEWAY_MAC_ADDRESS"
  then show "\<forall>m. P m" by (intro allI, case_tac m) simp_all
qed simp

lemma all_percpu_map:
  "(\<forall>c. P c) \<longleftrightarrow>
     P TOTAL_PACKETS \<and> P CLIENT_TO_SERVER_PACKETS \<and> P SERVER_TO_CLIENT_PACKETS"
proof
  assume "P TOTAL_PACKETS \<and> P CLIENT_TO_SERVER_PACKETS \<and> P SERVER_TO_CLIENT_PACKETS"
  then show "\<forall>c. P c" by (intro allI, case_tac c) simp_all
qed simp

text \<open>\<^verbatim>\<open>Array::get\<close>, \<^verbatim>\<open>Array::set\<close> (\<open>None\<close> is its \<^verbatim>\<open>Err\<close>) and \<^verbatim>\<open>PerCpuArray::get\<close>.\<close>

record 'k bpf_api =
  array_get :: "'k \<Rightarrow> bpf_map \<Rightarrow> u32 \<Rightarrow> u64 option"
  array_set :: "'k \<Rightarrow> bpf_map \<Rightarrow> u32 \<Rightarrow> u64 \<Rightarrow> 'k option"
  percpu_get :: "'k \<Rightarrow> percpu_map \<Rightarrow> u32 \<Rightarrow> u64 list option"

text \<open>The macro \<^verbatim>\<open>read!\<close> of the eBPF program: an entry, or 0 if there is none.\<close>

definition read_map :: "(bpf_map \<Rightarrow> u32 \<Rightarrow> u64 option) \<Rightarrow> bpf_map \<Rightarrow> u32 \<Rightarrow> u64" where
  "read_map get var index = (case get var index of Some value \<Rightarrow> value | None \<Rightarrow> 0)"

lemma read_map_Some [simp]: "get m i = Some v \<Longrightarrow> read_map get m i = v"
  by (simp add: read_map_def)

section \<open>The contract of the array maps\<close>

locale array_maps =
  fixes K :: "'k bpf_api"
    and ok :: "'k \<Rightarrow> bool"
  assumes get_ok: "ok k \<Longrightarrow> \<exists>v. array_get K k m 0 = Some v"
    and set_ok: "ok k \<Longrightarrow> \<exists>k'. array_set K k m 0 v = Some k'"
    and set_keeps: "ok k \<Longrightarrow> array_set K k m 0 v = Some k' \<Longrightarrow> ok k'"
    and get_set: "ok k \<Longrightarrow> array_set K k m 0 v = Some k' \<Longrightarrow>
      array_get K k' m' 0 = (if m' = m then Some v else array_get K k m' 0)"
    and percpu_ok: "ok k \<Longrightarrow> \<exists>vs. percpu_get K k c 0 = Some vs"
    and percpu_set: "ok k \<Longrightarrow> array_set K k m 0 v = Some k' \<Longrightarrow>
      percpu_get K k' c 0 = percpu_get K k c 0"
begin

lemma read_set:
  assumes "ok k" and "array_set K k m 0 v = Some k'"
  shows "read_map (array_get K k') m' 0 =
           (if m' = m then v else read_map (array_get K k) m' 0)"
  using get_set [OF assms, of m'] by (simp add: read_map_def)

end

section \<open>The declared maps\<close>

record declared_maps =
  arrays :: "bpf_map \<Rightarrow> u64 list"
  percpus :: "percpu_map \<Rightarrow> u64 list list"

text \<open>
  The six \<^verbatim>\<open>#[map]\<close> statics, each \<^verbatim>\<open>with_max_entries(1, 0)\<close>; the kernel creates array maps
  filled with zeros, a per-CPU one with one value for each CPU.
\<close>

definition initial_maps :: "nat \<Rightarrow> declared_maps" where
  "initial_maps cpus = \<lparr>arrays = (\<lambda>_. replicate 1 0), percpus = (\<lambda>_. replicate 1 (replicate cpus 0))\<rparr>"

definition declared_get :: "declared_maps \<Rightarrow> bpf_map \<Rightarrow> u32 \<Rightarrow> u64 option" where
  "declared_get k m i =
     (if unat i < length (arrays k m) then Some (arrays k m ! unat i) else None)"

definition declared_set :: "declared_maps \<Rightarrow> bpf_map \<Rightarrow> u32 \<Rightarrow> u64 \<Rightarrow> declared_maps option" where
  "declared_set k m i v =
     (if unat i < length (arrays k m)
      then Some (k\<lparr>arrays := (arrays k)(m := (arrays k m)[unat i := v])\<rparr>) else None)"

definition declared_percpu :: "declared_maps \<Rightarrow> percpu_map \<Rightarrow> u32 \<Rightarrow> u64 list option" where
  "declared_percpu k c i =
     (if unat i < length (percpus k c) then Some (percpus k c ! unat i) else None)"

definition declared_api :: "declared_maps bpf_api" where
  "declared_api = \<lparr>array_get = declared_get, array_set = declared_set, percpu_get = declared_percpu\<rparr>"

definition one_entry :: "declared_maps \<Rightarrow> bool" where
  "one_entry k \<longleftrightarrow> arrays k LOCAL_NET_AND_MASK \<noteq> [] \<and> arrays k BACKEND_NET_AND_MASK \<noteq> [] \<and>
     arrays k GATEWAY_MAC_ADDRESS \<noteq> [] \<and> percpus k TOTAL_PACKETS \<noteq> [] \<and>
     percpus k CLIENT_TO_SERVER_PACKETS \<noteq> [] \<and> percpus k SERVER_TO_CLIENT_PACKETS \<noteq> []"

lemma one_entry_iff: "one_entry k \<longleftrightarrow> (\<forall>m. arrays k m \<noteq> []) \<and> (\<forall>c. percpus k c \<noteq> [])"
  by (auto simp: one_entry_def all_bpf_map all_percpu_map)

lemma one_entry_initial [simp]: "one_entry (initial_maps cpus)"
  by (simp add: one_entry_def initial_maps_def)

interpretation declared: array_maps declared_api one_entry
proof unfold_locales
  fix k k' m v m' c
  assume k: "one_entry k"
  show "\<exists>v. array_get declared_api k m 0 = Some v"
    and "\<exists>k'. array_set declared_api k m 0 v = Some k'"
    and "\<exists>vs. percpu_get declared_api k c 0 = Some vs"
    using k by (simp_all add: declared_api_def declared_get_def declared_set_def
        declared_percpu_def one_entry_iff)
  assume "array_set declared_api k m 0 v = Some k'"
  then have k': "k' = k\<lparr>arrays := (arrays k)(m := (arrays k m)[0 := v])\<rparr>"
    by (simp add: declared_api_def declared_set_def split: if_splits)
  show "one_entry k'"
    and "array_get declared_api k' m' 0 = (if m' = m then Some v else array_get declared_api k m' 0)"
    and "percpu_get declared_api k' c 0 = percpu_get declared_api k c 0"
    using k by (simp_all add: k' declared_api_def declared_get_def declared_percpu_def one_entry_iff)
qed

end
