(* ===== verification/Xdp.thy ===== *)
theory Xdp
  imports Checksum Bpf_Maps
begin

text \<open>
  The XDP program \<^verbatim>\<open>udp-router-ebpf/src/main.rs\<close>: the packet context and pointer check, the two
  source filters, the forwarding of a packet and the entry point. Memory is read and written
  through pointers into the packet; an access outside the packet is the value \<open>Fault\<close>, so that
  memory safety is a theorem and not an assumption. The eBPF object is only ever built with
  \<^verbatim>\<open>--release\<close> (\<^verbatim>\<open>udp-router/build.rs\<close>), so its integer operators wrap.
\<close>

section \<open>The packet context\<close>

text \<open>
  \<open>ctx_data\<close> and \<open>ctx_data_end\<close> are the addresses \<^verbatim>\<open>ctx.data()\<close> and \<^verbatim>\<open>ctx.data_end()\<close>
  return, \<open>pkt\<close> is the memory between them.
\<close>

record xdp_ctx =
  ctx_data :: u64
  ctx_data_end :: u64
  pkt :: bytes

text \<open>\<open>Err\<close> is the \<^verbatim>\<open>Err(())\<close> of the source, \<open>Fault\<close> an access outside the packet.\<close>

datatype xdp_exc = Err | Fault

type_synonym 'a xdp = "xdp_ctx \<Rightarrow> (xdp_exc + 'a) \<times> xdp_ctx"

definition ret :: "'a \<Rightarrow> 'a xdp" where
  "ret a s = (Inr a, s)"

definition bind_xdp :: "'a xdp \<Rightarrow> ('a \<Rightarrow> 'b xdp) \<Rightarrow> 'b xdp" where
  "bind_xdp m f s = (case m s of (Inl e, s') \<Rightarrow> (Inl e, s') | (Inr a, s') \<Rightarrow> f a s')"

definition load_bytes :: "u64 \<Rightarrow> nat \<Rightarrow> bytes xdp" where
  "load_bytes p n s =
     (let i = unat (p - ctx_data s)
      in if i + n \<le> length (pkt s) then (Inr (range_at i n (pkt s)), s) else (Inl Fault, s))"

definition store_bytes :: "u64 \<Rightarrow> bytes \<Rightarrow> unit xdp" where
  "store_bytes p bs s =
     (let i = unat (p - ctx_data s)
      in if i + length bs \<le> length (pkt s)
         then (Inr (), s\<lparr>pkt := overwrite i bs (pkt s)\<rparr>) else (Inl Fault, s))"

definition read_u16 :: "endian \<Rightarrow> u64 \<Rightarrow> u16 xdp" where
  "read_u16 e p = bind_xdp (load_bytes p 2) (\<lambda>bs. ret (load_u16 e bs))"

definition read_u32 :: "endian \<Rightarrow> u64 \<Rightarrow> u32 xdp" where
  "read_u32 e p = bind_xdp (load_bytes p 4) (\<lambda>bs. ret (load_u32 e bs))"

definition write_u16 :: "endian \<Rightarrow> u64 \<Rightarrow> u16 \<Rightarrow> unit xdp" where
  "write_u16 e p w = store_bytes p (store_u16 e w)"

definition write_u32 :: "endian \<Rightarrow> u64 \<Rightarrow> u32 \<Rightarrow> unit xdp" where
  "write_u32 e p w = store_bytes p (store_u32 e w)"

text \<open>\<^verbatim>\<open>ptr_at_mut<T>\<close> with \<open>len\<close> the size of \<^verbatim>\<open>T\<close>.\<close>

definition ptr_at_mut :: "u64 \<Rightarrow> u64 \<Rightarrow> u64 xdp" where
  "ptr_at_mut len offset s =
     (if ctx_data_end s < ctx_data s + offset + len then (Inl Err, s)
      else (Inr (ctx_data s + offset), s))"

section \<open>The header types of the crate network-types\<close>

text \<open>
  The crate is not part of the repository; the program uses the size of each header
  (\<^verbatim>\<open>EthHdr::LEN\<close> and so on), the offsets of some fields, and two constants it compares a
  field with. They are an argument of the model. \<open>wire_format\<close> states what the crate
  documents: the layouts of Ethernet II, IPv4 (RFC 791) and UDP (RFC 768).
\<close>

record net_types =
  eth_len :: u64
  eth_dst_addr :: u64
  eth_src_addr :: u64
  eth_ether_type :: u64
  ip_len :: u64
  ip_proto :: u64
  ip_check :: u64
  ip_src_addr :: u64
  ip_dst_addr :: u64
  udp_len :: u64
  udp_check :: u64
  is_ethertype_ipv4 :: "bytes \<Rightarrow> bool"
  is_proto_udp :: "bytes \<Rightarrow> bool"

definition wire_format :: "net_types \<Rightarrow> bool" where
  "wire_format N \<longleftrightarrow>
     eth_len N = 14 \<and> eth_dst_addr N = 0 \<and> eth_src_addr N = 6 \<and> eth_ether_type N = 12 \<and>
     ip_len N = 20 \<and> ip_proto N = 9 \<and> ip_check N = 10 \<and> ip_src_addr N = 12 \<and>
     ip_dst_addr N = 16 \<and> udp_len N = 8 \<and> udp_check N = 6 \<and>
     is_ethertype_ipv4 N = (\<lambda>bs. bs = [0x08, 0x00]) \<and> is_proto_udp N = (\<lambda>bs. bs = [17])"

definition rfc_headers :: net_types where
  "rfc_headers = \<lparr>eth_len = 14, eth_dst_addr = 0, eth_src_addr = 6, eth_ether_type = 12,
     ip_len = 20, ip_proto = 9, ip_check = 10, ip_src_addr = 12, ip_dst_addr = 16,
     udp_len = 8, udp_check = 6,
     is_ethertype_ipv4 = (\<lambda>bs. bs = [0x08, 0x00]), is_proto_udp = (\<lambda>bs. bs = [17])\<rparr>"

lemma wire_format_rfc [simp]: "wire_format rfc_headers"
  by (simp add: wire_format_def rfc_headers_def)

section \<open>The source filters\<close>

definition is_link_local_ip :: "u32 \<Rightarrow> bool" where
  "is_link_local_ip ip =
     (let link_local = push_bit 24 169 + push_bit 16 254; link_local_mask = 0xffff0000
      in (ip AND link_local_mask) = link_local)"

text \<open>The two halves of a network map entry.\<close>

definition net_part :: "u64 \<Rightarrow> u32" where
  "net_part net_and_mask = ucast (drop_bit 32 net_and_mask)"

definition mask_part :: "u64 \<Rightarrow> u32" where
  "mask_part net_and_mask = ucast (net_and_mask AND 0xffffffff)"

definition is_from_local_network :: "(bpf_map \<Rightarrow> u32 \<Rightarrow> u64 option) \<Rightarrow> u32 \<Rightarrow> bool" where
  "is_from_local_network get ip =
     (let local_and_mask = read_map get LOCAL_NET_AND_MASK 0;
          local = net_part local_and_mask;
          local_mask = mask_part local_and_mask
      in (ip AND local_mask) = local)"

definition is_from_backend_server :: "(bpf_map \<Rightarrow> u32 \<Rightarrow> u64 option) \<Rightarrow> u32 \<Rightarrow> bool" where
  "is_from_backend_server get ip =
     (let net_and_mask = read_map get BACKEND_NET_AND_MASK 0;
          net = net_part net_and_mask;
          mask = mask_part net_and_mask
      in (ip AND mask) = net)"

definition get_gateway_mac_address :: "(bpf_map \<Rightarrow> u32 \<Rightarrow> u64 option) \<Rightarrow> bytes" where
  "get_gateway_mac_address get =
     (let mac = u64_to_be_bytes (read_map get GATEWAY_MAC_ADDRESS 0)
      in [mac ! 2, mac ! 3, mac ! 4, mac ! 5, mac ! 6, mac ! 7])"

section \<open>Forwarding\<close>

text \<open>
  The three blocks of step 2 are the same up to the two words they compare: each splits the
  old and the new address into halves and patches the checksum for both. \<open>old_be\<close> and
  \<open>new_be\<close> are the values as read from memory.
\<close>

definition patch_checksum :: "endian \<Rightarrow> u16 \<Rightarrow> u32 \<Rightarrow> u32 \<Rightarrow> u16" where
  "patch_checksum e udp_csum_ne old_be new_be =
     (let old = u32_to_be_bytes (u32_be e old_be);
          old_upper = from_be_bytes [old ! 0, old ! 1];
          old_lower = from_be_bytes [old ! 2, old ! 3];
          new = u32_to_be_bytes (u32_be e new_be);
          new_upper = from_be_bytes [new ! 0, new ! 1];
          new_lower = from_be_bytes [new ! 2, new ! 3];
          udp_csum_ne = update_udp_checksum udp_csum_ne old_upper new_upper
      in update_udp_checksum udp_csum_ne old_lower new_lower)"

text \<open>The values of \<^verbatim>\<open>xdp_action\<close> the program returns.\<close>

datatype xdp_action = XDP_ABORTED | XDP_PASS | XDP_TX

definition try_forward_packet ::
    "net_types \<Rightarrow> endian \<Rightarrow> (bpf_map \<Rightarrow> u32 \<Rightarrow> u64 option) \<Rightarrow> xdp_action xdp" where
  "try_forward_packet N e get =
     bind_xdp (ptr_at_mut (eth_len N) 0) (\<lambda>ethhdr.
     bind_xdp (ptr_at_mut (ip_len N) (eth_len N)) (\<lambda>ipv4hdr.
     bind_xdp (ptr_at_mut (udp_len N) (eth_len N + ip_len N)) (\<lambda>udphdr.
     bind_xdp (read_u32 e (ipv4hdr + ip_dst_addr N)) (\<lambda>router_ip_be.
     bind_xdp (read_u32 e (ipv4hdr + ip_src_addr N)) (\<lambda>source_ip_be.
     bind_xdp (ptr_at_mut 4 (eth_len N + ip_len N + udp_len N)) (\<lambda>payload.
     bind_xdp (read_u32 e payload) (\<lambda>target_ip_be.
     bind_xdp (read_u16 e (udphdr + udp_check N)) (\<lambda>check.
     let udp_csum_ne = u16_be e check in
     bind_xdp (read_u32 e (ipv4hdr + ip_dst_addr N)) (\<lambda>old.
     bind_xdp (write_u32 e (ipv4hdr + ip_dst_addr N) target_ip_be) (\<lambda>_.
     let udp_csum_ne = patch_checksum e udp_csum_ne old target_ip_be in
     bind_xdp (read_u32 e (ipv4hdr + ip_src_addr N)) (\<lambda>old.
     bind_xdp (write_u32 e (ipv4hdr + ip_src_addr N) router_ip_be) (\<lambda>_.
     let udp_csum_ne = patch_checksum e udp_csum_ne old router_ip_be in
     bind_xdp (write_u32 e payload source_ip_be) (\<lambda>_.
     let udp_csum_ne = patch_checksum e udp_csum_ne target_ip_be source_ip_be in
     bind_xdp (load_bytes (ethhdr + eth_dst_addr N) 6) (\<lambda>dst_addr.
     bind_xdp (store_bytes (ethhdr + eth_src_addr N) dst_addr) (\<lambda>_.
     bind_xdp (store_bytes (ethhdr + eth_dst_addr N) (get_gateway_mac_address get)) (\<lambda>_.
     bind_xdp (load_bytes ipv4hdr 20) (\<lambda>header.
     bind_xdp (write_u16 e (ipv4hdr + ip_check N) (calculate_ip_checksum e header)) (\<lambda>_.
     bind_xdp (write_u16 e (udphdr + udp_check N) (u16_be e udp_csum_ne)) (\<lambda>_.
     ret XDP_TX)))))))))))))))))))"

definition try_udp_router ::
    "net_types \<Rightarrow> endian \<Rightarrow> (bpf_map \<Rightarrow> u32 \<Rightarrow> u64 option) \<Rightarrow> xdp_action xdp" where
  "try_udp_router N e get =
     bind_xdp (ptr_at_mut (eth_len N) 0) (\<lambda>ethhdr.
     bind_xdp (load_bytes (ethhdr + eth_ether_type N) 2) (\<lambda>ether_type.
     if \<not> is_ethertype_ipv4 N ether_type then ret XDP_PASS else
     bind_xdp (ptr_at_mut (ip_len N) (eth_len N)) (\<lambda>ipv4hdr.
     bind_xdp (load_bytes (ipv4hdr + ip_proto N) 1) (\<lambda>proto.
     if \<not> is_proto_udp N proto then ret XDP_PASS else
     bind_xdp (read_u32 e (ipv4hdr + ip_src_addr N)) (\<lambda>src_addr.
     let source_ip = u32_be e src_addr in
     if is_link_local_ip source_ip \<or> is_from_local_network get source_ip then ret XDP_PASS
     else try_forward_packet N e get)))))"

text \<open>The verdict of the program; \<open>Fault\<close> is kept apart from the \<^verbatim>\<open>Err\<close> it never stands for.\<close>

definition udp_router ::
    "net_types \<Rightarrow> endian \<Rightarrow> (bpf_map \<Rightarrow> u32 \<Rightarrow> u64 option) \<Rightarrow> xdp_action xdp" where
  "udp_router N e get s =
     (case try_udp_router N e get s of
        (Inr r, s') \<Rightarrow> (Inr r, s')
      | (Inl Err, s') \<Rightarrow> (Inr XDP_ABORTED, s')
      | (Inl Fault, s') \<Rightarrow> (Inl Fault, s'))"

text \<open>
  The panic handler that a program without the standard library has to have: an endless loop.
  No operation of the program panics, and the model has no way to call it.
\<close>

partial_function (option) panic_handler :: "'info \<Rightarrow> 'never option" where
  "panic_handler info = panic_handler info"

lemma panic_handler_loops: "panic_handler info = (None :: 'never option)"
proof (cases "panic_handler info :: 'never option")
  case (Some y)
  have False by (rule panic_handler.raw_induct [of "\<lambda>_ _. False", OF _ Some])
  then show ?thesis ..
qed

end
