(* ===== verification/Forwarding.thy ===== *)
theory Forwarding
  imports Xdp
begin

text \<open>
  What the XDP program does, seen on the frame: a view of the frame as fields, the abstract
  rerouting of a view, and the refinement of \<open>try_forward_packet\<close> and \<open>udp_router\<close> to it.
\<close>

section \<open>Running the packet operations\<close>

named_theorems xdp_run \<open>symbolic execution of the packet operations\<close>

text \<open>The driver gives the program 32-bit packet addresses, and the memory between them.\<close>

definition ctx_ok :: "xdp_ctx \<Rightarrow> bool" where
  "ctx_ok s \<longleftrightarrow> unat (ctx_data_end s) = unat (ctx_data s) + length (pkt s) \<and>
     unat (ctx_data_end s) < 2 ^ 32"

lemma ctx_ok_overwrite [simp]:
  "i + length bs \<le> length (pkt s) \<Longrightarrow> ctx_ok (s\<lparr>pkt := overwrite i bs (pkt s)\<rparr>) = ctx_ok s"
  by (simp add: ctx_ok_def)

lemma bind_Inr [xdp_run]: "m s = (Inr a, s') \<Longrightarrow> bind_xdp m f s = f a s'"
  by (simp add: bind_xdp_def)

lemma bind_Inl [xdp_run]: "m s = (Inl x, s') \<Longrightarrow> bind_xdp m f s = (Inl x, s')"
  by (simp add: bind_xdp_def)

lemma ret_run [xdp_run]: "ret a s = (Inr a, s)"
  by (simp add: ret_def)

lemma ptr_at_mut_run [xdp_run]:
  assumes "ctx_ok s" and "unat off + unat len < 2 ^ 32"
  shows "ptr_at_mut len off s =
           (if unat off + unat len \<le> length (pkt s) then (Inr (ctx_data s + off), s)
            else (Inl Err, s))"
proof -
  have d: "unat (ctx_data s) + (unat off + unat len) < 2 ^ 64"
    using assms by (simp add: ctx_ok_def)
  then have "unat (ctx_data s + off + len) = unat (ctx_data s) + unat off + unat len"
    by (simp add: unat_word_ariths)
  then show ?thesis
    using assms by (auto simp: ptr_at_mut_def word_less_nat_alt ctx_ok_def)
qed

text \<open>The base address \<open>d\<close> is a variable of its own, as a store leaves it unchanged.\<close>

lemma load_run [xdp_run]:
  assumes "ctx_data s = d"
  shows "unat off + n \<le> length (pkt s) \<Longrightarrow>
      load_bytes (d + off) n s = (Inr (range_at (unat off) n (pkt s)), s)"
    and "n \<le> length (pkt s) \<Longrightarrow> load_bytes d n s = (Inr (range_at 0 n (pkt s)), s)"
  using assms by (simp_all add: load_bytes_def Let_def)

lemma store_run [xdp_run]:
  assumes "ctx_data s = d"
  shows "unat off + length bs \<le> length (pkt s) \<Longrightarrow>
      store_bytes (d + off) bs s = (Inr (), s\<lparr>pkt := overwrite (unat off) bs (pkt s)\<rparr>)"
    and "length bs \<le> length (pkt s) \<Longrightarrow>
      store_bytes d bs s = (Inr (), s\<lparr>pkt := overwrite 0 bs (pkt s)\<rparr>)"
  using assms by (simp_all add: store_bytes_def Let_def)

lemma read_u16_run [xdp_run]:
  "ctx_data s = d \<Longrightarrow> unat off + 2 \<le> length (pkt s) \<Longrightarrow>
   read_u16 e (d + off) s = (Inr (load_u16 e (range_at (unat off) 2 (pkt s))), s)"
  by (simp add: read_u16_def xdp_run)

lemma read_u32_run [xdp_run]:
  "ctx_data s = d \<Longrightarrow> unat off + 4 \<le> length (pkt s) \<Longrightarrow>
   read_u32 e (d + off) s = (Inr (load_u32 e (range_at (unat off) 4 (pkt s))), s)"
  by (simp add: read_u32_def xdp_run)

lemma write_u16_run [xdp_run]:
  "ctx_data s = d \<Longrightarrow> unat off + 2 \<le> length (pkt s) \<Longrightarrow>
   write_u16 e (d + off) w s =
     (Inr (), s\<lparr>pkt := overwrite (unat off) (store_u16 e w) (pkt s)\<rparr>)"
  by (simp add: write_u16_def xdp_run)

lemma write_u32_run [xdp_run]:
  "ctx_data s = d \<Longrightarrow> unat off + 4 \<le> length (pkt s) \<Longrightarrow>
   write_u32 e (d + off) w s =
     (Inr (), s\<lparr>pkt := overwrite (unat off) (store_u32 e w) (pkt s)\<rparr>)"
  by (simp add: write_u32_def xdp_run)

section \<open>The checksum patches cancel\<close>

definition halves :: "endian \<Rightarrow> u32 \<Rightarrow> u16 list" where
  "halves e w = (let b = u32_to_be_bytes (u32_be e w)
                 in [from_be_bytes [b ! 0, b ! 1], from_be_bytes [b ! 2, b ! 3]])"

lemma patch_checksum_fold:
  "patch_checksum e c old new =
     foldl (\<lambda>c (old, new). update_udp_checksum c old new) c (zip (halves e old) (halves e new))"
  by (simp add: patch_checksum_def halves_def Let_def)

text \<open>
  The destination becomes the target, the source becomes the router, the payload becomes the
  source: the words are only rearranged.
\<close>

lemma patches_cancel:
  "patch_checksum e (patch_checksum e (patch_checksum e c router target) source router) target source = c"
proof -
  let ?ps = "zip (halves e router) (halves e target) @ zip (halves e source) (halves e router) @
             zip (halves e target) (halves e source)"
  have "mset (map fst ?ps) = mset (map snd ?ps)"
    by (simp add: halves_def Let_def)
  then have "foldl (\<lambda>c (old, new). update_udp_checksum c old new) c ?ps = c"
    by (rule udp_csum.run_rearranged)
  then show ?thesis by (simp add: patch_checksum_fold)
qed

section \<open>A frame as fields, and its rerouting\<close>

record frame_fields =
  f_dst_mac :: bytes
  f_src_mac :: bytes
  f_ether_type :: bytes
  f_ip_front :: bytes
  f_ip_check :: bytes
  f_src_addr :: bytes
  f_dst_addr :: bytes
  f_udp_front :: bytes
  f_udp_check :: bytes
  f_payload :: bytes
  f_rest :: bytes

definition view_frame :: "bytes \<Rightarrow> frame_fields" where
  "view_frame f = \<lparr>f_dst_mac = range_at 0 6 f, f_src_mac = range_at 6 6 f,
     f_ether_type = range_at 12 2 f, f_ip_front = range_at 14 10 f, f_ip_check = range_at 24 2 f,
     f_src_addr = range_at 26 4 f, f_dst_addr = range_at 30 4 f, f_udp_front = range_at 34 6 f,
     f_udp_check = range_at 40 2 f, f_payload = range_at 42 4 f, f_rest = drop 46 f\<rparr>"

definition frame_bytes :: "frame_fields \<Rightarrow> bytes" where
  "frame_bytes v = f_dst_mac v @ f_src_mac v @ f_ether_type v @ f_ip_front v @ f_ip_check v @
     f_src_addr v @ f_dst_addr v @ f_udp_front v @ f_udp_check v @ f_payload v @ f_rest v"

text \<open>
  The contract of forwarding. The UDP checksum field is not touched; the IP checksum is the
  Internet checksum of the new header.
\<close>

definition reroute :: "bytes \<Rightarrow> frame_fields \<Rightarrow> frame_fields" where
  "reroute gateway v = v\<lparr>f_dst_mac := gateway, f_src_mac := f_dst_mac v,
     f_ip_check := u16_to_be_bytes (inet_checksum (be16s (f_ip_front v @ f_dst_addr v @ f_payload v))),
     f_src_addr := f_dst_addr v, f_dst_addr := f_payload v, f_payload := f_src_addr v\<rparr>"

definition forward_frame :: "bytes \<Rightarrow> bytes \<Rightarrow> bytes" where
  "forward_frame gateway f = frame_bytes (reroute gateway (view_frame f))"

lemma frame_bytes_view [simp]: "frame_bytes (view_frame f) = f"
proof -
  have "frame_bytes (view_frame f) = range_at 0 46 f @ drop 46 f"
    by (simp add: frame_bytes_def view_frame_def range_at_split [of 0 6 40, simplified]
        range_at_split [of 6 6 34, simplified] range_at_split [of 12 2 32, simplified]
        range_at_split [of 14 10 22, simplified] range_at_split [of 24 2 20, simplified]
        range_at_split [of 26 4 16, simplified] range_at_split [of 30 4 12, simplified]
        range_at_split [of 34 6 6, simplified] range_at_split [of 40 2 4, simplified])
  then show ?thesis by (simp add: range_at_def)
qed

lemma view_frame_eqI: "view_frame f = view_frame g \<Longrightarrow> f = g"
  by (metis frame_bytes_view)

lemma get_gateway_length [simp]: "length (get_gateway_mac_address get) = 6"
  by (simp add: get_gateway_mac_address_def Let_def)

lemma length_forward_frame [simp]:
  "46 \<le> length f \<Longrightarrow> length gateway = 6 \<Longrightarrow> length (forward_frame gateway f) = length f"
  by (simp add: forward_frame_def frame_bytes_def reroute_def view_frame_def)

lemma view_forward_frame:
  assumes "46 \<le> length f" and "length gateway = 6"
  shows "view_frame (forward_frame gateway f) = reroute gateway (view_frame f)"
  using assms
  by (simp add: forward_frame_def frame_bytes_def reroute_def view_frame_def range_at_def)


section \<open>The program on a frame\<close>

lemma wire_fields:
  assumes "wire_format N"
  shows "eth_len N = 14" "eth_dst_addr N = 0" "eth_src_addr N = 6" "eth_ether_type N = 12"
    "ip_len N = 20" "ip_proto N = 9" "ip_check N = 10" "ip_src_addr N = 12" "ip_dst_addr N = 16"
    "udp_len N = 8" "udp_check N = 6"
    "is_ethertype_ipv4 N = (\<lambda>bs. bs = [0x08, 0x00])" "is_proto_udp N = (\<lambda>bs. bs = [17])"
  using assms by (simp_all add: wire_format_def)

lemma rewritten_frame:
  fixes f gateway :: bytes
  assumes len: "46 \<le> length f" and gw: "length gateway = 6"
  defines "g \<equiv> overwrite 0 gateway (overwrite 6 (range_at 0 6 f)
      (overwrite 42 (range_at 26 4 f) (overwrite 26 (range_at 30 4 f)
      (overwrite 30 (range_at 42 4 f) f))))"
  shows "overwrite 40 (range_at 40 2 f)
      (overwrite 24 (store_u16 e (calculate_ip_checksum e (range_at 14 20 g))) g) =
      forward_frame gateway f"
proof (rule view_frame_eqI)
  have "range_at 14 20 g = range_at 14 10 g @ range_at 24 2 g @ range_at 26 4 g @ range_at 30 4 g"
    by (simp add: range_at_split [of 14 10 10, simplified]
        range_at_split [of 24 2 8, simplified] range_at_split [of 26 4 4, simplified])
  also have "\<dots> = range_at 14 10 f @ range_at 24 2 f @ range_at 30 4 f @ range_at 42 4 f"
    using len gw by (simp add: g_def range_simps)
  finally have ck: "store_u16 e (calculate_ip_checksum e (range_at 14 20 g)) =
      u16_to_be_bytes (inet_checksum (be16s (range_at 14 10 f @ range_at 30 4 f @ range_at 42 4 f)))"
    using len by (simp add: store_ip_checksum)
  show "view_frame (overwrite 40 (range_at 40 2 f)
      (overwrite 24 (store_u16 e (calculate_ip_checksum e (range_at 14 20 g))) g)) =
      view_frame (forward_frame gateway f)"
    unfolding view_forward_frame [OF len gw] ck using len gw
    by (simp add: view_frame_def reroute_def g_def range_simps)
qed

lemma try_forward_run:
  assumes N: "wire_format N" and ok: "ctx_ok s" and len: "46 \<le> length (pkt s)"
  shows "try_forward_packet N e get s =
     (Inr XDP_TX, s\<lparr>pkt := forward_frame (get_gateway_mac_address get) (pkt s)\<rparr>)"
  using ok len rewritten_frame [of "pkt s" "get_gateway_mac_address get" e]
  by (simp add: try_forward_packet_def Let_def wire_fields [OF N] xdp_run add.assoc
      range_overwrite_before range_overwrite_after patches_cancel)

lemma try_forward_short:
  assumes N: "wire_format N" and ok: "ctx_ok s" and len: "length (pkt s) < 46"
  shows "try_forward_packet N e get s = (Inl Err, s)"
proof -
  consider "length (pkt s) < 14" | "14 \<le> length (pkt s)" "length (pkt s) < 34"
    | "34 \<le> length (pkt s)" "length (pkt s) < 42" | "42 \<le> length (pkt s)"
    by linarith
  then show ?thesis
    using ok len
    by cases (simp_all add: try_forward_packet_def Let_def wire_fields [OF N] xdp_run add.assoc)
qed

text \<open>
  The whole program as a function of the frame: which packets are passed to the kernel, which
  are forwarded, and that a packet that is too short for the header being read is aborted.
\<close>

definition source_addr :: "bytes \<Rightarrow> u32" where
  "source_addr f = from_be_bytes (range_at 26 4 f)"

text \<open>169.254.0.0/16, the link-local block of RFC 3927.\<close>

definition link_local :: "u32 \<Rightarrow> bool" where
  "link_local ip \<longleftrightarrow> drop_bit 16 ip = 0xA9FE"

lemma is_link_local_ip_iff: "is_link_local_ip ip \<longleftrightarrow> link_local ip"
proof -
  have "ip AND push_bit 16 (mask 16) = push_bit 16 (drop_bit 16 ip)"
    by (rule bit_word_eqI) (auto simp: bit_simps)
  then have "ip AND 0xFFFF0000 = push_bit 16 (drop_bit 16 ip)"
    by (simp add: mask_eq_exp_minus_1 push_bit_eq_mult)
  moreover have "push_bit 16 (drop_bit 16 ip) = 0xA9FE0000 \<longleftrightarrow> drop_bit 16 ip = 0xA9FE"
  proof
    assume "push_bit 16 (drop_bit 16 ip) = 0xA9FE0000"
    then have "drop_bit 16 (push_bit 16 (drop_bit 16 ip)) = drop_bit 16 (0xA9FE0000 :: u32)" by simp
    moreover have "drop_bit 16 (push_bit 16 (drop_bit 16 ip)) = drop_bit 16 ip"
      by (rule bit_word_eqI) (auto simp: bit_simps dest: bit_imp_le_length)
    ultimately show "drop_bit 16 ip = 0xA9FE" by simp
  qed (simp add: push_bit_eq_mult)
  ultimately show ?thesis by (simp add: is_link_local_ip_def link_local_def Let_def)
qed

definition exempt :: "(bpf_map \<Rightarrow> u32 \<Rightarrow> u64 option) \<Rightarrow> u32 \<Rightarrow> bool" where
  "exempt get ip \<longleftrightarrow> link_local ip \<or> is_from_local_network get ip"

definition router_spec ::
    "(bpf_map \<Rightarrow> u32 \<Rightarrow> u64 option) \<Rightarrow> bytes \<Rightarrow> xdp_action \<times> bytes" where
  "router_spec get f =
     (if length f < 14 then (XDP_ABORTED, f)
      else if range_at 12 2 f \<noteq> [0x08, 0x00] then (XDP_PASS, f)
      else if length f < 34 then (XDP_ABORTED, f)
      else if range_at 23 1 f \<noteq> [17] then (XDP_PASS, f)
      else if exempt get (source_addr f) then (XDP_PASS, f)
      else if length f < 46 then (XDP_ABORTED, f)
      else (XDP_TX, forward_frame (get_gateway_mac_address get) f))"

lemma udp_router_run:
  assumes N: "wire_format N" and ok: "ctx_ok s"
  shows "udp_router N e get s =
     (Inr (fst (router_spec get (pkt s))), s\<lparr>pkt := snd (router_spec get (pkt s))\<rparr>)"
proof -
  have "try_udp_router N e get s =
     (if fst (router_spec get (pkt s)) = XDP_ABORTED then Inl Err
      else Inr (fst (router_spec get (pkt s))), s\<lparr>pkt := snd (router_spec get (pkt s))\<rparr>)"
    using ok try_forward_run [OF N ok, of e get] try_forward_short [OF N ok, of e get]
    by (simp add: try_udp_router_def router_spec_def exempt_def is_link_local_ip_iff source_addr_def Let_def
        wire_fields [OF N] xdp_run add.assoc)
  then show ?thesis by (simp add: udp_router_def)
qed

end
