(* ===== verification/Forwarding_Props.thy ===== *)
theory Forwarding_Props
  imports Forwarding
begin

text \<open>
  The properties of the XDP program: the refinement of forwarding, the verdict for every
  packet, validity of both checksums after forwarding, and the return path of a reply.
\<close>

section \<open>Sample packets\<close>

text \<open>
  A datagram from 198.51.100.7 to the router 10.0.2.10 whose payload names the server
  10.0.3.10; with and without an IP option; and one with no payload, padded by Ethernet.
\<close>

definition sample_frame :: bytes where
  "sample_frame = [2, 0, 0, 0, 0, 1, 2, 0, 0, 0, 0, 2, 8, 0,
     69, 0, 0, 32, 18, 52, 64, 0, 64, 17, 242, 84, 198, 51, 100, 7, 10, 0, 2, 10,
     156, 64, 34, 184, 0, 12, 253, 142, 10, 0, 3, 10]"

definition sample_options_frame :: bytes where
  "sample_options_frame = [2, 0, 0, 0, 0, 1, 2, 0, 0, 0, 0, 2, 8, 0,
     70, 0, 0, 36, 18, 52, 64, 0, 64, 17, 239, 78, 198, 51, 100, 7, 10, 0, 2, 10, 1, 1, 1, 1,
     156, 64, 34, 184, 0, 12, 253, 142, 10, 0, 3, 10]"

definition sample_empty_frame :: bytes where
  "sample_empty_frame = [2, 0, 0, 0, 0, 1, 2, 0, 0, 0, 0, 2, 8, 0,
     69, 0, 0, 28, 18, 52, 64, 0, 64, 17, 242, 88, 198, 51, 100, 7, 10, 0, 2, 10,
     156, 64, 34, 184, 0, 8, 10, 161, 0, 0, 0, 0, 0, 0, 0, 0, 0, 0, 0, 0, 0, 0, 0, 0, 0, 0]"

definition sample_ctx :: "bytes \<Rightarrow> xdp_ctx" where
  "sample_ctx f = \<lparr>ctx_data = 256, ctx_data_end = 256 + word_of_nat (length f), pkt = f\<rparr>"

text \<open>The router of the README: local network 10.0.2.0/24, some gateway address.\<close>

definition sample_get :: "bpf_map \<Rightarrow> u32 \<Rightarrow> u64 option" where
  "sample_get m i = Some (case m of
       LOCAL_NET_AND_MASK \<Rightarrow> 0x0A000200FFFFFF00
     | BACKEND_NET_AND_MASK \<Rightarrow> 0x0A000300FFFFFF00
     | GATEWAY_MAC_ADDRESS \<Rightarrow> 0x0000020000000009)"

lemma sample_lengths [simp]:
  "length sample_frame = 46" "length sample_options_frame = 50" "length sample_empty_frame = 60"
  by (simp_all add: sample_frame_def sample_options_frame_def sample_empty_frame_def)

lemma sample_ctx_pkt [simp]: "pkt (sample_ctx f) = f"
  by (simp add: sample_ctx_def)

lemma sample_ctx_ok [simp]: "length f < 1000 \<Longrightarrow> ctx_ok (sample_ctx f)"
  by (simp add: ctx_ok_def sample_ctx_def unat_word_ariths unat_of_nat)

section \<open>Refinement and verdict\<close>

text \<open>
  C2: on every packet that holds the three headers and the four address bytes,
  \<^verbatim>\<open>try_forward_packet\<close> returns \<^verbatim>\<open>XDP_TX\<close> and implements the abstract rerouting of the
  frame: destination becomes the address in the payload, source becomes the router, the payload
  becomes the sender, the MAC addresses move on to the gateway, the IP checksum is that of the
  new header, and the UDP checksum and every other byte are as they were.
\<close>

theorem try_forward_packet_refines:
  assumes "wire_format N" and "ctx_ok s" and "46 \<le> length (pkt s)"
  shows "\<exists>s'. try_forward_packet N e get s = (Inr XDP_TX, s') \<and>
     view_frame (pkt s') = reroute (get_gateway_mac_address get) (view_frame (pkt s)) \<and>
     ctx_ok s' \<and> length (pkt s') = length (pkt s)"
  using assms
  by (simp add: try_forward_run view_forward_frame ctx_ok_def)

theorem try_forward_packet_refines_witness:
  "\<exists>s'. try_forward_packet rfc_headers Little sample_get (sample_ctx sample_frame) = (Inr XDP_TX, s') \<and>
     view_frame (pkt s') = reroute (get_gateway_mac_address sample_get) (view_frame sample_frame) \<and>
     ctx_ok s' \<and> length (pkt s') = 46"
  using try_forward_packet_refines
    [of rfc_headers "sample_ctx sample_frame" Little sample_get]
  by simp

text \<open>
  C1: the verdict and the frame after the program, for every packet and both byte orders. In
  particular no access is ever outside the packet, and only a forwarded packet is written to.
\<close>

theorem udp_router_verdict:
  assumes "wire_format N" and "ctx_ok s"
  shows "udp_router N e get s =
     (Inr (fst (router_spec get (pkt s))), s\<lparr>pkt := snd (router_spec get (pkt s))\<rparr>)"
  using assms by (rule udp_router_run)

theorem udp_router_verdict_witness:
  "udp_router rfc_headers Big sample_get (sample_ctx sample_frame) =
     (Inr XDP_TX, sample_ctx (snd (router_spec sample_get sample_frame)))"
proof -
  have "router_spec sample_get sample_frame =
      (XDP_TX, forward_frame (get_gateway_mac_address sample_get) sample_frame)"
    by (simp add: router_spec_def exempt_def source_addr_def link_local_def
        is_from_local_network_def net_part_def mask_part_def read_map_def sample_get_def sample_frame_def range_at_def
        from_be_bytes_def Let_def)
  moreover have "(sample_ctx sample_frame)\<lparr>pkt := f\<rparr> = sample_ctx f" if "length f = 46" for f
    using that by (simp add: sample_ctx_def)
  ultimately show ?thesis
    using udp_router_verdict [of rfc_headers "sample_ctx sample_frame" Big sample_get] by simp
qed

section \<open>Checksums after forwarding\<close>

lemma range_at_sub:
  "i \<le> j \<Longrightarrow> j + m \<le> i + n \<Longrightarrow> range_at j m xs = take m (drop (j - i) (range_at i n xs))"
  by (simp add: range_at_def drop_take min_def)

lemma nth_from_range:
  "i \<le> j \<Longrightarrow> j < i + n \<Longrightarrow> i + n \<le> length xs \<Longrightarrow> xs ! j = range_at i n xs ! (j - i)"
  by (simp add: range_at_def)

lemma forward_ranges:
  assumes "46 \<le> length f" and "length gateway = 6"
  defines "f' \<equiv> forward_frame gateway f"
  shows "range_at 0 6 f' = gateway" "range_at 6 6 f' = range_at 0 6 f"
    "range_at 12 2 f' = range_at 12 2 f" "range_at 14 10 f' = range_at 14 10 f"
    "range_at 24 2 f' = u16_to_be_bytes (inet_checksum
       (be16s (range_at 14 10 f @ range_at 30 4 f @ range_at 42 4 f)))"
    "range_at 26 4 f' = range_at 30 4 f" "range_at 30 4 f' = range_at 42 4 f"
    "range_at 34 6 f' = range_at 34 6 f" "range_at 40 2 f' = range_at 40 2 f"
    "range_at 42 4 f' = range_at 26 4 f" "drop 46 f' = drop 46 f"
  using view_forward_frame [OF assms(1,2)]
  by (simp_all add: view_frame_def reroute_def f'_def)

definition ihl :: "bytes \<Rightarrow> nat" where
  "ihl f = unat (f ! 14 AND 15)"

text \<open>What a receiver checks of the IPv4 header and of the UDP datagram (RFC 768).\<close>

definition ip_header_valid :: "bytes \<Rightarrow> bool" where
  "ip_header_valid f \<longleftrightarrow> inet_valid (be16s (range_at 14 (4 * ihl f) f))"

definition udp_length :: "bytes \<Rightarrow> nat" where
  "udp_length f = unat (from_be_bytes (range_at (18 + 4 * ihl f) 2 f) :: u16)"

definition udp_sum_words :: "bytes \<Rightarrow> u16 list" where
  "udp_sum_words f = be16s (range_at 26 8 f @ [0, f ! 23] @ range_at (18 + 4 * ihl f) 2 f @
     range_at (14 + 4 * ihl f) (udp_length f) f)"

definition udp_datagram_valid :: "bytes \<Rightarrow> bool" where
  "udp_datagram_valid f \<longleftrightarrow> 8 \<le> udp_length f \<and> 14 + 4 * ihl f + udp_length f \<le> length f \<and>
     (range_at (20 + 4 * ihl f) 2 f = [0, 0] \<or> inet_valid (udp_sum_words f))"

lemma forward_front_bytes:
  assumes "46 \<le> length f" and "length gateway = 6"
  shows "ihl (forward_frame gateway f) = ihl f" and "forward_frame gateway f ! 23 = f ! 23"
  using assms forward_ranges(4) [OF assms]
  by (simp_all add: ihl_def nth_from_range [of 14 14 10] nth_from_range [of 14 23 10])

text \<open>
  The new checksum is that of the first 20 bytes; so the options after them decide, which the
  sum leaves out.
\<close>

lemma forwarded_ip_header_options:
  assumes len: "46 \<le> length f" and gw: "length gateway = 6" and ihl: "5 \<le> ihl f"
  shows "ip_header_valid (forward_frame gateway f) \<longleftrightarrow>
     65535 dvd inet_total (be16s (range_at 34 (4 * (ihl f - 5)) (forward_frame gateway f)))"
proof -
  let ?f = "forward_frame gateway f"
  let ?ws = "be16s (range_at 14 10 f @ range_at 30 4 f @ range_at 42 4 f)"
  have "range_at 14 20 ?f = range_at 14 10 ?f @ range_at 24 2 ?f @ range_at 26 4 ?f @ range_at 30 4 ?f"
    by (simp add: range_at_split [of 14 10 10, simplified]
        range_at_split [of 24 2 8, simplified] range_at_split [of 26 4 4, simplified])
  then have h: "range_at 14 20 ?f = range_at 14 10 f @ u16_to_be_bytes (inet_checksum ?ws) @
      range_at 30 4 f @ range_at 42 4 f"
    by (simp only: forward_ranges [OF len gw])
  obtain a b where ab: "u16_to_be_bytes (inet_checksum ?ws) = [a, b]"
    using length_2_conv [of "u16_to_be_bytes (inet_checksum ?ws)"] by auto
  then have w: "from_be_bytes [a, b] = inet_checksum ?ws"
    by (metis u16_from_to_be_bytes)
  have "inet_total (be16s (range_at 14 20 ?f)) = inet_total (inet_checksum ?ws # ?ws)"
    using len unfolding h ab by (simp add: w)
  then have front: "inet_valid (be16s (range_at 14 20 ?f))"
    using inet_checksum_valid inet_valid_perm by metis
  have l20: "length (range_at 14 20 ?f) = 20" using len gw by simp
  have "4 * ihl f = 20 + 4 * (ihl f - 5)" using ihl by simp
  then have "range_at 14 (4 * ihl f) ?f = range_at 14 20 ?f @ range_at 34 (4 * (ihl f - 5)) ?f"
    by (simp only: range_at_split) simp
  then have "inet_total (be16s (range_at 14 (4 * ihl f) ?f)) =
      inet_total (be16s (range_at 14 20 ?f)) + inet_total (be16s (range_at 34 (4 * (ihl f - 5)) ?f))"
    using l20 by simp
  with front show ?thesis
    using len gw
    by (simp add: ip_header_valid_def forward_front_bytes inet_valid_iff mod_eq_0_iff_dvd
        dvd_add_right_iff)
qed

lemma forwarded_ip_header_valid:
  assumes "46 \<le> length f" and "length gateway = 6" and "ihl f = 5"
  shows "ip_header_valid (forward_frame gateway f)"
  using forwarded_ip_header_options [OF assms(1,2)] assms(3) by (simp add: range_at_def)

lemma range_at_udp:
  "range_at 34 (6 + (2 + (4 + m))) g =
     range_at 34 6 g @ range_at 40 2 g @ range_at 42 4 g @ range_at 46 m g"
  by (simp only: range_at_split append_assoc) simp

lemma forwarded_udp_total:
  assumes len: "46 \<le> length f" and gw: "length gateway = 6" and ihl: "ihl f = 5"
    and udp: "12 \<le> udp_length f"
  shows "udp_length (forward_frame gateway f) = udp_length f"
    and "inet_total (udp_sum_words (forward_frame gateway f)) = inet_total (udp_sum_words f)"
proof -
  let ?f = "forward_frame gateway f" and ?n = "udp_length f"
  note fr = forward_ranges [OF len gw]
  have r38: "range_at 38 2 ?f = range_at 38 2 f"
    by (simp add: range_at_sub [of 34 38 2 6] fr)
  then show n: "udp_length ?f = ?n"
    using len gw by (simp add: udp_length_def forward_front_bytes ihl)
  have split: "range_at 34 ?n g = range_at 34 6 g @ range_at 40 2 g @ range_at 42 4 g @
      take (?n - 12) (drop 46 g)" for g :: bytes
  proof -
    have "6 + (2 + (4 + (?n - 12))) = ?n" using udp by simp
    then show ?thesis using range_at_udp [of "?n - 12" g] by (simp only: range_at_def [of 46])
  qed
  have addrs: "range_at 26 8 g = range_at 26 4 g @ range_at 30 4 g" for g :: bytes
    using range_at_split [of 26 4 4 g] by simp
  show "inet_total (udp_sum_words ?f) = inet_total (udp_sum_words f)"
    using len gw
    by (simp add: udp_sum_words_def n forward_front_bytes ihl addrs split r38 fr)
qed

lemma forwarded_udp_valid:
  assumes "46 \<le> length f" and "length gateway = 6" and "ihl f = 5" and "12 \<le> udp_length f"
  shows "udp_datagram_valid (forward_frame gateway f) = udp_datagram_valid f"
  using assms inet_valid_perm [OF forwarded_udp_total(2) [OF assms]]
  by (simp add: udp_datagram_valid_def forwarded_udp_total forward_front_bytes
      forward_ranges length_forward_frame)





text \<open>What the verdict \<^verbatim>\<open>XDP_TX\<close> says about the packet.\<close>

lemma router_spec_TX:
  "fst (router_spec get f) = XDP_TX \<longleftrightarrow>
     46 \<le> length f \<and> range_at 12 2 f = [0x08, 0x00] \<and> range_at 23 1 f = [17] \<and>
     \<not> exempt get (source_addr f)"
  by (auto simp: router_spec_def)

lemma udp_router_TX:
  assumes "wire_format N" and "ctx_ok s" and "udp_router N e get s = (Inr XDP_TX, s')"
  shows "46 \<le> length (pkt s)"
    and "pkt s' = forward_frame (get_gateway_mac_address get) (pkt s)"
proof -
  from assms have tx: "fst (router_spec get (pkt s)) = XDP_TX"
    and s': "s' = s\<lparr>pkt := snd (router_spec get (pkt s))\<rparr>"
    by (simp_all add: udp_router_run)
  from tx show "46 \<le> length (pkt s)" by (simp only: router_spec_TX)
  from tx have "router_spec get (pkt s) =
      (XDP_TX, forward_frame (get_gateway_mac_address get) (pkt s))"
    by (auto simp: router_spec_def split: if_splits)
  then show "pkt s' = forward_frame (get_gateway_mac_address get) (pkt s)"
    by (simp add: s')
qed

text \<open>
  A packet whose verdict is not \<^verbatim>\<open>XDP_TX\<close> leaves the program exactly as it came.
\<close>

theorem udp_router_untouched:
  assumes "wire_format N" and "ctx_ok s" and "udp_router N e get s = (Inr a, s')"
    and "a \<noteq> XDP_TX"
  shows "s' = s"
  using assms by (auto simp: udp_router_run router_spec_def split: if_splits)

theorem udp_router_untouched_witness:
  "udp_router rfc_headers Little sample_get (sample_ctx [1, 2, 3]) = (Inr XDP_ABORTED, sample_ctx [1, 2, 3])"
proof -
  obtain a s' where r: "udp_router rfc_headers Little sample_get (sample_ctx [1, 2, 3]) = (Inr a, s')"
    and a: "a = XDP_ABORTED"
    by (simp add: udp_router_run router_spec_def)
  have "s' = sample_ctx [1, 2, 3]"
    by (rule udp_router_untouched [OF _ _ r]) (simp_all add: a)
  with r a show ?thesis by simp
qed

text \<open>
  As long as the local network has not been configured (its map entry is 0), nothing is
  forwarded and nothing is rewritten.
\<close>

theorem unconfigured_never_forwards:
  assumes "wire_format N" and "ctx_ok s" and "read_map get LOCAL_NET_AND_MASK 0 = 0"
  shows "\<exists>a. udp_router N e get s = (Inr a, s) \<and> a \<noteq> XDP_TX"
proof -
  have "exempt get ip" for ip
    using assms(3) by (simp add: exempt_def is_from_local_network_def net_part_def mask_part_def)
  then have "fst (router_spec get (pkt s)) \<noteq> XDP_TX" and "snd (router_spec get (pkt s)) = pkt s"
    by (auto simp: router_spec_def)
  then show ?thesis using assms by (simp add: udp_router_run)
qed

theorem unconfigured_never_forwards_witness:
  "\<exists>a. udp_router rfc_headers Little (declared_get (initial_maps 4)) (sample_ctx sample_frame) =
         (Inr a, sample_ctx sample_frame) \<and> a \<noteq> XDP_TX"
  by (rule unconfigured_never_forwards)
    (simp_all add: read_map_def declared_get_def initial_maps_def)

text \<open>
  C9: after forwarding, the IPv4 header of a packet without options is accepted by the
  receiver's header check, whatever its checksum was before.
\<close>

theorem forwarded_ip_checksum_valid:
  assumes "wire_format N" and "ctx_ok s" and "udp_router N e get s = (Inr XDP_TX, s')"
    and "ihl (pkt s) = 5"
  shows "ip_header_valid (pkt s')"
  using udp_router_TX [OF assms(1-3)] assms(4) by (simp add: forwarded_ip_header_valid)

text \<open>A run of the router on the sample packets.\<close>

definition sample_forwarded :: "bytes \<Rightarrow> xdp_ctx" where
  "sample_forwarded f = sample_ctx (forward_frame (get_gateway_mac_address sample_get) f)"

lemmas sample_eval = exempt_def source_addr_def link_local_def is_from_local_network_def
  net_part_def mask_part_def read_map_def sample_get_def range_at_def from_be_bytes_def Let_def

lemma sample_not_exempt:
  "fst (router_spec sample_get sample_frame) = XDP_TX"
  "fst (router_spec sample_get sample_options_frame) = XDP_TX"
  "fst (router_spec sample_get sample_empty_frame) = XDP_TX"
  by (simp_all add: router_spec_TX)
    (simp_all add: sample_eval sample_frame_def sample_options_frame_def sample_empty_frame_def)

lemma sample_run:
  assumes "fst (router_spec sample_get f) = XDP_TX" and "length f < 1000"
  shows "udp_router rfc_headers e sample_get (sample_ctx f) = (Inr XDP_TX, sample_forwarded f)"
proof -
  have "46 \<le> length f" using assms by (simp only: router_spec_TX)
  then have "(sample_ctx f)\<lparr>pkt := snd (router_spec sample_get f)\<rparr> = sample_forwarded f"
    using assms by (auto simp: sample_forwarded_def sample_ctx_def router_spec_def split: if_splits)
  then show ?thesis using assms by (simp add: udp_router_run)
qed

theorem forwarded_ip_checksum_valid_witness:
  "ip_header_valid (pkt (sample_forwarded sample_frame))"
proof -
  have "udp_router rfc_headers Little sample_get (sample_ctx sample_frame) =
      (Inr XDP_TX, sample_forwarded sample_frame)"
    by (rule sample_run) (simp_all add: sample_not_exempt)
  from forwarded_ip_checksum_valid [OF wire_format_rfc sample_ctx_ok this]
  show ?thesis by (simp add: ihl_def sample_frame_def)
qed

text \<open>
  C10: forwarding neither repairs nor breaks the UDP checksum: for a packet without IP options
  whose datagram holds the four address bytes, the receiver accepts it after forwarding exactly
  when it accepted it before, also when the checksum is absent (0).
\<close>

theorem forwarded_udp_checksum:
  assumes "wire_format N" and "ctx_ok s" and "udp_router N e get s = (Inr XDP_TX, s')"
    and "ihl (pkt s) = 5" and "12 \<le> udp_length (pkt s)"
  shows "udp_datagram_valid (pkt s') = udp_datagram_valid (pkt s)"
  using udp_router_TX [OF assms(1-3)] assms(4,5) by (simp add: forwarded_udp_valid)

theorem forwarded_udp_checksum_witness:
  "udp_datagram_valid (pkt (sample_forwarded sample_frame)) = udp_datagram_valid sample_frame"
proof -
  have "udp_router rfc_headers Big sample_get (sample_ctx sample_frame) =
      (Inr XDP_TX, sample_forwarded sample_frame)"
    by (rule sample_run) (simp_all add: sample_not_exempt)
  from forwarded_udp_checksum [OF wire_format_rfc sample_ctx_ok this]
  show ?thesis
    by (simp add: ihl_def udp_length_def range_at_def from_be_bytes_def sample_frame_def)
qed

text \<open>
  C38: the router takes the bytes after the first 20 of the IPv4 header for the UDP header
  without reading the header length, and leaves them out of the new header checksum: the header
  of a forwarded packet with options is accepted exactly if the sum of its option words is zero
  in ones' complement. A packet with other options is corrupted.
\<close>

theorem ip_options_corrupted:
  assumes "wire_format N" and "ctx_ok s" and "udp_router N e get s = (Inr XDP_TX, s')"
    and "5 < ihl (pkt s)"
  shows "ip_header_valid (pkt s') \<longleftrightarrow>
     65535 dvd inet_total (be16s (range_at 34 (4 * (ihl (pkt s) - 5)) (pkt s')))"
  using udp_router_TX [OF assms(1-3)] assms(4) by (simp add: forwarded_ip_header_options)

text \<open>A valid packet that becomes invalid: its option is four no-operations.\<close>

theorem ip_options_corrupted_witness:
  "ip_header_valid sample_options_frame \<and> udp_datagram_valid sample_options_frame \<and>
   \<not> ip_header_valid (pkt (sample_forwarded sample_options_frame))"
proof (intro conjI)
  show "ip_header_valid sample_options_frame" and "udp_datagram_valid sample_options_frame"
    by (simp_all add: ip_header_valid_def udp_datagram_valid_def udp_length_def udp_sum_words_def
        ihl_def sample_options_frame_def range_at_def from_be_bytes_def inet_valid_iff)
  have run: "udp_router rfc_headers Little sample_get (sample_ctx sample_options_frame) =
      (Inr XDP_TX, sample_forwarded sample_options_frame)"
    by (rule sample_run) (simp_all add: sample_not_exempt)
  have ihl: "ihl sample_options_frame = 6" by (simp add: ihl_def sample_options_frame_def)
  have "range_at 34 4 (pkt (sample_forwarded sample_options_frame)) = range_at 34 4 sample_options_frame"
    by (simp add: sample_forwarded_def range_at_sub [of 34 34 4 6] forward_ranges)
  also have "\<dots> = [1, 1, 1, 1]" by (simp add: sample_options_frame_def range_at_def)
  finally show "\<not> ip_header_valid (pkt (sample_forwarded sample_options_frame))"
    using ip_options_corrupted [OF wire_format_rfc sample_ctx_ok run]
    by (simp add: ihl from_be_bytes_def)
qed



section \<open>The return path\<close>

text \<open>
  What a server's answer looks like on the wire: an IPv4 and UDP packet as long as the headers
  and the four address bytes, the addresses swapped, the payload echoed.
\<close>

definition echo_reply :: "bytes \<Rightarrow> bytes \<Rightarrow> bool" where
  "echo_reply f g \<longleftrightarrow> 46 \<le> length g \<and> range_at 12 2 g = [0x08, 0x00] \<and> range_at 23 1 g = [17] \<and>
     range_at 26 4 g = range_at 30 4 f \<and> range_at 30 4 g = range_at 26 4 f \<and>
     range_at 42 4 g = range_at 42 4 f"

text \<open>
  C17: the router keeps no state, and still a reply finds its way: if a server that is neither
  link-local nor in the local network echoes a packet that was forwarded to it, the router
  forwards the reply to the sender of the first packet, from the address that packet was sent
  to, with the server's address back in the payload and the gateway's MAC address.
\<close>

theorem reply_returns_to_sender:
  assumes "wire_format N" and "ctx_ok s" and "ctx_ok t"
    and "udp_router N e get s = (Inr XDP_TX, s')" and "echo_reply (pkt s') (pkt t)"
    and "\<not> is_link_local_ip (from_be_bytes (range_at 42 4 (pkt s)))"
    and "\<not> is_from_local_network get (from_be_bytes (range_at 42 4 (pkt s)))"
  shows "\<exists>t'. udp_router N e get t = (Inr XDP_TX, t') \<and>
     range_at 30 4 (pkt t') = range_at 26 4 (pkt s) \<and>
     range_at 26 4 (pkt t') = range_at 30 4 (pkt s) \<and>
     range_at 42 4 (pkt t') = range_at 42 4 (pkt s) \<and>
     range_at 0 6 (pkt t') = get_gateway_mac_address get"
proof -
  note s' = udp_router_TX [OF assms(1,2,4)]
  have src: "range_at 26 4 (pkt t) = range_at 42 4 (pkt s)"
    using assms(5) s' by (simp add: echo_reply_def forward_ranges)
  then have "fst (router_spec get (pkt t)) = XDP_TX"
    using assms(5-7)
    by (simp add: router_spec_TX echo_reply_def exempt_def source_addr_def is_link_local_ip_iff)
  then obtain t' where t: "udp_router N e get t = (Inr XDP_TX, t')"
    by (simp add: udp_router_run [OF assms(1,3)])
  with udp_router_TX [OF assms(1,3) t] s' assms(5) show ?thesis
    by (simp add: echo_reply_def forward_ranges)
qed

definition sample_reply_frame :: bytes where
  "sample_reply_frame = [2, 0, 0, 0, 0, 2, 2, 0, 0, 0, 0, 9, 8, 0,
     69, 0, 0, 32, 18, 52, 64, 0, 64, 17, 0, 0, 10, 0, 3, 10, 10, 0, 2, 10,
     34, 184, 156, 64, 0, 12, 0, 0, 198, 51, 100, 7]"

theorem reply_returns_to_sender_witness:
  "\<exists>t'. udp_router rfc_headers Little sample_get (sample_ctx sample_reply_frame) = (Inr XDP_TX, t') \<and>
     range_at 30 4 (pkt t') = [198, 51, 100, 7]"
proof -
  have s: "udp_router rfc_headers Little sample_get (sample_ctx sample_frame) =
      (Inr XDP_TX, sample_forwarded sample_frame)"
    by (rule sample_run) (simp_all add: sample_not_exempt)
  have "ctx_ok (sample_ctx sample_frame)" "ctx_ok (sample_ctx sample_reply_frame)"
    by (simp_all add: sample_reply_frame_def)
  moreover have "echo_reply (pkt (sample_forwarded sample_frame)) (pkt (sample_ctx sample_reply_frame))"
    by (simp add: echo_reply_def sample_forwarded_def forward_ranges)
      (simp add: sample_frame_def sample_reply_frame_def range_at_def)
  moreover have "\<not> is_link_local_ip (from_be_bytes (range_at 42 4 (pkt (sample_ctx sample_frame))))"
    "\<not> is_from_local_network sample_get (from_be_bytes (range_at 42 4 (pkt (sample_ctx sample_frame))))"
    by (simp_all add: is_link_local_ip_iff sample_eval sample_frame_def)
  moreover have "range_at 26 4 (pkt (sample_ctx sample_frame)) = [198, 51, 100, 7]"
    by (simp add: sample_frame_def range_at_def)
  ultimately show ?thesis
    using reply_returns_to_sender [OF wire_format_rfc _ _ s, of "sample_ctx sample_reply_frame"] by auto
qed

end
