(* ===== verification/Bpf_Actor.thy ===== *)
theory Bpf_Actor
  imports Xdp "HOL-Library.Multiset"
begin

text \<open>
  The userland actor \<^verbatim>\<open>udp-router/src/bpf_actor.rs\<close>: the command line options it reads, the
  choice of the XDP attach mode, the messages and their handling, and the statistics. The maps
  are reached through the record \<open>bpf_api\<close> of theory Bpf_Maps.
\<close>

section \<open>Options and attach modes\<close>

record opt =
  iface :: string
  bpf_prog :: string
  bind_address :: string
  port :: u32
  force_skb_mode :: bool
  force_hw_mode :: bool
  force_drv_mode :: bool
  allow_skb_mode :: bool

datatype xdp_mode = HW_MODE | DRV_MODE | SKB_MODE

text \<open>Modes are ordered by preference, the preferred one first.\<close>

instantiation xdp_mode :: linorder
begin

definition mode_rank :: "xdp_mode \<Rightarrow> nat" where
  "mode_rank m = (case m of HW_MODE \<Rightarrow> 0 | DRV_MODE \<Rightarrow> 1 | SKB_MODE \<Rightarrow> 2)"

definition less_eq_xdp_mode :: "xdp_mode \<Rightarrow> xdp_mode \<Rightarrow> bool" where
  "less_eq_xdp_mode a b = (mode_rank a \<le> mode_rank b)"

definition less_xdp_mode :: "xdp_mode \<Rightarrow> xdp_mode \<Rightarrow> bool" where
  "less_xdp_mode a b = (mode_rank a < mode_rank b)"

instance
  by standard (auto simp: less_eq_xdp_mode_def less_xdp_mode_def mode_rank_def split: xdp_mode.splits)

end

lemma mode_order [simp]:
  "HW_MODE \<le> m" "DRV_MODE \<le> SKB_MODE" "\<not> DRV_MODE \<le> HW_MODE" "\<not> SKB_MODE \<le> HW_MODE"
  "\<not> SKB_MODE \<le> DRV_MODE"
  by (cases m; simp add: less_eq_xdp_mode_def mode_rank_def)+

text \<open>
  The attach part of \<^verbatim>\<open>run_actor\<close>. \<open>attach\<close> is aya's \<^verbatim>\<open>program.attach(&opt.iface, flags).is_ok()\<close>;
  the second component of the result is the modes tried, in order.
\<close>

definition attach_program ::
    "opt \<Rightarrow> (string \<Rightarrow> xdp_mode \<Rightarrow> bool) \<Rightarrow> (panic + xdp_mode) \<times> xdp_mode list" where
  "attach_program opt attach =
     (if force_skb_mode opt then
        (if attach (iface opt) SKB_MODE then Inr SKB_MODE else Inl Expect, [SKB_MODE])
      else if force_hw_mode opt then
        (if attach (iface opt) HW_MODE then Inr HW_MODE else Inl Expect, [HW_MODE])
      else if force_drv_mode opt then
        (if attach (iface opt) DRV_MODE then Inr DRV_MODE else Inl Expect, [DRV_MODE])
      else if attach (iface opt) HW_MODE then (Inr HW_MODE, [HW_MODE])
      else if attach (iface opt) DRV_MODE then (Inr DRV_MODE, [HW_MODE, DRV_MODE])
      else if \<not> allow_skb_mode opt then (Inl Explicit, [HW_MODE, DRV_MODE])
      else if attach (iface opt) SKB_MODE then (Inr SKB_MODE, [HW_MODE, DRV_MODE, SKB_MODE])
      else (Inl Explicit, [HW_MODE, DRV_MODE, SKB_MODE]))"

section \<open>Messages and their handling\<close>

record router_statistics =
  total_packets :: u64
  client_to_server_packets :: u64
  server_to_client_packets :: u64

text \<open>The argument of \<open>GetStats\<close> names the one-shot channel \<^verbatim>\<open>respond_to\<close>.\<close>

datatype bpf_actor_message =
    GetStats nat
  | SetLocalNetAndMask u32 u32
  | SetBackendNetAndMask u32 u32
  | SetGatewayMacAddress u64

fun sum_values :: "profile \<Rightarrow> u64 \<Rightarrow> u64 list \<Rightarrow> panic + u64" where
  "sum_values p tmp [] = Inr tmp"
| "sum_values p tmp (cpu_val # values) =
     and_then (add_checked p tmp cpu_val) (\<lambda>tmp. sum_values p tmp values)"

definition read_metric :: "profile \<Rightarrow> 'k bpf_api \<Rightarrow> 'k \<Rightarrow> percpu_map \<Rightarrow> panic + u64" where
  "read_metric p K k var =
     (case percpu_get K k var 0 of None \<Rightarrow> Inl Expect | Some values \<Rightarrow> sum_values p 0 values)"

definition write_map :: "'k bpf_api \<Rightarrow> 'k \<Rightarrow> bpf_map \<Rightarrow> u32 \<Rightarrow> u64 \<Rightarrow> panic + 'k" where
  "write_map K k var index value = unwrap (array_set K k var index value)"

definition get_stats :: "profile \<Rightarrow> 'k bpf_api \<Rightarrow> 'k \<Rightarrow> panic + router_statistics" where
  "get_stats p K k =
     and_then (read_metric p K k TOTAL_PACKETS) (\<lambda>total.
     and_then (read_metric p K k CLIENT_TO_SERVER_PACKETS) (\<lambda>client_to_server.
     and_then (read_metric p K k SERVER_TO_CLIENT_PACKETS) (\<lambda>server_to_client.
     Inr \<lparr>total_packets = total, client_to_server_packets = client_to_server,
          server_to_client_packets = server_to_client\<rparr>)))"

definition pack_net_mask :: "u32 \<Rightarrow> u32 \<Rightarrow> u64" where
  "pack_net_mask net netmask = push_bit 32 (ucast net) OR ucast netmask"

definition set_local_net_mask :: "'k bpf_api \<Rightarrow> 'k \<Rightarrow> u32 \<Rightarrow> u32 \<Rightarrow> panic + 'k" where
  "set_local_net_mask K k net netmask =
     (let net_and_mask = pack_net_mask net netmask in write_map K k LOCAL_NET_AND_MASK 0 net_and_mask)"

definition set_backend_net_mask :: "'k bpf_api \<Rightarrow> 'k \<Rightarrow> u32 \<Rightarrow> u32 \<Rightarrow> panic + 'k" where
  "set_backend_net_mask K k net netmask =
     (let net_and_mask = pack_net_mask net netmask in write_map K k BACKEND_NET_AND_MASK 0 net_and_mask)"

definition set_gateway_mac_address :: "'k bpf_api \<Rightarrow> 'k \<Rightarrow> u64 \<Rightarrow> panic + 'k" where
  "set_gateway_mac_address K k mac = write_map K k GATEWAY_MAC_ADDRESS 0 mac"

text \<open>
  The new state of the maps and the response sent, if any. Whether the one-shot receiver still
  exists does not matter: the result of its \<^verbatim>\<open>send\<close> is dropped.
\<close>

fun handle_message :: "profile \<Rightarrow> 'k bpf_api \<Rightarrow> 'k \<Rightarrow> bpf_actor_message \<Rightarrow>
    panic + ('k \<times> (nat \<times> router_statistics) list)" where
  "handle_message p K k (GetStats respond_to) =
     and_then (get_stats p K k) (\<lambda>stats. Inr (k, [(respond_to, stats)]))"
| "handle_message p K k (SetLocalNetAndMask net netmask) =
     and_then (set_local_net_mask K k net netmask) (\<lambda>k. Inr (k, []))"
| "handle_message p K k (SetBackendNetAndMask net netmask) =
     and_then (set_backend_net_mask K k net netmask) (\<lambda>k. Inr (k, []))"
| "handle_message p K k (SetGatewayMacAddress mac) =
     and_then (set_gateway_mac_address K k mac) (\<lambda>k. Inr (k, []))"

text \<open>The receive loop of \<^verbatim>\<open>run_actor\<close> on the messages it receives until the channel closes.\<close>

fun message_loop :: "profile \<Rightarrow> 'k bpf_api \<Rightarrow> 'k \<Rightarrow> bpf_actor_message list \<Rightarrow>
    panic + ('k \<times> (nat \<times> router_statistics) list)" where
  "message_loop p K k [] = Inr (k, [])"
| "message_loop p K k (msg # msgs) =
     and_then (handle_message p K k msg) (\<lambda>(k, out).
     and_then (message_loop p K k msgs) (\<lambda>(k, outs). Inr (k, out @ outs)))"


section \<open>The network entry, as written and as read\<close>

text \<open>
  The actor packs a network and its mask into one map entry, the XDP program takes the halves
  apart. The interface is what the filter relies on.
\<close>

locale net_entry =
  fixes pack :: "u32 \<Rightarrow> u32 \<Rightarrow> u64"
    and net_of :: "u64 \<Rightarrow> u32"
    and mask_of :: "u64 \<Rightarrow> u32"
  assumes net_of_pack: "net_of (pack n m) = n"
    and mask_of_pack: "mask_of (pack n m) = m"
begin

lemma filter_pack: "ip AND mask_of (pack n m) = net_of (pack n m) \<longleftrightarrow> ip AND m = n"
  by (simp add: net_of_pack mask_of_pack)

lemma pack_inject: "pack n m = pack n' m' \<longleftrightarrow> n = n' \<and> m = m'"
  by (metis net_of_pack mask_of_pack)

text \<open>A network with bits outside its mask matches no address.\<close>

lemma host_bits_match_nothing:
  assumes "n AND NOT m \<noteq> 0"
  shows "ip AND mask_of (pack n m) \<noteq> net_of (pack n m)"
proof
  assume "ip AND mask_of (pack n m) = net_of (pack n m)"
  then have "n = ip AND m" by (simp add: filter_pack)
  then have "n AND NOT m = 0" by (simp add: and.assoc)
  with assms show False by simp
qed

end

interpretation entry: net_entry pack_net_mask net_part mask_part
proof unfold_locales
  fix n m :: u32
  show "net_part (pack_net_mask n m) = n"
    by (rule bit_word_eqI) (auto simp: net_part_def pack_net_mask_def bit_simps)
  show "mask_part (pack_net_mask n m) = m"
  proof (rule bit_word_eqI)
    fix i :: nat
    assume i: "i < LENGTH(32)"
    have "mask_part (pack_net_mask n m) = ucast (pack_net_mask n m AND mask 32)"
      by (simp add: mask_part_def mask_eq_exp_minus_1)
    with i show "bit (mask_part (pack_net_mask n m)) i = bit m i"
      by (auto simp: pack_net_mask_def bit_simps)
  qed
qed

section \<open>The actor refines a record of settings\<close>

text \<open>
  The contract of the actor: three settings, each replaced by the messages that set it.
\<close>

record settings =
  local_net :: "u32 \<times> u32"
  backend_net :: "u32 \<times> u32"
  gateway_mac :: u64

definition settings_of :: "(bpf_map \<Rightarrow> u32 \<Rightarrow> u64 option) \<Rightarrow> settings" where
  "settings_of get =
     (let l = read_map get LOCAL_NET_AND_MASK 0; b = read_map get BACKEND_NET_AND_MASK 0
      in \<lparr>local_net = (net_part l, mask_part l), backend_net = (net_part b, mask_part b),
          gateway_mac = read_map get GATEWAY_MAC_ADDRESS 0\<rparr>)"

fun apply_message :: "bpf_actor_message \<Rightarrow> settings \<Rightarrow> settings" where
  "apply_message (GetStats _) c = c"
| "apply_message (SetLocalNetAndMask n m) c = c\<lparr>local_net := (n, m)\<rparr>"
| "apply_message (SetBackendNetAndMask n m) c = c\<lparr>backend_net := (n, m)\<rparr>"
| "apply_message (SetGatewayMacAddress a) c = c\<lparr>gateway_mac := a\<rparr>"

fun stats_requests :: "bpf_actor_message list \<Rightarrow> nat list" where
  "stats_requests [] = []"
| "stats_requests (GetStats r # msgs) = r # stats_requests msgs"
| "stats_requests (_ # msgs) = stats_requests msgs"

lemma sum_values_release: "sum_values Release tmp vs = Inr (tmp + sum_list vs)"
  by (induction vs arbitrary: tmp) (simp_all add: add_checked_def add.assoc)

context array_maps begin

lemma write_map_ok:
  assumes "ok k"
  obtains k' where "write_map K k m 0 v = Inr k'" and "ok k'"
    and "\<And>m'. read_map (array_get K k') m' 0 = (if m' = m then v else read_map (array_get K k) m' 0)"
    and "\<And>c. percpu_get K k' c 0 = percpu_get K k c 0"
proof -
  obtain k' where k': "array_set K k m 0 v = Some k'" using set_ok [OF assms] by auto
  show ?thesis
    by (rule that [of k'])
      (simp_all add: write_map_def k' set_keeps [OF assms k'] read_set [OF assms k']
        percpu_set [OF assms k'])
qed

lemma get_stats_release: "ok k \<Longrightarrow> \<exists>st. get_stats Release K k = Inr st"
  using percpu_ok [of k TOTAL_PACKETS] percpu_ok [of k CLIENT_TO_SERVER_PACKETS]
    percpu_ok [of k SERVER_TO_CLIENT_PACKETS]
  by (auto simp: get_stats_def read_metric_def sum_values_release)

lemma get_stats_cong:
  "(\<And>c. percpu_get K k' c 0 = percpu_get K k c 0) \<Longrightarrow> get_stats p K k' = get_stats p K k"
  by (simp add: get_stats_def read_metric_def)

text \<open>One message in the release profile: no panic, and the settings move as they should.\<close>

lemma handle_message_step:
  assumes "ok k"
  obtains k' out where "handle_message Release K k msg = Inr (k', out)" and "ok k'"
    and "settings_of (array_get K k') = apply_message msg (settings_of (array_get K k))"
    and "get_stats Release K k' = get_stats Release K k"
    and "map (\<lambda>r. Inr (snd r)) out = map (\<lambda>_. get_stats Release K k) (stats_requests [msg])"
    and "map fst out = stats_requests [msg]"
proof (cases msg)
  case (GetStats r)
  obtain st where "get_stats Release K k = Inr st" using get_stats_release [OF assms] by auto
  with GetStats assms show ?thesis by (intro that [of k "[(r, st)]"]) simp_all
next
  case (SetLocalNetAndMask n m)
  obtain k' where k': "write_map K k LOCAL_NET_AND_MASK 0 (pack_net_mask n m) = Inr k'" "ok k'"
    "\<And>m'. read_map (array_get K k') m' 0 = (if m' = LOCAL_NET_AND_MASK then pack_net_mask n m
       else read_map (array_get K k) m' 0)"
    "\<And>c. percpu_get K k' c 0 = percpu_get K k c 0"
    using write_map_ok [OF assms] by metis
  then show ?thesis
    using SetLocalNetAndMask get_stats_cong [OF k'(4)]
    by (intro that [of k' "[]"])
      (simp_all add: set_local_net_mask_def settings_of_def Let_def entry.net_of_pack entry.mask_of_pack)
next
  case (SetBackendNetAndMask n m)
  obtain k' where k': "write_map K k BACKEND_NET_AND_MASK 0 (pack_net_mask n m) = Inr k'" "ok k'"
    "\<And>m'. read_map (array_get K k') m' 0 = (if m' = BACKEND_NET_AND_MASK then pack_net_mask n m
       else read_map (array_get K k) m' 0)"
    "\<And>c. percpu_get K k' c 0 = percpu_get K k c 0"
    using write_map_ok [OF assms] by metis
  then show ?thesis
    using SetBackendNetAndMask get_stats_cong [OF k'(4)]
    by (intro that [of k' "[]"])
      (simp_all add: set_backend_net_mask_def settings_of_def Let_def entry.net_of_pack entry.mask_of_pack)
next
  case (SetGatewayMacAddress a)
  obtain k' where k': "write_map K k GATEWAY_MAC_ADDRESS 0 a = Inr k'" "ok k'"
    "\<And>m'. read_map (array_get K k') m' 0 = (if m' = GATEWAY_MAC_ADDRESS then a
       else read_map (array_get K k) m' 0)"
    "\<And>c. percpu_get K k' c 0 = percpu_get K k c 0"
    using write_map_ok [OF assms] by metis
  then show ?thesis
    using SetGatewayMacAddress get_stats_cong [OF k'(4)]
    by (intro that [of k' "[]"]) (simp_all add: set_gateway_mac_address_def settings_of_def Let_def)
qed

text \<open>The whole loop: it never panics, answers every request in order, and ends in the settings.\<close>

lemma message_loop_run:
  assumes "ok k"
  shows "\<exists>k' outs. message_loop Release K k msgs = Inr (k', outs) \<and> ok k' \<and>
     settings_of (array_get K k') = fold apply_message msgs (settings_of (array_get K k)) \<and>
     map fst outs = stats_requests msgs \<and>
     map (\<lambda>r. Inr (snd r)) outs = map (\<lambda>_. get_stats Release K k) (stats_requests msgs)"
  using assms
proof (induction msgs arbitrary: k)
  case (Cons msg msgs)
  obtain k' out where step: "handle_message Release K k msg = Inr (k', out)" "ok k'"
    "settings_of (array_get K k') = apply_message msg (settings_of (array_get K k))"
    "get_stats Release K k' = get_stats Release K k"
    "map (\<lambda>r. Inr (snd r)) out = map (\<lambda>_. get_stats Release K k) (stats_requests [msg])"
    "map fst out = stats_requests [msg]"
    using Cons.prems by (rule handle_message_step)
  obtain k'' outs where rest: "message_loop Release K k' msgs = Inr (k'', outs)" "ok k''"
    "settings_of (array_get K k'') = fold apply_message msgs (settings_of (array_get K k'))"
    "map fst outs = stats_requests msgs"
    "map (\<lambda>r. Inr (snd r)) outs = map (\<lambda>_. get_stats Release K k') (stats_requests msgs)"
    using Cons.IH [OF step(2)] by blast
  have "stats_requests (msg # msgs) = stats_requests [msg] @ stats_requests msgs"
    by (cases msg) simp_all
  with step rest show ?case by simp
qed simp

end

section \<open>Properties\<close>

text \<open>
  C11: in the release build the actor implements its settings: whatever messages it receives, it
  does not panic, the maps end up holding each setting's last value (and keep the ones no
  message set), and every statistics request is answered, in order.
\<close>

theorem message_loop_refines_settings:
  assumes "array_maps K ok" and "ok k"
  shows "\<exists>k' outs. message_loop Release K k msgs = Inr (k', outs) \<and> ok k' \<and>
     settings_of (array_get K k') = fold apply_message msgs (settings_of (array_get K k)) \<and>
     map fst outs = stats_requests msgs \<and>
     map (\<lambda>r. Inr (snd r)) outs = map (\<lambda>_. get_stats Release K k) (stats_requests msgs)"
  using assms by (rule array_maps.message_loop_run)

theorem message_loop_refines_settings_witness:
  "\<exists>k' outs. message_loop Release declared_api (initial_maps 2)
       [SetLocalNetAndMask 1 2, GetStats 7, SetLocalNetAndMask 0x0A000200 0xFFFFFF00] = Inr (k', outs) \<and>
     settings_of (array_get declared_api k') =
       \<lparr>local_net = (0x0A000200, 0xFFFFFF00), backend_net = (0, 0), gateway_mac = 0\<rparr> \<and>
     map fst outs = [7]"
proof -
  let ?msgs = "[SetLocalNetAndMask 1 2, GetStats 7, SetLocalNetAndMask 0x0A000200 0xFFFFFF00]"
  have "settings_of (array_get declared_api (initial_maps 2)) =
      \<lparr>local_net = (0, 0), backend_net = (0, 0), gateway_mac = 0\<rparr>"
    by (simp add: settings_of_def read_map_def declared_api_def declared_get_def initial_maps_def
        net_part_def mask_part_def Let_def)
  then show ?thesis
    using message_loop_refines_settings
      [OF declared.array_maps_axioms one_entry_initial, of 2 ?msgs]
    by auto
qed

text \<open>
  C33: a metric is the sum of its per-CPU values: exact modulo 2^64 in the release build, while
  the debug build panics exactly when the exact sum does not fit in 64 bits.
\<close>

theorem read_metric_sum:
  assumes "percpu_get K k var 0 = Some vs"
  shows "read_metric Release K k var = Inr (sum_list vs) \<and>
     read_metric Debug K k var =
       (if sum_list (map unat vs) < 2 ^ 64 then Inr (sum_list vs) else Inl Overflow)"
proof -
  have "sum_values Debug tmp vs =
      (if unat tmp + sum_list (map unat vs) < 2 ^ 64 then Inr (tmp + sum_list vs)
       else Inl Overflow)" for tmp :: u64
  proof (induction vs arbitrary: tmp)
    case Nil
    then show ?case using unsigned_less [of tmp, where ?'a = nat] by simp
  next
    case (Cons v vs)
    then show ?case by (auto simp: add_checked_def unat_word_ariths add.assoc)
  qed
  then show ?thesis using assms by (simp add: read_metric_def sum_values_release)
qed

theorem read_metric_sum_witness:
  "read_metric Debug declared_api ((initial_maps 2)\<lparr>percpus := (\<lambda>_. [[3, 4]])\<rparr>) TOTAL_PACKETS = Inr 7"
proof -
  let ?k = "(initial_maps 2)\<lparr>percpus := (\<lambda>_. [[3, 4]])\<rparr>"
  have "percpu_get declared_api ?k TOTAL_PACKETS 0 = Some [3, 4]"
    by (simp add: declared_api_def declared_percpu_def)
  from read_metric_sum [OF this] show ?thesis by simp
qed

text \<open>
  C32: without a force flag, the mode the program runs in is the most preferred one
  (hardware, driver, generic) that attaches, generic mode being admissible only with
  \<^verbatim>\<open>--allow-skb-mode\<close>; if none attaches the actor panics.
\<close>

theorem attach_program_preferred:
  assumes "\<not> force_skb_mode opt" and "\<not> force_hw_mode opt" and "\<not> force_drv_mode opt"
  shows "fst (attach_program opt attach) =
     (let usable = {m. attach (iface opt) m \<and> (m = SKB_MODE \<longrightarrow> allow_skb_mode opt)}
      in if usable = {} then Inl Explicit else Inr (Min usable))"
proof -
  let ?u = "{m. attach (iface opt) m \<and> (m = SKB_MODE \<longrightarrow> allow_skb_mode opt)}"
  have fin: "finite ?u"
    by (rule finite_subset [of _ "{HW_MODE, DRV_MODE, SKB_MODE}"]) (auto intro: xdp_mode.exhaust)
  have min: "Min ?u = m" if "m \<in> ?u" "\<And>x. x \<in> ?u \<Longrightarrow> m \<le> x" for m
    using fin that by (intro Min_eqI) auto
  consider "attach (iface opt) HW_MODE" | "\<not> attach (iface opt) HW_MODE" "attach (iface opt) DRV_MODE"
    | "\<not> attach (iface opt) HW_MODE" "\<not> attach (iface opt) DRV_MODE" "SKB_MODE \<in> ?u"
    | "\<not> attach (iface opt) HW_MODE" "\<not> attach (iface opt) DRV_MODE" "SKB_MODE \<notin> ?u"
    by blast
  then show ?thesis
  proof cases
    case 1
    then have u: "HW_MODE \<in> ?u" by simp
    have "HW_MODE \<le> x" if "x \<in> ?u" for x by simp
    with u have "Min ?u = HW_MODE" by (rule min)
    with u 1 assms show ?thesis by (auto simp: attach_program_def Let_def)
  next
    case 2
    then have u: "DRV_MODE \<in> ?u" by simp
    have "DRV_MODE \<le> x" if "x \<in> ?u" for x using that 2 by (cases x) auto
    with u have "Min ?u = DRV_MODE" by (rule min)
    with u 2 assms show ?thesis by (auto simp: attach_program_def Let_def)
  next
    case 3
    have "SKB_MODE \<le> x" if "x \<in> ?u" for x using that 3 by (cases x) auto
    with 3(3) have "Min ?u = SKB_MODE" by (rule min)
    with 3 assms show ?thesis by (auto simp: attach_program_def Let_def)
  next
    case 4
    have "?u = {}"
    proof (rule equals0I)
      fix x assume "x \<in> ?u"
      with 4 show False by (cases x) auto
    qed
    with 4 assms show ?thesis by (auto simp: attach_program_def Let_def)
  qed
qed

definition sample_opt :: opt where
  "sample_opt = \<lparr>iface = ''ens5'', bpf_prog = ''udp-router'', bind_address = ''127.0.0.1'',
     port = 8888, force_skb_mode = False, force_hw_mode = False, force_drv_mode = False,
     allow_skb_mode = True\<rparr>"

theorem attach_program_preferred_witness:
  "fst (attach_program sample_opt (\<lambda>_ m. m = SKB_MODE)) = Inr SKB_MODE"
proof -
  have "{m. m = SKB_MODE \<and> (m = SKB_MODE \<longrightarrow> allow_skb_mode sample_opt)} = {SKB_MODE}"
    by (auto simp: sample_opt_def)
  then show ?thesis
    by (subst attach_program_preferred) (simp_all add: sample_opt_def Let_def)
qed

text \<open>
  Generic (SKB) mode is tried only if it is forced or allowed, and last of all; the mode
  the actor reports is one that attached.
\<close>

theorem attach_program_skb_only_if_allowed:
  "(SKB_MODE \<in> set (snd (attach_program opt attach)) \<longrightarrow>
      force_skb_mode opt \<or> allow_skb_mode opt) \<and>
   sorted (snd (attach_program opt attach)) \<and>
   (\<forall>m. fst (attach_program opt attach) = Inr m \<longrightarrow>
      attach (iface opt) m \<and> m = last (snd (attach_program opt attach)))"
  by (auto simp: attach_program_def)

theorem attach_program_skb_only_if_allowed_witness:
  "\<not> force_skb_mode sample_opt \<and> attach_program sample_opt (\<lambda>_ m. m = SKB_MODE) =
     (Inr SKB_MODE, [HW_MODE, DRV_MODE, SKB_MODE]) \<and> allow_skb_mode sample_opt"
  using attach_program_skb_only_if_allowed [of sample_opt "\<lambda>_ m. m = SKB_MODE"]
  by (simp add: attach_program_def sample_opt_def)

end
