(* ===== verification/Router_Settings.thy ===== *)
theory Router_Settings
  imports Forwarding_Props Bpf_Actor
begin

text \<open>
  What the program (\<^verbatim>\<open>udp-router-ebpf/src/main.rs\<close>) does to a frame, in terms of the settings
  that the actor (\<^verbatim>\<open>udp-router/src/bpf_actor.rs\<close>) keeps in the maps: the contract between the
  two.
\<close>

section \<open>The program on the actor's settings\<close>

definition in_network :: "u32 \<times> u32 \<Rightarrow> u32 \<Rightarrow> bool" where
  "in_network net ip \<longleftrightarrow> ip AND snd net = fst net"

definition mac_address_bytes :: "u64 \<Rightarrow> bytes" where
  "mac_address_bytes mac = drop 2 (u64_to_be_bytes mac)"

definition settings_router :: "settings \<Rightarrow> bytes \<Rightarrow> xdp_action \<times> bytes" where
  "settings_router c f =
     (if length f < 14 then (XDP_ABORTED, f)
      else if range_at 12 2 f \<noteq> [0x08, 0x00] then (XDP_PASS, f)
      else if length f < 34 then (XDP_ABORTED, f)
      else if range_at 23 1 f \<noteq> [17] then (XDP_PASS, f)
      else if link_local (source_addr f) \<or> in_network (local_net c) (source_addr f)
      then (XDP_PASS, f)
      else if length f < 46 then (XDP_ABORTED, f)
      else (XDP_TX, forward_frame (mac_address_bytes (gateway_mac c)) f))"

lemma is_from_local_network_settings:
  "is_from_local_network get ip \<longleftrightarrow> in_network (local_net (settings_of get)) ip"
  by (simp add: is_from_local_network_def in_network_def settings_of_def Let_def)

lemma is_from_backend_server_settings:
  "is_from_backend_server get ip \<longleftrightarrow> in_network (backend_net (settings_of get)) ip"
  by (simp add: is_from_backend_server_def in_network_def settings_of_def Let_def)

lemma gateway_settings:
  "get_gateway_mac_address get = mac_address_bytes (gateway_mac (settings_of get))"
  by (simp add: get_gateway_mac_address_def mac_address_bytes_def settings_of_def Let_def
      u64_to_be_bytes_eq)

lemma router_spec_settings: "router_spec get f = settings_router (settings_of get) f"
  by (simp add: router_spec_def settings_router_def exempt_def is_from_local_network_settings
      gateway_settings)

lemma settings_router_TX:
  assumes "settings_router c f = (XDP_TX, f')"
  shows "46 \<le> length f" and "f' = forward_frame (mac_address_bytes (gateway_mac c)) f"
  using assms by (auto simp: settings_router_def split: if_splits)

text \<open>The program implements the contract on any contents of the maps.\<close>

lemma udp_router_settings:
  assumes "wire_format N" and "ctx_ok x"
  shows "udp_router N e get x =
     (Inr (fst (settings_router (settings_of get) (pkt x))),
      x\<lparr>pkt := snd (settings_router (settings_of get) (pkt x))\<rparr>)"
  using assms by (simp add: udp_router_run router_spec_settings)

text \<open>With the network and mask zero every address is local.\<close>

lemma settings_router_inert:
  assumes "local_net c = (0, 0)"
  shows "fst (settings_router c f) \<noteq> XDP_TX" and "snd (settings_router c f) = f"
  using assms by (auto simp: settings_router_def in_network_def)

text \<open>
  The frames that only the local network can exempt: IPv4, UDP, with the four address bytes, and
  not from a link-local address.
\<close>

definition relayed :: "bytes \<Rightarrow> bool" where
  "relayed f \<longleftrightarrow> 46 \<le> length f \<and> range_at 12 2 f = [0x08, 0x00] \<and> range_at 23 1 f = [17] \<and>
     \<not> link_local (source_addr f)"

lemma settings_router_relayed:
  "relayed f \<Longrightarrow> settings_router c f =
     (if in_network (local_net c) (source_addr f) then (XDP_PASS, f)
      else (XDP_TX, forward_frame (mac_address_bytes (gateway_mac c)) f))"
  by (simp add: relayed_def settings_router_def)

lemma settings_router_not_relayed:
  assumes "\<not> relayed f"
  shows "fst (settings_router c f) \<noteq> XDP_TX" and "snd (settings_router c f) = f"
  using assms by (auto simp: relayed_def settings_router_def)

end
