(* ===== verification/Actor_System.thy ===== *)
theory Actor_System
  imports Bpf_Actor
begin

text \<open>
  The actor as a process: the message channel of \<^verbatim>\<open>BpfActorHandle::new\<close>, the operations of the
  handle, and the actor taking messages out of the channel. Any number of tasks send, the actor
  takes and handles one message at a time, and the two interleave freely, also between the
  taking of a message and its handling: the steps are a relation. The
  channel is tokio's bounded mpsc channel, first in first out; its operations, and those of the
  one-shot channel of a statistics request, are an argument of the handle's definitions.
\<close>

section \<open>The process and its steps\<close>

text \<open>
  The messages in the channel; the one that the actor has received, which has left its place in
  the channel, but not yet handled; the maps; and the answers given.
\<close>

record 'k process =
  inbox :: "bpf_actor_message list"
  in_hand :: "bpf_actor_message option"
  maps :: 'k
  answers :: "(nat \<times> router_statistics) list"
  next_channel :: nat

text \<open>The argument of \<^verbatim>\<open>mpsc::channel\<close> in \<^verbatim>\<open>BpfActorHandle::new\<close>.\<close>

definition channel_capacity :: nat where
  "channel_capacity = 8"

definition new_process :: "'k \<Rightarrow> 'k process" where
  "new_process k = \<lparr>inbox = [], in_hand = None, maps = k, answers = [], next_channel = 0\<rparr>"

text \<open>\<^verbatim>\<open>receiver.recv()\<close> on a channel that is not empty, and the body of the loop.\<close>

definition actor_recv :: "'k process \<Rightarrow> 'k process option" where
  "actor_recv s =
     (case inbox s of [] \<Rightarrow> None | msg # msgs \<Rightarrow> Some (s\<lparr>inbox := msgs, in_hand := Some msg\<rparr>))"

definition actor_handle ::
    "profile \<Rightarrow> 'k bpf_api \<Rightarrow> 'k process \<Rightarrow> bpf_actor_message \<Rightarrow> panic + 'k process" where
  "actor_handle p K s msg =
     and_then (handle_message p K (maps s) msg) (\<lambda>(k, out).
     Inr (s\<lparr>in_hand := None, maps := k, answers := answers s @ out\<rparr>))"

text \<open>
  One step of the receive loop: it handles the message it has received, or receives one;
  \<open>None\<close> when it waits on an empty channel.
\<close>

definition actor_turn :: "profile \<Rightarrow> 'k bpf_api \<Rightarrow> 'k process \<Rightarrow> (panic + 'k process) option" where
  "actor_turn p K s =
     (case in_hand s of
        Some msg \<Rightarrow> Some (actor_handle p K s msg)
      | None \<Rightarrow> map_option Inr (actor_recv s))"

text \<open>
  The whole receive loop once every sender is gone: an empty channel then ends it. The recursion
  is not structural; that it ends is a theorem.
\<close>

partial_function (option) actor_loop ::
    "profile \<Rightarrow> 'k bpf_api \<Rightarrow> 'k process \<Rightarrow> (panic + 'k process) option" where
  "actor_loop p K s =
     (case actor_turn p K s of
        None \<Rightarrow> Some (Inr s)
      | Some r \<Rightarrow> (case r of Inl e \<Rightarrow> Some (Inl e) | Inr t \<Rightarrow> actor_loop p K t))"

inductive process_run ::
    "profile \<Rightarrow> 'k bpf_api \<Rightarrow> 'k process \<Rightarrow> bpf_actor_message list \<Rightarrow> 'k process \<Rightarrow> bool"
  for p K where
  stay: "process_run p K s [] s"
| send: "process_run p K s sent t \<Longrightarrow> length (inbox t) < channel_capacity \<Longrightarrow>
     process_run p K s (sent @ [msg]) (t\<lparr>inbox := inbox t @ [msg]\<rparr>)"
| turn: "process_run p K s sent t \<Longrightarrow> actor_turn p K t = Some (Inr u) \<Longrightarrow> process_run p K s sent u"
| channel: "process_run p K s sent t \<Longrightarrow>
     process_run p K s sent (t\<lparr>next_channel := Suc (next_channel t)\<rparr>)"

text \<open>
  The messages that were sent and not yet handled, the steps it takes to handle them, and the
  settings once they are.
\<close>

definition pending :: "'k process \<Rightarrow> bpf_actor_message list" where
  "pending s = (case in_hand s of None \<Rightarrow> [] | Some msg \<Rightarrow> [msg]) @ inbox s"

definition work :: "'k process \<Rightarrow> nat" where
  "work s = length (pending s) + length (inbox s)"

definition eventual :: "'k bpf_api \<Rightarrow> 'k process \<Rightarrow> settings" where
  "eventual K s = fold apply_message (pending s) (settings_of (array_get K (maps s)))"

lemma pending_simps [simp]:
  "pending (s\<lparr>inbox := inbox s @ msgs\<rparr>) = pending s @ msgs"
  "pending (s\<lparr>next_channel := n\<rparr>) = pending s"
  "pending (new_process k) = []"
  by (simp_all add: pending_def new_process_def)

lemma pending_Nil: "pending s = [] \<longleftrightarrow> work s = 0"
  by (simp add: work_def pending_def)

lemma work_inbox: "2 * length (inbox s) \<le> work s" "work s \<le> 2 * length (inbox s) + 1"
  by (simp_all add: work_def pending_def split: option.split)

definition process_ok :: "'k bpf_api \<Rightarrow> ('k \<Rightarrow> bool) \<Rightarrow> 'k process \<Rightarrow> bool" where
  "process_ok K ok s \<longleftrightarrow> ok (maps s) \<and> length (inbox s) \<le> channel_capacity \<and>
     (\<forall>a \<in> set (answers s). get_stats Release K (maps s) = Inr (snd a))"

lemma process_ok_new [simp]: "ok k \<Longrightarrow> process_ok K ok (new_process k)"
  by (simp add: process_ok_def new_process_def)

lemma eventual_new [simp]: "eventual K (new_process k) = settings_of (array_get K k)"
  by (simp add: eventual_def pending_def new_process_def)

lemma stats_requests_append [simp]:
  "stats_requests (xs @ ys) = stats_requests xs @ stats_requests ys"
  by (induction xs rule: stats_requests.induct) simp_all

lemma stats_requests_mem: "GetStats ch \<in> set msgs \<Longrightarrow> ch \<in> set (stats_requests msgs)"
  by (induction msgs rule: stats_requests.induct) auto

lemma stats_requests_one: "stats_requests (msg # msgs) = stats_requests [msg] @ stats_requests msgs"
  by (cases msg) simp_all

lemma turn_waits: "actor_turn p K s = None \<longleftrightarrow> pending s = []"
  by (simp add: actor_turn_def actor_recv_def pending_def split: option.split list.split)

context array_maps begin

text \<open>
  A step of the actor: \<open>ms\<close> is the message that it handled, if it handled one.
\<close>

lemma turn_cases:
  assumes s: "process_ok K ok s" and r: "actor_turn Release K s = Some r"
  obtains t ms where "r = Inr t" and "process_ok K ok t" and "pending s = ms @ pending t"
    and "settings_of (array_get K (maps t)) = fold apply_message ms (settings_of (array_get K (maps s)))"
    and "eventual K t = eventual K s"
    and "get_stats Release K (maps t) = get_stats Release K (maps s)"
    and "map fst (answers t) = map fst (answers s) @ stats_requests ms"
    and "work t < work s" and "length ms \<le> 1"
proof (cases "in_hand s")
  case None
  then obtain msg msgs where i: "inbox s = msg # msgs"
    using r by (cases "inbox s") (simp_all add: actor_turn_def actor_recv_def)
  let ?t = "s\<lparr>inbox := msgs, in_hand := Some msg\<rparr>"
  have p: "pending s = pending ?t" by (simp add: pending_def None i)
  show ?thesis
  proof (rule that [of ?t "[]"])
    show "r = Inr ?t" using r by (simp add: actor_turn_def actor_recv_def None i)
    show "process_ok K ok ?t" using s i by (auto simp: process_ok_def)
    show "work ?t < work s" by (simp add: work_def p i)
  qed (simp_all add: p eventual_def)
next
  case (Some msg)
  obtain k out where step: "handle_message Release K (maps s) msg = Inr (k, out)" "ok k"
    "settings_of (array_get K k) = apply_message msg (settings_of (array_get K (maps s)))"
    "get_stats Release K k = get_stats Release K (maps s)"
    "map (\<lambda>r. Inr (snd r)) out = map (\<lambda>_. get_stats Release K (maps s)) (stats_requests [msg])"
    "map fst out = stats_requests [msg]"
    using s handle_message_step [of "maps s" msg] unfolding process_ok_def by metis
  have out: "get_stats Release K (maps s) = Inr (snd a)" if "a \<in> set out" for a
  proof -
    from that have "(Inr (snd a) :: panic + _) \<in> set (map (\<lambda>r. Inr (snd r)) out)" by auto
    then have "Inr (snd a) \<in> set (map (\<lambda>_. get_stats Release K (maps s)) (stats_requests [msg]))"
      by (simp only: step(5))
    then show ?thesis by auto
  qed
  let ?t = "s\<lparr>in_hand := None, maps := k, answers := answers s @ out\<rparr>"
  have p: "pending s = [msg] @ pending ?t" by (simp add: pending_def Some)
  show ?thesis
  proof (rule that [of ?t "[msg]"])
    show "r = Inr ?t" using r step(1) by (simp add: actor_turn_def actor_handle_def Some)
    show "process_ok K ok ?t" using s step out by (auto simp: process_ok_def)
    show "work ?t < work s" by (simp add: work_def p)
    show "eventual K ?t = eventual K s" by (simp add: eventual_def p step)
  qed (use p step in simp_all)
qed

text \<open>
  Whatever the interleaving, the messages take effect in the order in which they were sent.
\<close>

lemma process_run_ok:
  assumes "process_run Release K s sent t" and "process_ok K ok s"
  shows "process_ok K ok t \<and> eventual K t = fold apply_message sent (eventual K s) \<and>
     map fst (answers t) @ stats_requests (pending t) =
       map fst (answers s) @ stats_requests (pending s) @ stats_requests sent"
  using assms
proof (induction rule: process_run.induct)
  case (send s sent t msg)
  then show ?case by (auto simp: process_ok_def eventual_def)
next
  case (turn s sent t u)
  then have "process_ok K ok t" by simp
  then obtain ms where "pending t = ms @ pending u" "process_ok K ok u" "eventual K u = eventual K t"
    "map fst (answers u) = map fst (answers t) @ stats_requests ms"
    using turn.hyps(2) by (rule turn_cases) auto
  with turn show ?case by simp
next
  case (channel s sent t)
  then show ?case by (simp add: process_ok_def eventual_def)
qed simp

text \<open>The actor can always handle everything that was sent; it never blocks on a message.\<close>

lemma turn_progress:
  assumes "process_ok K ok s" and "pending s \<noteq> []"
  obtains t ms where "actor_turn Release K s = Some (Inr t)" and "process_ok K ok t"
    and "pending s = ms @ pending t" and "eventual K t = eventual K s"
    and "get_stats Release K (maps t) = get_stats Release K (maps s)"
    and "map fst (answers t) = map fst (answers s) @ stats_requests ms" and "work t < work s"
proof -
  obtain r where r: "actor_turn Release K s = Some r"
    using assms(2) turn_waits [of Release K s] by auto
  show ?thesis by (rule turn_cases [OF assms(1) r]) (rule that, use r in simp_all)
qed

lemma loop_ends:
  assumes "process_ok K ok s"
  shows "\<exists>t. actor_loop Release K s = Some (Inr t) \<and> process_ok K ok t \<and> pending t = [] \<and>
     eventual K t = eventual K s \<and>
     map fst (answers t) = map fst (answers s) @ stats_requests (pending s)"
  using assms
proof (induction "work s" arbitrary: s rule: less_induct)
  case less
  show ?case
  proof (cases "pending s = []")
    case True
    then have "actor_loop Release K s = Some (Inr s)"
      by (subst actor_loop.simps) (simp add: turn_waits [THEN iffD2])
    with True less.prems show ?thesis by simp
  next
    case False
    obtain u ms where u: "actor_turn Release K s = Some (Inr u)" "process_ok K ok u"
      "pending s = ms @ pending u" "eventual K u = eventual K s"
      "map fst (answers u) = map fst (answers s) @ stats_requests ms" "work u < work s"
      using less.prems False by (rule turn_progress)
    have "actor_loop Release K s = actor_loop Release K u"
      by (subst actor_loop.simps) (simp add: u(1))
    with less.hyps [OF u(6,2)] u show ?thesis by simp
  qed
qed

lemma drains:
  assumes "process_ok K ok s"
  shows "\<exists>t. process_run Release K s [] t \<and> pending t = []"
proof -
  have "\<exists>t. process_run Release K s [] t \<and> pending t = []"
    if "process_run Release K s [] u" "process_ok K ok u" for u
    using that
  proof (induction "work u" arbitrary: u rule: less_induct)
    case less
    show ?case
    proof (cases "pending u = []")
      case False
      obtain v where "actor_turn Release K u = Some (Inr v)" "process_ok K ok v" "work v < work u"
        using less.prems(2) False by (rule turn_progress)
      then show ?thesis using less.hyps [of v] process_run.turn [OF less.prems(1)] by simp
    qed (use less.prems(1) in blast)
  qed
  then show ?thesis using assms process_run.stay by metis
qed

end

section \<open>The handle\<close>

text \<open>
  What the handle's methods use of tokio: \<^verbatim>\<open>sender.send(msg).await\<close> (whether it succeeded is
  the Boolean), \<^verbatim>\<open>oneshot::channel()\<close> (a new channel) and \<^verbatim>\<open>recv.await\<close>. Awaiting lets the actor
  run, which may panic and so abort the process.
\<close>

record 's runtime =
  mpsc_send :: "'s \<Rightarrow> bpf_actor_message \<Rightarrow> panic + (bool \<times> 's)"
  oneshot_channel :: "'s \<Rightarrow> nat \<times> 's"
  oneshot_recv :: "'s \<Rightarrow> nat \<Rightarrow> panic + (router_statistics option \<times> 's)"

definition handle_get_router_stats :: "'s runtime \<Rightarrow> 's \<Rightarrow> panic + (router_statistics \<times> 's)" where
  "handle_get_router_stats R s =
     (let (respond_to, s) = oneshot_channel R s; msg = GetStats respond_to in
      and_then (mpsc_send R s msg) (\<lambda>(_, s).
      and_then (oneshot_recv R s respond_to) (\<lambda>(answer, s).
      case answer of None \<Rightarrow> Inl Expect | Some stats \<Rightarrow> Inr (stats, s))))"

definition handle_set_local_net_mask :: "'s runtime \<Rightarrow> 's \<Rightarrow> u32 \<Rightarrow> u32 \<Rightarrow> panic + 's" where
  "handle_set_local_net_mask R s net netmask =
     (let msg = SetLocalNetAndMask net netmask in and_then (mpsc_send R s msg) (\<lambda>(_, s). Inr s))"

definition handle_set_backend_net_mask :: "'s runtime \<Rightarrow> 's \<Rightarrow> u32 \<Rightarrow> u32 \<Rightarrow> panic + 's" where
  "handle_set_backend_net_mask R s net netmask =
     (let msg = SetBackendNetAndMask net netmask in and_then (mpsc_send R s msg) (\<lambda>(_, s). Inr s))"

definition handle_set_gateway_mac_address :: "'s runtime \<Rightarrow> 's \<Rightarrow> u64 \<Rightarrow> panic + 's" where
  "handle_set_gateway_mac_address R s mac =
     (let msg = SetGatewayMacAddress mac in and_then (mpsc_send R s msg) (\<lambda>(_, s). Inr s))"

text \<open>What the callers of the handle rely on.\<close>

locale actor_link =
  fixes R :: "'s runtime"
    and inv :: "'s \<Rightarrow> bool"
    and view :: "'s \<Rightarrow> settings"
    and stats :: "'s \<Rightarrow> router_statistics"
  assumes send_ok: "inv s \<Longrightarrow> \<exists>s'. mpsc_send R s msg = Inr (True, s') \<and> inv s' \<and>
      view s' = apply_message msg (view s) \<and> stats s' = stats s"
    and channel_ok: "inv s \<Longrightarrow> oneshot_channel R s = (ch, s') \<Longrightarrow>
      inv s' \<and> view s' = view s \<and> stats s' = stats s"
    and recv_ok: "inv s \<Longrightarrow> mpsc_send R s (GetStats ch) = Inr (b, s') \<Longrightarrow>
      \<exists>s''. oneshot_recv R s' ch = Inr (Some (stats s), s'') \<and> inv s'' \<and> view s'' = view s \<and>
        stats s'' = stats s"
begin

lemma set_ok:
  assumes "inv s"
  shows "\<exists>s'. handle_set_local_net_mask R s n m = Inr s' \<and> inv s' \<and>
      view s' = (view s)\<lparr>local_net := (n, m)\<rparr> \<and> stats s' = stats s"
    and "\<exists>s'. handle_set_backend_net_mask R s n m = Inr s' \<and> inv s' \<and>
      view s' = (view s)\<lparr>backend_net := (n, m)\<rparr> \<and> stats s' = stats s"
    and "\<exists>s'. handle_set_gateway_mac_address R s a = Inr s' \<and> inv s' \<and>
      view s' = (view s)\<lparr>gateway_mac := a\<rparr> \<and> stats s' = stats s"
  using send_ok [OF assms, of "SetLocalNetAndMask n m"]
    send_ok [OF assms, of "SetBackendNetAndMask n m"] send_ok [OF assms, of "SetGatewayMacAddress a"]
  by (auto simp: handle_set_local_net_mask_def handle_set_backend_net_mask_def
      handle_set_gateway_mac_address_def)

lemma get_ok:
  assumes "inv s"
  shows "\<exists>s'. handle_get_router_stats R s = Inr (stats s, s') \<and> inv s' \<and> view s' = view s \<and>
      stats s' = stats s"
proof -
  obtain ch s1 where ch: "oneshot_channel R s = (ch, s1)" by fastforce
  then have s1: "inv s1" "view s1 = view s" "stats s1 = stats s" using channel_ok [OF assms] by auto
  obtain s2 where send: "mpsc_send R s1 (GetStats ch) = Inr (True, s2)"
    using send_ok [OF s1(1), of "GetStats ch"] by auto
  from recv_ok [OF s1(1) this] obtain s3 where "oneshot_recv R s2 ch = Inr (Some (stats s), s3)"
    "inv s3" "view s3 = view s" "stats s3 = stats s"
    using s1 by auto
  then show ?thesis by (simp add: handle_get_router_stats_def ch send)
qed

end

section \<open>The actor process provides the link\<close>

text \<open>
  A send into a full channel waits until the actor has taken a message, at most two steps;
  waiting for an answer lets the actor handle everything. \<open>drain\<close> is at most as many steps of
  the actor as its first number.
\<close>

fun drain :: "profile \<Rightarrow> 'k bpf_api \<Rightarrow> nat \<Rightarrow> 'k process \<Rightarrow> panic + 'k process" where
  "drain p K 0 s = Inr s"
| "drain p K (Suc n) s =
     (case actor_turn p K s of None \<Rightarrow> Inr s | Some r \<Rightarrow> and_then r (drain p K n))"

definition process_send ::
    "profile \<Rightarrow> 'k bpf_api \<Rightarrow> 'k process \<Rightarrow> bpf_actor_message \<Rightarrow> panic + (bool \<times> 'k process)" where
  "process_send p K s msg =
     and_then (if length (inbox s) < channel_capacity then Inr s else drain p K 2 s)
       (\<lambda>s. Inr (True, s\<lparr>inbox := inbox s @ [msg]\<rparr>))"

definition process_recv ::
    "profile \<Rightarrow> 'k bpf_api \<Rightarrow> 'k process \<Rightarrow> nat \<Rightarrow> panic + (router_statistics option \<times> 'k process)" where
  "process_recv p K s ch =
     and_then (drain p K (work s) s) (\<lambda>s. Inr (map_of (answers s) ch, s))"

definition actor_runtime :: "profile \<Rightarrow> 'k bpf_api \<Rightarrow> 'k process runtime" where
  "actor_runtime p K = \<lparr>mpsc_send = process_send p K,
     oneshot_channel = (\<lambda>s. (next_channel s, s\<lparr>next_channel := Suc (next_channel s)\<rparr>)),
     oneshot_recv = process_recv p K\<rparr>"

definition process_stats :: "'k bpf_api \<Rightarrow> 'k process \<Rightarrow> router_statistics" where
  "process_stats K s =
     (case get_stats Release K (maps s) of Inr st \<Rightarrow> st
      | Inl _ \<Rightarrow> \<lparr>total_packets = 0, client_to_server_packets = 0, server_to_client_packets = 0\<rparr>)"

context array_maps begin

lemma drain_ok:
  assumes "process_ok K ok s"
  shows "\<exists>t ms. drain Release K n s = Inr t \<and> process_ok K ok t \<and> eventual K t = eventual K s \<and>
     process_stats K t = process_stats K s \<and> pending s = ms @ pending t \<and>
     map fst (answers t) = map fst (answers s) @ stats_requests ms \<and> work t \<le> work s - n"
  using assms
proof (induction n arbitrary: s)
  case (Suc n)
  show ?case
  proof (cases "pending s = []")
    case True
    with Suc.prems show ?thesis
      by (intro exI [of _ s] exI [of _ "[]"]) (simp add: turn_waits [THEN iffD2] pending_Nil)
  next
    case False
    obtain u ms where u: "actor_turn Release K s = Some (Inr u)" "process_ok K ok u"
      "pending s = ms @ pending u" "eventual K u = eventual K s"
      "get_stats Release K (maps u) = get_stats Release K (maps s)"
      "map fst (answers u) = map fst (answers s) @ stats_requests ms" "work u < work s"
      using Suc.prems False by (rule turn_progress)
    obtain t ns where t: "drain Release K n u = Inr t" "process_ok K ok t"
      "eventual K t = eventual K u" "process_stats K t = process_stats K u"
      "pending u = ns @ pending t" "map fst (answers t) = map fst (answers u) @ stats_requests ns"
      "work t \<le> work u - n"
      using Suc.IH [OF u(2)] by blast
    have "process_stats K u = process_stats K s" by (simp add: process_stats_def u)
    with t u show ?thesis by (intro exI [of _ t] exI [of _ "ms @ ns"]) auto
  qed
qed simp

lemma process_send_ok:
  assumes "process_ok K ok s"
  shows "\<exists>s'. process_send Release K s msg = Inr (True, s') \<and> process_ok K ok s' \<and>
     eventual K s' = apply_message msg (eventual K s) \<and> process_stats K s' = process_stats K s \<and>
     msg \<in> set (pending s')"
proof (cases "length (inbox s) < channel_capacity")
  case True
  with assms show ?thesis
    by (auto simp: process_send_def process_ok_def eventual_def process_stats_def)
next
  case False
  obtain t where t: "drain Release K 2 s = Inr t" "process_ok K ok t" "eventual K t = eventual K s"
    "process_stats K t = process_stats K s" "work t \<le> work s - 2"
    using drain_ok [OF assms, of 2] by blast
  have "length (inbox s) = channel_capacity" using assms False by (simp add: process_ok_def)
  then have "length (inbox t) < channel_capacity"
    using t(5) work_inbox(1) [of t] work_inbox(2) [of s] by (simp add: channel_capacity_def)
  with False t show ?thesis
    by (auto simp: process_send_def process_ok_def eventual_def process_stats_def)
qed

lemma process_recv_ok:
  assumes s: "process_ok K ok s" and ch: "GetStats ch \<in> set (pending s)"
  shows "\<exists>s'. process_recv Release K s ch = Inr (Some (process_stats K s), s') \<and> process_ok K ok s' \<and>
     eventual K s' = eventual K s \<and> process_stats K s' = process_stats K s"
proof -
  obtain t ms where t: "drain Release K (work s) s = Inr t" "process_ok K ok t"
    "eventual K t = eventual K s" "process_stats K t = process_stats K s"
    "pending s = ms @ pending t" "work t \<le> 0"
    "map fst (answers t) = map fst (answers s) @ stats_requests ms"
    using drain_ok [OF s, of "work s"] by auto
  then have "pending t = []" by (simp add: pending_Nil)
  with ch t(5) have "ch \<in> set (stats_requests ms)" by (simp add: stats_requests_mem)
  then have "ch \<in> fst ` set (answers t)" using t(7) by (metis UnCI set_append set_map)
  then obtain st where st: "map_of (answers t) ch = Some st"
    by (metis map_of_eq_None_iff not_None_eq)
  then have "(ch, st) \<in> set (answers t)" by (rule map_of_SomeD)
  then have "get_stats Release K (maps t) = Inr st" using t(2) by (auto simp: process_ok_def)
  then have "process_stats K t = st" by (simp add: process_stats_def)
  with t st show ?thesis by (simp add: process_recv_def)
qed

end

sublocale array_maps \<subseteq> link: actor_link "actor_runtime Release K" "process_ok K ok" "eventual K" "process_stats K"
proof unfold_locales
  fix s s' :: "'k process" and msg ch b
  assume s: "process_ok K ok s"
  show "\<exists>s'. mpsc_send (actor_runtime Release K) s msg = Inr (True, s') \<and> process_ok K ok s' \<and>
      eventual K s' = apply_message msg (eventual K s) \<and> process_stats K s' = process_stats K s"
    using process_send_ok [OF s, of msg] by (auto simp: actor_runtime_def)
  show "process_ok K ok s' \<and> eventual K s' = eventual K s \<and> process_stats K s' = process_stats K s"
    if "oneshot_channel (actor_runtime Release K) s = (ch, s')"
    using s that by (auto simp: actor_runtime_def process_ok_def eventual_def process_stats_def)
  show "\<exists>s''. oneshot_recv (actor_runtime Release K) s' ch = Inr (Some (process_stats K s), s'') \<and>
      process_ok K ok s'' \<and> eventual K s'' = eventual K s \<and> process_stats K s'' = process_stats K s"
    if "mpsc_send (actor_runtime Release K) s (GetStats ch) = Inr (b, s')"
    using process_send_ok [OF s, of "GetStats ch"] process_recv_ok [of s' ch] that
    by (auto simp: actor_runtime_def)
qed

context array_maps begin

lemma runtime_link:
  "actor_link (actor_runtime Release K) (process_ok K ok) (eventual K) (process_stats K)"
  by (rule link.actor_link_axioms)

lemma handle_operations_ok:
  assumes "process_ok K ok s"
  shows "(\<exists>t. handle_set_local_net_mask (actor_runtime Release K) s n m = Inr t \<and>
        process_ok K ok t \<and> eventual K t = (eventual K s)\<lparr>local_net := (n, m)\<rparr>) \<and>
     (\<exists>t. handle_set_backend_net_mask (actor_runtime Release K) s n m = Inr t \<and>
        process_ok K ok t \<and> eventual K t = (eventual K s)\<lparr>backend_net := (n, m)\<rparr>) \<and>
     (\<exists>t. handle_set_gateway_mac_address (actor_runtime Release K) s a = Inr t \<and>
        process_ok K ok t \<and> eventual K t = (eventual K s)\<lparr>gateway_mac := a\<rparr>) \<and>
     (\<exists>t. handle_get_router_stats (actor_runtime Release K) s = Inr (process_stats K s, t) \<and>
        process_ok K ok t \<and> eventual K t = eventual K s)"
  using link.set_ok [OF assms] link.get_ok [OF assms] by blast

end

section \<open>Properties\<close>

text \<open>
  C12: however the senders and the actor interleave, the channel never holds more than eight
  messages, the settings that hold once all messages are handled are those of the messages in
  the order they were sent, and the statistics requests are answered in that order.
\<close>

theorem process_run_fifo:
  assumes "array_maps K ok" and "process_ok K ok s" and "process_run Release K s sent t"
  shows "length (inbox t) \<le> 8 \<and>
     eventual K t = fold apply_message sent (eventual K s) \<and>
     map fst (answers t) @ stats_requests (pending t) =
       map fst (answers s) @ stats_requests (pending s) @ stats_requests sent"
  using array_maps.process_run_ok [OF assms(1,3,2)] by (simp add: process_ok_def channel_capacity_def)

theorem process_run_fifo_witness:
  "\<exists>t. process_run Release declared_api (new_process (initial_maps 1))
         [SetLocalNetAndMask 1 2, GetStats 5, SetLocalNetAndMask 3 4] t \<and>
       local_net (eventual declared_api t) = (3, 4) \<and> stats_requests (pending t) = [5]"
proof -
  let ?s = "new_process (initial_maps 1)"
  let ?ms = "[SetLocalNetAndMask 1 2, GetStats 5, SetLocalNetAndMask 3 4]"
  have "process_run Release declared_api ?s ([] @ [SetLocalNetAndMask 1 2])
      (?s\<lparr>inbox := [SetLocalNetAndMask 1 2]\<rparr>)"
    using process_run.send [OF process_run.stay, of ?s]
    by (simp add: new_process_def channel_capacity_def)
  from process_run.send [OF this, of "GetStats 5"]
  have "process_run Release declared_api ?s [SetLocalNetAndMask 1 2, GetStats 5]
      (?s\<lparr>inbox := [SetLocalNetAndMask 1 2, GetStats 5]\<rparr>)"
    by (simp add: channel_capacity_def)
  from process_run.send [OF this, of "SetLocalNetAndMask 3 4"]
  have r: "process_run Release declared_api ?s ?ms (?s\<lparr>inbox := ?ms\<rparr>)"
    by (simp add: channel_capacity_def)
  have ok: "process_ok declared_api one_entry ?s" by simp
  show ?thesis
    using process_run_fifo [OF declared.array_maps_axioms ok r] r
    by (intro exI [of _ "?s\<lparr>inbox := ?ms\<rparr>"]) (simp add: pending_def new_process_def)
qed

text \<open>
  The actor is never stuck on a message: from every state of the process it can empty the
  channel without a further message being sent, and then the maps hold the settings that were
  sent.
\<close>

theorem process_can_drain:
  assumes "array_maps K ok" and "process_ok K ok s"
  shows "\<exists>t. process_run Release K s [] t \<and> pending t = [] \<and>
     settings_of (array_get K (maps t)) = eventual K s"
proof -
  obtain t where t: "process_run Release K s [] t" "pending t = []"
    using array_maps.drains [OF assms] by blast
  moreover have "eventual K t = eventual K s"
    using array_maps.process_run_ok [OF assms(1) t(1) assms(2)] by simp
  ultimately show ?thesis by (auto simp: eventual_def)
qed

theorem process_can_drain_witness:
  "\<exists>t. process_run Release declared_api
         ((new_process (initial_maps 1))\<lparr>inbox := [SetGatewayMacAddress 9]\<rparr>) [] t \<and>
       gateway_mac (settings_of (array_get declared_api (maps t))) = 9"
proof -
  let ?s = "(new_process (initial_maps 1))\<lparr>inbox := [SetGatewayMacAddress 9]\<rparr>"
  have "process_ok declared_api one_entry ?s"
    by (simp add: process_ok_def new_process_def channel_capacity_def)
  from process_can_drain [OF declared.array_maps_axioms this]
  show ?thesis by (auto simp: eventual_def pending_def new_process_def)
qed

text \<open>
  The handle's operations do what their names say: each set operation succeeds and changes
  the setting it names and no other, and a statistics request returns the current statistics
  and changes nothing, whatever is still waiting in the channel.
\<close>

theorem handle_operations:
  assumes "array_maps K ok" and "process_ok K ok s"
  shows "(\<exists>t. handle_set_local_net_mask (actor_runtime Release K) s n m = Inr t \<and>
        process_ok K ok t \<and> eventual K t = (eventual K s)\<lparr>local_net := (n, m)\<rparr>) \<and>
     (\<exists>t. handle_set_backend_net_mask (actor_runtime Release K) s n m = Inr t \<and>
        process_ok K ok t \<and> eventual K t = (eventual K s)\<lparr>backend_net := (n, m)\<rparr>) \<and>
     (\<exists>t. handle_set_gateway_mac_address (actor_runtime Release K) s a = Inr t \<and>
        process_ok K ok t \<and> eventual K t = (eventual K s)\<lparr>gateway_mac := a\<rparr>) \<and>
     (\<exists>t. handle_get_router_stats (actor_runtime Release K) s = Inr (process_stats K s, t) \<and>
        process_ok K ok t \<and> eventual K t = eventual K s)"
  using assms by (rule array_maps.handle_operations_ok)

theorem handle_operations_witness:
  "\<exists>t. handle_set_gateway_mac_address (actor_runtime Release declared_api)
         (new_process (initial_maps 2)) 9 = Inr t \<and> gateway_mac (eventual declared_api t) = 9"
proof -
  have "process_ok declared_api one_entry (new_process (initial_maps 2))" by simp
  from handle_operations [OF declared.array_maps_axioms this, of 1 2 9]
  show ?thesis by auto
qed

text \<open>
  C13: once every sender is gone the actor's loop ends, after it has handled every message that
  was still in the channel: the maps then hold the settings that were sent, and every waiting
  statistics request has been answered, in order.
\<close>

theorem actor_loop_terminates:
  assumes "array_maps K ok" and "process_ok K ok s"
  shows "\<exists>t. actor_loop Release K s = Some (Inr t) \<and> inbox t = [] \<and> in_hand t = None \<and>
     settings_of (array_get K (maps t)) = fold apply_message (pending s) (settings_of (array_get K (maps s))) \<and>
     map fst (answers t) = map fst (answers s) @ stats_requests (pending s)"
  using array_maps.loop_ends [OF assms] by (auto simp: eventual_def pending_def split: option.splits)

theorem actor_loop_terminates_witness:
  "\<exists>t. actor_loop Release declared_api
         ((new_process (initial_maps 1))\<lparr>inbox := [GetStats 4, SetGatewayMacAddress 9]\<rparr>) = Some (Inr t) \<and>
       inbox t = [] \<and> map fst (answers t) = [4]"
proof -
  let ?s = "(new_process (initial_maps 1))\<lparr>inbox := [GetStats 4, SetGatewayMacAddress 9]\<rparr>"
  have "process_ok declared_api one_entry ?s"
    by (simp add: process_ok_def new_process_def channel_capacity_def)
  from actor_loop_terminates [OF declared.array_maps_axioms this]
  show ?thesis by (auto simp: new_process_def pending_def)
qed

end
