(* ===== verification/Startup.thy ===== *)
theory Startup
  imports Bpf_Actor
begin

text \<open>
  What \<^verbatim>\<open>run_actor\<close> in \<^verbatim>\<open>udp-router/src/bpf_actor.rs\<close> does before its loop: it loads the
  object file, attaches the program to the interface and takes the six maps out of the object.
  The taken maps are handles; the actor's operations on maps go through them. aya is an argument.
\<close>

section \<open>The loader and the taken maps\<close>

text \<open>
  \<^verbatim>\<open>Ebpf::load_file\<close>, \<^verbatim>\<open>EbpfLogger::init\<close>, \<^verbatim>\<open>program_mut\<close>, the conversions to typed programs
  and maps (\<open>None\<close> is their \<^verbatim>\<open>Err\<close>), \<^verbatim>\<open>load\<close>, \<^verbatim>\<open>attach\<close> and \<^verbatim>\<open>take_map\<close>. \<open>'b\<close> is a loaded
  object, \<open>'g\<close> and \<open>'x\<close> a program and an XDP program, \<open>'m\<close> a map, \<open>'p\<close> and \<open>'a\<close> the handles of
  per-CPU arrays and arrays.
\<close>

record ('b, 'g, 'x, 'm, 'p, 'a) aya =
  ebpf_load_file :: "string \<Rightarrow> 'b option"
  logger_init :: "'b \<Rightarrow> bool \<times> 'b"
  program_mut :: "'b \<Rightarrow> string \<Rightarrow> 'g option"
  as_xdp :: "'g \<Rightarrow> 'x option"
  xdp_load :: "'x \<Rightarrow> bool"
  xdp_attach :: "'x \<Rightarrow> string \<Rightarrow> xdp_mode \<Rightarrow> bool"
  take_map :: "'b \<Rightarrow> string \<Rightarrow> ('m \<times> 'b) option"
  as_percpu_array :: "'m \<Rightarrow> 'p option"
  as_array :: "'m \<Rightarrow> 'a option"

record 'p stats_maps =
  total_packets_map :: 'p
  client_to_server_packets_map :: 'p
  server_to_client_packets_map :: 'p

record 'a config_maps =
  local_net_and_mask_map :: 'a
  backend_net_and_mask_map :: 'a
  gateway_mac_address_map :: 'a

text \<open>The actor: its end of the channel and the taken maps.\<close>

record ('r, 'p, 'a) bpf_actor =
  actor_receiver :: 'r
  actor_stats :: "'p stats_maps"
  actor_configs :: "'a config_maps"

definition bpf_actor_new :: "'r \<Rightarrow> 'p stats_maps \<Rightarrow> 'a config_maps \<Rightarrow> ('r, 'p, 'a) bpf_actor" where
  "bpf_actor_new receiver stats configs =
     \<lparr>actor_receiver = receiver, actor_stats = stats, actor_configs = configs\<rparr>"

definition take_percpu :: "('b, 'g, 'x, 'm, 'p, 'a) aya \<Rightarrow> 'b \<Rightarrow> string \<Rightarrow> panic + ('p \<times> 'b)" where
  "take_percpu A bpf name =
     and_then (unwrap (take_map A bpf name)) (\<lambda>(m, bpf).
     and_then (unwrap (as_percpu_array A m)) (\<lambda>handle. Inr (handle, bpf)))"

definition take_array :: "('b, 'g, 'x, 'm, 'p, 'a) aya \<Rightarrow> 'b \<Rightarrow> string \<Rightarrow> panic + ('a \<times> 'b)" where
  "take_array A bpf name =
     and_then (unwrap (take_map A bpf name)) (\<lambda>(m, bpf).
     and_then (unwrap (as_array A m)) (\<lambda>handle. Inr (handle, bpf)))"

definition take_maps :: "('b, 'g, 'x, 'm, 'p, 'a) aya \<Rightarrow> 'b \<Rightarrow> panic + ('p stats_maps \<times> 'a config_maps)" where
  "take_maps A bpf =
     and_then (take_percpu A bpf ''TOTAL_PACKETS'') (\<lambda>(total, bpf).
     and_then (take_percpu A bpf ''CLIENT_TO_SERVER_PACKETS'') (\<lambda>(client_to_server, bpf).
     and_then (take_percpu A bpf ''SERVER_TO_CLIENT_PACKETS'') (\<lambda>(server_to_client, bpf).
     let stats = \<lparr>total_packets_map = total, client_to_server_packets_map = client_to_server,
       server_to_client_packets_map = server_to_client\<rparr> in
     and_then (take_array A bpf ''LOCAL_NET_AND_MASK'') (\<lambda>(local, bpf).
     and_then (take_array A bpf ''BACKEND_NET_AND_MASK'') (\<lambda>(backend, bpf).
     and_then (take_array A bpf ''GATEWAY_MAC_ADDRESS'') (\<lambda>(gateway, bpf).
     Inr (stats, \<lparr>local_net_and_mask_map = local, backend_net_and_mask_map = backend,
       gateway_mac_address_map = gateway\<rparr>)))))))"

definition start_actor :: "('b, 'g, 'x, 'm, 'p, 'a) aya \<Rightarrow> opt \<Rightarrow>
    panic + (xdp_mode \<times> 'p stats_maps \<times> 'a config_maps)" where
  "start_actor A opt =
     and_then (unwrap (ebpf_load_file A (bpf_prog opt))) (\<lambda>bpf.
     let (_, bpf) = logger_init A bpf in
     and_then (unwrap (program_mut A bpf ''udp_router'')) (\<lambda>program.
     and_then (unwrap (as_xdp A program)) (\<lambda>xdp.
     and_then (if xdp_load A xdp then Inr () else Inl Expect) (\<lambda>_.
     and_then (fst (attach_program opt (xdp_attach A xdp))) (\<lambda>mode.
     and_then (take_maps A bpf) (\<lambda>(stats, configs).
     Inr (mode, stats, configs)))))))"

section \<open>The actor on the taken maps\<close>

text \<open>The map operations on handles, and the operations of the actor made of them.\<close>

record ('k, 'p, 'a) handle_api =
  handle_get :: "'k \<Rightarrow> 'a \<Rightarrow> u32 \<Rightarrow> u64 option"
  handle_set :: "'k \<Rightarrow> 'a \<Rightarrow> u32 \<Rightarrow> u64 \<Rightarrow> 'k option"
  handle_percpu :: "'k \<Rightarrow> 'p \<Rightarrow> u32 \<Rightarrow> u64 list option"

fun config_map :: "'a config_maps \<Rightarrow> bpf_map \<Rightarrow> 'a" where
  "config_map c LOCAL_NET_AND_MASK = local_net_and_mask_map c"
| "config_map c BACKEND_NET_AND_MASK = backend_net_and_mask_map c"
| "config_map c GATEWAY_MAC_ADDRESS = gateway_mac_address_map c"

fun stats_map :: "'p stats_maps \<Rightarrow> percpu_map \<Rightarrow> 'p" where
  "stats_map c TOTAL_PACKETS = total_packets_map c"
| "stats_map c CLIENT_TO_SERVER_PACKETS = client_to_server_packets_map c"
| "stats_map c SERVER_TO_CLIENT_PACKETS = server_to_client_packets_map c"

definition actor_api :: "('k, 'p, 'a) handle_api \<Rightarrow> 'p stats_maps \<Rightarrow> 'a config_maps \<Rightarrow> 'k bpf_api" where
  "actor_api H stats configs =
     \<lparr>array_get = (\<lambda>k m. handle_get H k (config_map configs m)),
      array_set = (\<lambda>k m. handle_set H k (config_map configs m)),
      percpu_get = (\<lambda>k c. handle_percpu H k (stats_map stats c))\<rparr>"

text \<open>
  The whole of \<^verbatim>\<open>run_actor\<close>; the receiving end stands for the messages that come out of it
  until every sender is gone.
\<close>

definition run_actor :: "profile \<Rightarrow> ('b, 'g, 'x, 'm, 'p, 'a) aya \<Rightarrow> ('k, 'p, 'a) handle_api \<Rightarrow>
    opt \<Rightarrow> 'k \<Rightarrow> bpf_actor_message list \<Rightarrow> panic + ('k \<times> (nat \<times> router_statistics) list)" where
  "run_actor p A H opt k msgs =
     and_then (start_actor A opt) (\<lambda>(mode, stats, configs).
     let actor = bpf_actor_new msgs stats configs in
     message_loop p (actor_api H (actor_stats actor) (actor_configs actor)) k (actor_receiver actor))"

section \<open>Taking the maps\<close>

text \<open>\<open>maps_of\<close> are the maps that an object still holds: taking one removes it.\<close>

definition takes_out ::
    "('b, 'g, 'x, 'm, 'p, 'a) aya \<Rightarrow> ('b \<Rightarrow> string \<Rightarrow> 'm option) \<Rightarrow> bool" where
  "takes_out A maps_of \<longleftrightarrow> (\<forall>b n. map_option fst (take_map A b n) = maps_of b n \<and>
     (\<forall>m b'. take_map A b n = Some (m, b') \<longrightarrow> maps_of b' = (maps_of b)(n := None)))"

lemma and_then_Inr_iff: "and_then r f = Inr b \<longleftrightarrow> (\<exists>a. r = Inr a \<and> f a = Inr b)"
  by (cases r) simp_all

lemma unwrap_Inr_iff [simp]: "unwrap x = Inr a \<longleftrightarrow> x = Some a"
  by (cases x) simp_all

text \<open>The object without a map.\<close>

definition without :: "('b, 'g, 'x, 'm, 'p, 'a) aya \<Rightarrow> 'b \<Rightarrow> string \<Rightarrow> 'b" where
  "without A b n = snd (the (take_map A b n))"

lemma take_map_out:
  assumes "takes_out A maps_of"
  shows "take_map A b n = map_option (\<lambda>m. (m, without A b n)) (maps_of b n)"
    and "maps_of b n = Some m \<Longrightarrow> maps_of (without A b n) = (maps_of b)(n := None)"
proof -
  have m: "maps_of b n = map_option fst (take_map A b n)"
    and r: "\<And>m b'. take_map A b n = Some (m, b') \<Longrightarrow> maps_of b' = (maps_of b)(n := None)"
    using assms by (simp_all add: takes_out_def)
  show "take_map A b n = map_option (\<lambda>m. (m, without A b n)) (maps_of b n)"
    by (cases "take_map A b n") (simp_all add: m without_def)
  show "maps_of (without A b n) = (maps_of b)(n := None)" if "maps_of b n = Some m"
  proof -
    from that m obtain b' where "take_map A b n = Some (m, b')" by auto
    with r show ?thesis by (simp add: without_def)
  qed
qed

lemma take_then:
  assumes "takes_out A maps_of"
  shows "and_then (take_percpu A b n) f = Inr y \<longleftrightarrow>
      (\<exists>m. maps_of b n = Some m \<and>
        (\<exists>h. as_percpu_array A m = Some h \<and> f (h, without A b n) = Inr y))"
    and "and_then (take_array A b n) g = Inr y \<longleftrightarrow>
      (\<exists>m. maps_of b n = Some m \<and>
        (\<exists>h. as_array A m = Some h \<and> g (h, without A b n) = Inr y))"
  by (simp_all add: take_percpu_def take_array_def take_map_out(1) [OF assms] and_then_Inr_iff)
    auto

text \<open>The handles that the six names stand for in an object.\<close>

definition named_maps :: "('b, 'g, 'x, 'm, 'p, 'a) aya \<Rightarrow> (string \<Rightarrow> 'm option) \<Rightarrow>
    'p stats_maps \<Rightarrow> 'a config_maps \<Rightarrow> bool" where
  "named_maps A maps stats configs \<longleftrightarrow>
     Option.bind (maps ''TOTAL_PACKETS'') (as_percpu_array A) = Some (total_packets_map stats) \<and>
     Option.bind (maps ''CLIENT_TO_SERVER_PACKETS'') (as_percpu_array A) =
       Some (client_to_server_packets_map stats) \<and>
     Option.bind (maps ''SERVER_TO_CLIENT_PACKETS'') (as_percpu_array A) =
       Some (server_to_client_packets_map stats) \<and>
     Option.bind (maps ''LOCAL_NET_AND_MASK'') (as_array A) = Some (local_net_and_mask_map configs) \<and>
     Option.bind (maps ''BACKEND_NET_AND_MASK'') (as_array A) =
       Some (backend_net_and_mask_map configs) \<and>
     Option.bind (maps ''GATEWAY_MAC_ADDRESS'') (as_array A) = Some (gateway_mac_address_map configs)"

lemma take_maps_iff:
  assumes "takes_out A maps_of"
  shows "take_maps A b = Inr (stats, configs) \<longleftrightarrow> named_maps A (maps_of b) stats configs"
  by (simp add: take_maps_def named_maps_def take_then [OF assms] take_map_out(2) [OF assms]
      bind_eq_Some_conv cong: conj_cong) (auto intro: stats_maps.equality config_maps.equality)

section \<open>The handles satisfy the contract of the maps\<close>

text \<open>
  What aya documents of the operations on handles, for the handles that were taken: reads and
  writes of entry 0 succeed, a write shows at its handle and nowhere else.
\<close>

definition handles_ok :: "('k, 'p, 'a) handle_api \<Rightarrow> ('k \<Rightarrow> bool) \<Rightarrow> 'p stats_maps \<Rightarrow>
    'a config_maps \<Rightarrow> bool" where
  "handles_ok H ok stats configs \<longleftrightarrow> (\<forall>k. ok k \<longrightarrow>
     (\<forall>m. \<exists>v. handle_get H k (config_map configs m) 0 = Some v) \<and>
     (\<forall>c. \<exists>vs. handle_percpu H k (stats_map stats c) 0 = Some vs) \<and>
     (\<forall>m v. \<exists>k'. handle_set H k (config_map configs m) 0 v = Some k' \<and> ok k' \<and>
        (\<forall>a. handle_get H k' a 0 = (if a = config_map configs m then Some v else handle_get H k a 0)) \<and>
        (\<forall>c. handle_percpu H k' (stats_map stats c) 0 = handle_percpu H k (stats_map stats c) 0)))"

lemma inj_config_map:
  "inj (config_map c) \<longleftrightarrow> distinct [local_net_and_mask_map c, backend_net_and_mask_map c,
     gateway_mac_address_map c]"
proof
  assume "inj (config_map c)"
  from inj_eq [OF this] show "distinct [local_net_and_mask_map c, backend_net_and_mask_map c,
     gateway_mac_address_map c]"
    using config_map.simps by (metis bpf_map.distinct distinct_length_2_or_more distinct_singleton)
next
  assume "distinct [local_net_and_mask_map c, backend_net_and_mask_map c, gateway_mac_address_map c]"
  then show "inj (config_map c)"
    by (intro injI; rename_tac x y; case_tac x; case_tac y) auto
qed

lemma actor_api_maps:
  assumes "handles_ok H ok stats configs" and "inj (config_map configs)"
  shows "array_maps (actor_api H stats configs) ok"
proof unfold_locales
  fix k k' m m' v c
  assume k: "ok k"
  have get: "\<exists>v. handle_get H k (config_map configs m) 0 = Some v"
    and percpu: "\<exists>vs. handle_percpu H k (stats_map stats c) 0 = Some vs"
    using assms(1) k unfolding handles_ok_def by blast+
  obtain k'' where k'': "handle_set H k (config_map configs m) 0 v = Some k''" "ok k''"
    "\<And>a. handle_get H k'' a 0 = (if a = config_map configs m then Some v else handle_get H k a 0)"
    "\<And>c. handle_percpu H k'' (stats_map stats c) 0 = handle_percpu H k (stats_map stats c) 0"
    using assms(1) k unfolding handles_ok_def by meson
  show "\<exists>v. array_get (actor_api H stats configs) k m 0 = Some v"
    and "\<exists>k'. array_set (actor_api H stats configs) k m 0 v = Some k'"
    and "\<exists>vs. percpu_get (actor_api H stats configs) k c 0 = Some vs"
    using get percpu k'' by (simp_all add: actor_api_def)
  assume "array_set (actor_api H stats configs) k m 0 v = Some k'"
  then have "k' = k''" using k'' by (simp add: actor_api_def)
  then show "ok k'" and "array_get (actor_api H stats configs) k' m' 0 =
      (if m' = m then Some v else array_get (actor_api H stats configs) k m' 0)"
    and "percpu_get (actor_api H stats configs) k' c 0 = percpu_get (actor_api H stats configs) k c 0"
    using k'' by (simp_all add: actor_api_def inj_eq [OF assms(2)])
qed

lemma start_actor_Inr:
  assumes "takes_out A maps_of"
  shows "start_actor A opt = Inr (mode, stats, configs) \<longleftrightarrow>
     (\<exists>bpf program xdp. ebpf_load_file A (bpf_prog opt) = Some bpf \<and>
        program_mut A (snd (logger_init A bpf)) ''udp_router'' = Some program \<and>
        as_xdp A program = Some xdp \<and> xdp_load A xdp \<and>
        fst (attach_program opt (xdp_attach A xdp)) = Inr mode \<and>
        named_maps A (maps_of (snd (logger_init A bpf))) stats configs)"
  by (auto simp: start_actor_def and_then_Inr_iff take_maps_iff [OF assms] split_def Let_def
      split: if_splits)

section \<open>Properties\<close>

text \<open>
  C20: the actor starts exactly if its object file loads, has the program \<^verbatim>\<open>udp_router\<close> as an
  XDP program that loads and attaches, and has the six maps with the right types; each handle
  of the actor is then the map of that name. In every other case it panics.
\<close>

theorem start_actor_iff:
  assumes "takes_out A maps_of"
  shows "start_actor A opt = Inr (mode, stats, configs) \<longleftrightarrow>
     (\<exists>bpf program xdp. ebpf_load_file A (bpf_prog opt) = Some bpf \<and>
        program_mut A (snd (logger_init A bpf)) ''udp_router'' = Some program \<and>
        as_xdp A program = Some xdp \<and> xdp_load A xdp \<and>
        fst (attach_program opt (xdp_attach A xdp)) = Inr mode \<and>
        named_maps A (maps_of (snd (logger_init A bpf))) stats configs)"
  using assms by (rule start_actor_Inr)

text \<open>A loader whose objects are tables of map names, for the examples; a map is its name.\<close>

definition sample_names :: "string list" where
  "sample_names = [''TOTAL_PACKETS'', ''CLIENT_TO_SERVER_PACKETS'', ''SERVER_TO_CLIENT_PACKETS'',
     ''LOCAL_NET_AND_MASK'', ''BACKEND_NET_AND_MASK'', ''GATEWAY_MAC_ADDRESS'']"

definition sample_aya :: "(string \<Rightarrow> string option, string, string, string, string, string) aya" where
  "sample_aya = \<lparr>ebpf_load_file = (\<lambda>f. if f = ''udp-router'' then
         Some (\<lambda>n. if n \<in> set sample_names then Some n else None) else None),
     logger_init = (\<lambda>b. (True, b)),
     program_mut = (\<lambda>_ n. if n = ''udp_router'' then Some n else None), as_xdp = Some,
     xdp_load = (\<lambda>_. True), xdp_attach = (\<lambda>_ _ m. m = SKB_MODE),
     take_map = (\<lambda>b n. map_option (\<lambda>m. (m, b(n := None))) (b n)),
     as_percpu_array = Some, as_array = Some\<rparr>"

definition sample_stats :: "string stats_maps" where
  "sample_stats = \<lparr>total_packets_map = ''TOTAL_PACKETS'',
     client_to_server_packets_map = ''CLIENT_TO_SERVER_PACKETS'',
     server_to_client_packets_map = ''SERVER_TO_CLIENT_PACKETS''\<rparr>"

definition sample_configs :: "string config_maps" where
  "sample_configs = \<lparr>local_net_and_mask_map = ''LOCAL_NET_AND_MASK'',
     backend_net_and_mask_map = ''BACKEND_NET_AND_MASK'',
     gateway_mac_address_map = ''GATEWAY_MAC_ADDRESS''\<rparr>"

definition sample_handles ::
    "((string \<Rightarrow> u64) \<times> (string \<Rightarrow> u64 list), string, string) handle_api" where
  "sample_handles = \<lparr>handle_get = (\<lambda>k a _. Some (fst k a)),
     handle_set = (\<lambda>k a _ v. Some ((fst k)(a := v), snd k)),
     handle_percpu = (\<lambda>k c _. Some (snd k c))\<rparr>"

lemma sample_takes_out: "takes_out sample_aya (\<lambda>b. b)"
  by (auto simp: takes_out_def sample_aya_def option.map_comp o_def option.map_ident)

lemma sample_handles_ok: "handles_ok sample_handles (\<lambda>_. True) stats configs"
  by (auto simp: handles_ok_def sample_handles_def)

lemma sample_attach: "fst (attach_program sample_opt (xdp_attach sample_aya x)) = Inr SKB_MODE"
  by (simp add: attach_program_def sample_opt_def sample_aya_def)

lemma sample_loads:
  "\<exists>bpf program xdp. ebpf_load_file sample_aya (bpf_prog sample_opt) = Some bpf \<and>
     program_mut sample_aya (snd (logger_init sample_aya bpf)) ''udp_router'' = Some program \<and>
     as_xdp sample_aya program = Some xdp \<and> xdp_load sample_aya xdp \<and>
     fst (attach_program sample_opt (xdp_attach sample_aya xdp)) = Inr SKB_MODE \<and>
     named_maps sample_aya (snd (logger_init sample_aya bpf)) sample_stats sample_configs"
  using sample_attach
  by (simp add: named_maps_def sample_stats_def sample_configs_def)
    (simp add: sample_aya_def sample_opt_def sample_names_def)

theorem start_actor_iff_witness:
  "start_actor sample_aya sample_opt = Inr (SKB_MODE, sample_stats, sample_configs)"
  unfolding start_actor_iff [OF sample_takes_out] by (rule sample_loads)

text \<open>
  C21: once started, \<^verbatim>\<open>run_actor\<close> of the release build implements the settings on the maps it
  took: if the three
  configuration maps are different maps, it never panics on a message, and when every sender is
  gone the maps hold the settings of the messages, in their order, and every statistics request
  has been answered.
\<close>

theorem run_actor_implements_settings:
  assumes "start_actor A opt = Inr (mode, stats, configs)" and "handles_ok H ok stats configs"
    and "distinct [local_net_and_mask_map configs, backend_net_and_mask_map configs,
      gateway_mac_address_map configs]"
    and "ok k"
  shows "\<exists>k' outs. run_actor Release A H opt k msgs = Inr (k', outs) \<and> ok k' \<and>
     map fst outs = stats_requests msgs \<and>
     settings_of (array_get (actor_api H stats configs) k') =
       fold apply_message msgs (settings_of (array_get (actor_api H stats configs) k))"
proof -
  have "array_maps (actor_api H stats configs) ok"
    using assms(2,3) by (simp add: actor_api_maps inj_config_map)
  from array_maps.message_loop_run [OF this assms(4), of msgs]
  show ?thesis by (auto simp: run_actor_def bpf_actor_new_def assms(1))
qed

theorem run_actor_implements_settings_witness:
  "\<exists>k outs. run_actor Release sample_aya sample_handles sample_opt (\<lambda>_. 0, \<lambda>_. [0, 0])
       [SetGatewayMacAddress 9, GetStats 1] = Inr (k, outs) \<and> map fst outs = [1] \<and>
     gateway_mac (settings_of (array_get (actor_api sample_handles sample_stats sample_configs) k)) = 9"
proof -
  have s: "start_actor sample_aya sample_opt = Inr (SKB_MODE, sample_stats, sample_configs)"
    unfolding start_actor_Inr [OF sample_takes_out] by (rule sample_loads)
  show ?thesis
    using run_actor_implements_settings [OF s sample_handles_ok _ TrueI,
        of "(\<lambda>_. 0, \<lambda>_. [0, 0])" "[SetGatewayMacAddress 9, GetStats 1]"]
    by (auto simp: sample_configs_def)
qed

end
