(* ===== verification/System.thy ===== *)
theory System
  imports Router_Settings Actor_System Startup
begin

text \<open>
  The whole router while it runs: requests reach the actor's channel, the actor writes the maps
  (\<^verbatim>\<open>udp-router/src/bpf_actor.rs\<close>), and meanwhile the program (\<^verbatim>\<open>udp-router-ebpf/src/main.rs\<close>)
  treats packets on any number of CPUs. The kernel gives no ordering between the two: while a
  packet is being treated the maps may change. The program reads two entries, each once: that of
  the local network when it filters and later that of the gateway when it rewrites the frame.
\<close>

section \<open>States and steps\<close>

text \<open>
  A packet being treated, with the maps as they were when the program read the local network;
  and a packet that was treated, with the result of the program. Both carry the number of
  requests sent so far, which no step looks at.
\<close>

record 'k flight =
  flight_ctx :: xdp_ctx
  flight_maps :: 'k
  flight_sent :: nat

record treated =
  treated_ctx :: xdp_ctx
  treated_result :: "(xdp_exc + xdp_action) \<times> xdp_ctx"
  sent_at_filter :: nat
  sent_at_rewrite :: nat

record 'k system =
  sys_actor :: "'k process"
  sys_sent :: "bpf_actor_message list"
  sys_flights :: "'k flight list"
  sys_treated :: "treated list"

definition fresh_system :: "'k \<Rightarrow> 'k system" where
  "fresh_system k = \<lparr>sys_actor = new_process k, sys_sent = [], sys_flights = [], sys_treated = []\<rparr>"

text \<open>The entries that one run of the program reads.\<close>

definition two_reads :: "'k bpf_api \<Rightarrow> 'k \<Rightarrow> 'k \<Rightarrow> bpf_map \<Rightarrow> u32 \<Rightarrow> u64 option" where
  "two_reads K k0 k m = array_get K (if m = LOCAL_NET_AND_MASK then k0 else k) m"

definition start_packet :: "'k system \<Rightarrow> xdp_ctx \<Rightarrow> 'k flight" where
  "start_packet s x =
     \<lparr>flight_ctx = x, flight_maps = maps (sys_actor s), flight_sent = length (sys_sent s)\<rparr>"

definition finish_packet :: "net_types \<Rightarrow> endian \<Rightarrow> 'k bpf_api \<Rightarrow> 'k system \<Rightarrow> 'k flight \<Rightarrow> treated" where
  "finish_packet N e K s f =
     \<lparr>treated_ctx = flight_ctx f,
      treated_result = udp_router N e (two_reads K (flight_maps f) (maps (sys_actor s))) (flight_ctx f),
      sent_at_filter = flight_sent f, sent_at_rewrite = length (sys_sent s)\<rparr>"

inductive system_run :: "net_types \<Rightarrow> endian \<Rightarrow> 'k bpf_api \<Rightarrow> 'k system \<Rightarrow> 'k system \<Rightarrow> bool"
  for N e K start where
  begin_run: "system_run N e K start start"
| request: "system_run N e K start s \<Longrightarrow> length (inbox (sys_actor s)) < channel_capacity \<Longrightarrow>
     system_run N e K start (s\<lparr>sys_actor := (sys_actor s)\<lparr>inbox := inbox (sys_actor s) @ [msg]\<rparr>,
       sys_sent := sys_sent s @ [msg]\<rparr>)"
| actor: "system_run N e K start s \<Longrightarrow> actor_turn Release K (sys_actor s) = Some (Inr t) \<Longrightarrow>
     system_run N e K start (s\<lparr>sys_actor := t\<rparr>)"
| channel: "system_run N e K start s \<Longrightarrow> system_run N e K start
     (s\<lparr>sys_actor := (sys_actor s)\<lparr>next_channel := Suc (next_channel (sys_actor s))\<rparr>\<rparr>)"
| filtered: "system_run N e K start s \<Longrightarrow> ctx_ok x \<Longrightarrow>
     system_run N e K start (s\<lparr>sys_flights := sys_flights s @ [start_packet s x]\<rparr>)"
| rewritten: "system_run N e K start s \<Longrightarrow> sys_flights s = fs @ f # gs \<Longrightarrow>
     system_run N e K start (s\<lparr>sys_flights := fs @ gs,
       sys_treated := sys_treated s @ [finish_packet N e K s f]\<rparr>)"

section \<open>What a packet sees\<close>

lemma two_reads_settings:
  "settings_of (two_reads K k0 k) =
     (settings_of (array_get K k))\<lparr>local_net := local_net (settings_of (array_get K k0))\<rparr>"
  by (simp add: settings_of_def two_reads_def read_map_def Let_def)

text \<open>
  The settings after the first requests; how many of them have been handled; and the delay: eight
  requests in the channel, and one that the actor has received but not handled.
\<close>

definition settings_after :: "settings \<Rightarrow> bpf_actor_message list \<Rightarrow> nat \<Rightarrow> settings" where
  "settings_after c msgs n = fold apply_message (take n msgs) c"

lemma settings_after_append [simp]:
  "n \<le> length msgs \<Longrightarrow> settings_after c (msgs @ ms) n = settings_after c msgs n"
  by (simp add: settings_after_def)

definition handled :: "'k system \<Rightarrow> nat" where
  "handled s = length (sys_sent s) - length (pending (sys_actor s))"

definition recent :: "nat \<Rightarrow> nat \<Rightarrow> bool" where
  "recent i n \<longleftrightarrow> i \<le> n \<and> n \<le> i + 9"

definition actor_current :: "'k bpf_api \<Rightarrow> ('k \<Rightarrow> bool) \<Rightarrow> settings \<Rightarrow> 'k system \<Rightarrow> bool" where
  "actor_current K ok c s \<longleftrightarrow>
     process_ok K ok (sys_actor s) \<and> length (pending (sys_actor s)) \<le> length (sys_sent s) \<and>
     pending (sys_actor s) = drop (handled s) (sys_sent s) \<and>
     settings_of (array_get K (maps (sys_actor s))) = settings_after c (sys_sent s) (handled s)"

definition flight_current :: "'k bpf_api \<Rightarrow> settings \<Rightarrow> 'k system \<Rightarrow> 'k flight \<Rightarrow> bool" where
  "flight_current K c s f \<longleftrightarrow> ctx_ok (flight_ctx f) \<and> flight_sent f \<le> length (sys_sent s) \<and>
     (\<exists>i. recent i (flight_sent f) \<and> i \<le> handled s \<and>
        settings_of (array_get K (flight_maps f)) = settings_after c (sys_sent s) i)"

definition treated_current :: "settings \<Rightarrow> bpf_actor_message list \<Rightarrow> treated \<Rightarrow> bool" where
  "treated_current c msgs p \<longleftrightarrow> sent_at_rewrite p \<le> length msgs \<and>
     (\<exists>i j. i \<le> j \<and> recent i (sent_at_filter p) \<and> recent j (sent_at_rewrite p) \<and>
        (let r = settings_router ((settings_after c msgs j)
               \<lparr>local_net := local_net (settings_after c msgs i)\<rparr>) (pkt (treated_ctx p))
         in treated_result p = (Inr (fst r), (treated_ctx p)\<lparr>pkt := snd r\<rparr>)))"

lemma treated_current_append: "treated_current c msgs p \<Longrightarrow> treated_current c (msgs @ ms) p"
  unfolding treated_current_def recent_def
  by (elim conjE exE, intro conjI, simp) (intro exI conjI, assumption+, simp)

definition system_ok :: "'k bpf_api \<Rightarrow> ('k \<Rightarrow> bool) \<Rightarrow> settings \<Rightarrow> 'k system \<Rightarrow> bool" where
  "system_ok K ok c s \<longleftrightarrow> actor_current K ok c s \<and>
     (\<forall>f \<in> set (sys_flights s). flight_current K c s f) \<and>
     (\<forall>p \<in> set (sys_treated s). treated_current c (sys_sent s) p)"

section \<open>The invariant is kept\<close>

context array_maps begin

lemma actor_current_turn:
  assumes "actor_current K ok c s" and "actor_turn Release K (sys_actor s) = Some (Inr t)"
  shows "actor_current K ok c (s\<lparr>sys_actor := t\<rparr>)" and "handled s \<le> handled (s\<lparr>sys_actor := t\<rparr>)"
proof -
  have "process_ok K ok (sys_actor s)" using assms(1) by (simp add: actor_current_def)
  then obtain ms where m: "pending (sys_actor s) = ms @ pending t" "process_ok K ok t"
    "settings_of (array_get K (maps t)) =
       fold apply_message ms (settings_of (array_get K (maps (sys_actor s))))"
    using assms(2) by (rule turn_cases) auto
  let ?h = "handled s"
  have l: "length ms + length (pending t) \<le> length (sys_sent s)"
    and d: "ms @ pending t = drop ?h (sys_sent s)"
    and c: "settings_of (array_get K (maps (sys_actor s))) = settings_after c (sys_sent s) ?h"
    using assms(1) m(1) by (simp_all add: actor_current_def)
  have h: "handled (s\<lparr>sys_actor := t\<rparr>) = ?h + length ms"
    using l m(1) by (simp add: handled_def)
  then show "?h \<le> handled (s\<lparr>sys_actor := t\<rparr>)" by simp
  have "take (length ms) (drop ?h (sys_sent s)) = ms" by (simp add: d [symmetric])
  then have "take (?h + length ms) (sys_sent s) = take ?h (sys_sent s) @ ms" by (simp only: take_add)
  moreover have "pending t = drop (length ms) (drop ?h (sys_sent s))" by (simp add: d [symmetric])
  then have "pending t = drop (?h + length ms) (sys_sent s)" by (simp add: add.commute)
  ultimately show "actor_current K ok c (s\<lparr>sys_actor := t\<rparr>)"
    using l m(2,3) c h by (simp add: actor_current_def settings_after_def)
qed

lemma actor_current_recent:
  "actor_current K ok c s \<Longrightarrow> recent (handled s) (length (sys_sent s))"
  by (auto simp: actor_current_def process_ok_def recent_def handled_def channel_capacity_def
      pending_def split: option.split)

lemma system_run_ok:
  assumes "system_run N e K s0 s" and "system_ok K ok c s0" and "wire_format N"
  shows "system_ok K ok c s"
  using assms(1)
proof (induction rule: system_run.induct)
  case begin_run
  show ?case by (rule assms(2))
next
  case (request s msg)
  define t where "t = s\<lparr>sys_actor := (sys_actor s)\<lparr>inbox := inbox (sys_actor s) @ [msg]\<rparr>,
      sys_sent := sys_sent s @ [msg]\<rparr>"
  have t: "pending (sys_actor t) = pending (sys_actor s) @ [msg]"
    "inbox (sys_actor t) = inbox (sys_actor s) @ [msg]" "sys_sent t = sys_sent s @ [msg]"
    "maps (sys_actor t) = maps (sys_actor s)" "answers (sys_actor t) = answers (sys_actor s)"
    "sys_flights t = sys_flights s" "sys_treated t = sys_treated s" "handled t = handled s"
    by (simp_all add: t_def handled_def)
  have hl: "handled s \<le> length (sys_sent s)" by (simp add: handled_def)
  have "actor_current K ok c t"
    using request hl by (simp add: system_ok_def actor_current_def process_ok_def t)
  moreover have "flight_current K c t f" if f: "flight_current K c s f" for f
  proof -
    obtain i where "recent i (flight_sent f)" "i \<le> handled s"
      "settings_of (array_get K (flight_maps f)) = settings_after c (sys_sent s) i"
      using f by (auto simp: flight_current_def)
    with hl f show ?thesis
      by (auto simp: flight_current_def t intro!: exI [of _ i])
  qed
  ultimately have "system_ok K ok c t"
    using request by (auto simp: system_ok_def treated_current_append t)
  then show ?case by (simp add: t_def)
next
  case (actor s t)
  then have a: "actor_current K ok c s" by (simp add: system_ok_def)
  note t = actor_current_turn [OF a actor.hyps(2)]
  have "flight_current K c (s\<lparr>sys_actor := t\<rparr>) f" if "flight_current K c s f" for f
    using that t(2) by (auto simp: flight_current_def intro: order.trans)
  with actor.IH t(1) show ?case by (simp add: system_ok_def)
next
  case (channel s)
  then show ?case
    by (simp add: system_ok_def actor_current_def process_ok_def flight_current_def handled_def)
next
  case (filtered s x)
  then have a: "actor_current K ok c s" by (simp add: system_ok_def)
  then have "flight_current K c s (start_packet s x)"
    using filtered.hyps(2) actor_current_recent [OF a]
    by (auto simp: flight_current_def start_packet_def actor_current_def)
  with filtered.IH show ?case
    by (auto simp: system_ok_def actor_current_def flight_current_def handled_def)
next
  case (rewritten s fs f gs)
  then have a: "actor_current K ok c s" and f: "flight_current K c s f"
    by (simp_all add: system_ok_def)
  obtain i where i: "recent i (flight_sent f)" "i \<le> handled s"
    "settings_of (array_get K (flight_maps f)) = settings_after c (sys_sent s) i"
    and x: "ctx_ok (flight_ctx f)"
    using f by (auto simp: flight_current_def)
  have "settings_of (array_get K (maps (sys_actor s))) = settings_after c (sys_sent s) (handled s)"
    using a by (simp add: actor_current_def)
  then have "treated_current c (sys_sent s) (finish_packet N e K s f)"
    using i actor_current_recent [OF a]
    unfolding treated_current_def
    by (intro conjI exI [of _ i] exI [of _ "handled s"])
      (simp_all add: finish_packet_def udp_router_settings [OF assms(3) x] two_reads_settings Let_def)
  with rewritten show ?case
    by (auto simp: system_ok_def actor_current_def flight_current_def handled_def)
qed

lemma fresh_ok: "ok k \<Longrightarrow> system_ok K ok (settings_of (array_get K k)) (fresh_system k)"
  by (simp add: system_ok_def actor_current_def fresh_system_def handled_def settings_after_def)
    (simp add: new_process_def)

text \<open>Without further requests the actor catches up.\<close>

lemma system_process_run:
  assumes "process_run Release K (sys_actor s) [] t" and "system_run N e K s0 s"
  shows "system_run N e K s0 (s\<lparr>sys_actor := t\<rparr>)"
  using assms
proof (induction "sys_actor s" "[] :: bpf_actor_message list" t rule: process_run.induct)
  case (turn t u)
  then show ?case using system_run.actor [of N e K s0 "s\<lparr>sys_actor := t\<rparr>" u] by simp
next
  case (channel t)
  then show ?case using system_run.channel [of N e K s0 "s\<lparr>sys_actor := t\<rparr>"] by simp
qed simp_all

lemma system_catches_up:
  assumes "system_run N e K s0 s" and "system_ok K ok c s0" and "wire_format N"
  shows "\<exists>t. system_run N e K s0 (s\<lparr>sys_actor := t\<rparr>) \<and> pending t = [] \<and>
     settings_of (array_get K (maps t)) = fold apply_message (sys_sent s) c"
proof -
  have ok: "process_ok K ok (sys_actor s)"
    using system_run_ok [OF assms] by (simp add: system_ok_def actor_current_def)
  obtain t where t: "process_run Release K (sys_actor s) [] t" "pending t = []"
    using drains [OF ok] by blast
  let ?s = "s\<lparr>sys_actor := t\<rparr>"
  have r: "system_run N e K s0 ?s" by (rule system_process_run [OF t(1) assms(1)])
  have "actor_current K ok c ?s"
    using system_run_ok [OF r assms(2,3)] by (simp add: system_ok_def)
  then have "settings_of (array_get K (maps t)) = fold apply_message (sys_sent s) c"
    using t(2) by (simp add: actor_current_def handled_def settings_after_def)
  with r t(2) show ?thesis by blast
qed

end

section \<open>Properties\<close>

text \<open>
  C6: however requests, actor and packets interleave, a packet is treated by recent settings: the
  local network that it is filtered by is that of all requests sent before but at most the last
  nine (eight wait in the channel, and one may be in the actor's hand), and the gateway that it
  is sent to is that of as many requests or more, again of all sent by then but at most the last
  nine. The two may differ in age, since the maps can change while the packet is treated, but
  neither is ever a mixture.
\<close>

theorem packets_see_recent_settings:
  assumes "array_maps K ok" and "ok k" and "wire_format N"
    and "system_run N e K (fresh_system k) s" and "p \<in> set (sys_treated s)"
  shows "\<exists>i j. i \<le> j \<and>
     i \<le> sent_at_filter p \<and> sent_at_filter p \<le> i + 9 \<and>
     j \<le> sent_at_rewrite p \<and> sent_at_rewrite p \<le> j + 9 \<and>
     (let after = settings_after (settings_of (array_get K k)) (sys_sent s);
          r = settings_router ((after j)\<lparr>local_net := local_net (after i)\<rparr>) (pkt (treated_ctx p))
      in treated_result p = (Inr (fst r), (treated_ctx p)\<lparr>pkt := snd r\<rparr>))"
proof -
  have "system_ok K ok (settings_of (array_get K k)) s"
    using array_maps.system_run_ok [OF assms(1,4) array_maps.fresh_ok [OF assms(1,2)] assms(3)] .
  then have "treated_current (settings_of (array_get K k)) (sys_sent s) p"
    using assms(5) by (simp add: system_ok_def)
  then show ?thesis unfolding treated_current_def recent_def Let_def by blast
qed

lemma first_packet:
  "ctx_ok x \<Longrightarrow> system_run N e K s (s\<lparr>sys_flights := sys_flights s @ [start_packet s x]\<rparr>)"
  by (rule system_run.filtered [OF system_run.begin_run])

lemma sample_frame_ok: "ctx_ok (sample_ctx sample_frame)"
  by (simp add: sample_frame_def)

text \<open>
  A run for the examples: a frame is filtered, then a gateway is set and the actor handles it,
  and only then the frame is rewritten.
\<close>

definition configured_maps :: declared_maps where
  "configured_maps = (initial_maps 1)\<lparr>arrays := (arrays (initial_maps 1))
     (LOCAL_NET_AND_MASK := [pack_net_mask 0x0A000000 0xFFFFFFFF])\<rparr>"

definition overtaken :: "declared_maps system" where
  "overtaken = (fresh_system configured_maps)
     \<lparr>sys_flights := [start_packet (fresh_system configured_maps) (sample_ctx sample_frame)],
      sys_actor := (new_process configured_maps)
        \<lparr>maps := configured_maps\<lparr>arrays := (arrays configured_maps)(GATEWAY_MAC_ADDRESS := [9])\<rparr>\<rparr>,
      sys_sent := [SetGatewayMacAddress 9]\<rparr>"

lemma configured_ok: "one_entry configured_maps"
  by (simp add: one_entry_def configured_maps_def initial_maps_def)

lemma overtaken_run: "system_run rfc_headers Little declared_api (fresh_system configured_maps) overtaken"
proof -
  let ?run = "system_run rfc_headers Little declared_api (fresh_system configured_maps)"
  let ?f = "start_packet (fresh_system configured_maps) (sample_ctx sample_frame)"
  let ?k = "configured_maps\<lparr>arrays := (arrays configured_maps)(GATEWAY_MAC_ADDRESS := [9])\<rparr>"
  have "?run ((fresh_system configured_maps)\<lparr>sys_flights := [?f]\<rparr>)"
    using first_packet [OF sample_frame_ok, where s = "fresh_system configured_maps"]
    by (simp add: fresh_system_def)
  from system_run.request [OF this, of "SetGatewayMacAddress 9"]
  have r: "?run ((fresh_system configured_maps)\<lparr>sys_flights := [?f],
      sys_actor := (new_process configured_maps)\<lparr>inbox := [SetGatewayMacAddress 9]\<rparr>,
      sys_sent := [SetGatewayMacAddress 9]\<rparr>)"
    by (simp add: fresh_system_def new_process_def channel_capacity_def)
  have "declared_set configured_maps GATEWAY_MAC_ADDRESS 0 9 = Some ?k"
    by (simp add: declared_set_def configured_maps_def initial_maps_def)
  then have handle: "actor_turn Release declared_api
      ((new_process configured_maps)\<lparr>in_hand := Some (SetGatewayMacAddress 9)\<rparr>) =
      Some (Inr ((new_process configured_maps)\<lparr>maps := ?k\<rparr>))"
    by (simp add: actor_turn_def actor_handle_def new_process_def set_gateway_mac_address_def
        write_map_def declared_api_def)
  have recv: "actor_turn Release declared_api
      ((new_process configured_maps)\<lparr>inbox := [SetGatewayMacAddress 9]\<rparr>) =
      Some (Inr ((new_process configured_maps)\<lparr>in_hand := Some (SetGatewayMacAddress 9)\<rparr>))"
    by (simp add: actor_turn_def actor_recv_def new_process_def)
  from system_run.actor [OF r] recv
  have "?run ((fresh_system configured_maps)\<lparr>sys_flights := [?f],
      sys_actor := (new_process configured_maps)\<lparr>in_hand := Some (SetGatewayMacAddress 9)\<rparr>,
      sys_sent := [SetGatewayMacAddress 9]\<rparr>)"
    by (simp add: fresh_system_def)
  from system_run.actor [OF this] handle show ?thesis
    by (simp add: overtaken_def fresh_system_def)
qed

theorem packets_see_recent_settings_witness:
  "\<exists>s p. system_run rfc_headers Little declared_api (fresh_system configured_maps) s \<and>
     p \<in> set (sys_treated s) \<and> sent_at_filter p = 0 \<and> sent_at_rewrite p = 1 \<and>
     (\<exists>j \<le> 1. treated_result p = (let r = settings_router
        ((settings_after (settings_of (array_get declared_api configured_maps)) [SetGatewayMacAddress 9] j)
          \<lparr>local_net := (0x0A000000, 0xFFFFFFFF)\<rparr>) sample_frame
       in (Inr (fst r), (sample_ctx sample_frame)\<lparr>pkt := snd r\<rparr>)))"
proof -
  let ?f = "start_packet (fresh_system configured_maps) (sample_ctx sample_frame)"
  let ?p = "finish_packet rfc_headers Little declared_api overtaken ?f"
  let ?s = "overtaken\<lparr>sys_flights := [], sys_treated := [?p]\<rparr>"
  have run: "system_run rfc_headers Little declared_api (fresh_system configured_maps) ?s"
    using system_run.rewritten [OF overtaken_run, of "[]" ?f "[]"]
    by (simp add: overtaken_def fresh_system_def)
  have l: "local_net (settings_of (array_get declared_api configured_maps)) = (0x0A000000, 0xFFFFFFFF)"
    by (simp add: settings_of_def read_map_def declared_api_def declared_get_def configured_maps_def
        initial_maps_def entry.net_of_pack entry.mask_of_pack)
  have p: "sent_at_filter ?p = 0" "sent_at_rewrite ?p = 1" "treated_ctx ?p = sample_ctx sample_frame"
    "sys_sent ?s = [SetGatewayMacAddress 9]"
    by (simp_all add: finish_packet_def start_packet_def fresh_system_def overtaken_def)
  have "pkt (sample_ctx sample_frame) = sample_frame" by (simp add: sample_ctx_def)
  with packets_see_recent_settings [OF declared.array_maps_axioms configured_ok wire_format_rfc run,
      of ?p] p l
  show ?thesis
    by (intro exI [of _ ?s] exI [of _ ?p]) (auto simp: run Let_def settings_after_def)
qed

lemma keeps_local_net:
  "\<forall>n m. SetLocalNetAndMask n m \<notin> set msgs \<Longrightarrow> local_net (fold apply_message msgs c) = local_net c"
proof (induction msgs arbitrary: c)
  case (Cons msg msgs)
  then have "local_net (apply_message msg c) = local_net c" by (cases msg) auto
  with Cons show ?case by simp
qed simp

text \<open>
  C7: a freshly started daemon does not touch the traffic: once the actor has started on maps
  whose entries are zero, and until a local network is requested, every packet that is treated
  leaves the program as it came and none is forwarded.
\<close>

theorem fresh_daemon_inert:
  assumes "start_actor A opt = Inr (mode, stats, configs)" and "handles_ok H ok stats configs"
    and "distinct [local_net_and_mask_map configs, backend_net_and_mask_map configs,
      gateway_mac_address_map configs]"
    and "ok k" and "handle_get H k (local_net_and_mask_map configs) 0 = Some 0"
    and "wire_format N" and "system_run N e (actor_api H stats configs) (fresh_system k) s"
    and "p \<in> set (sys_treated s)"
    and "\<forall>n m. SetLocalNetAndMask n m \<notin> set (take (sent_at_filter p) (sys_sent s))"
  shows "\<exists>a. treated_result p = (Inr a, treated_ctx p) \<and> a \<noteq> XDP_TX"
proof -
  let ?K = "actor_api H stats configs"
  let ?after = "settings_after (settings_of (array_get ?K k)) (sys_sent s)"
  have K: "array_maps ?K ok"
    using assms(2,3) by (simp add: actor_api_maps inj_config_map)
  have "treated_current (settings_of (array_get ?K k)) (sys_sent s) p"
    using array_maps.system_run_ok [OF K assms(7) array_maps.fresh_ok [OF K assms(4)] assms(6)] assms(8)
    by (simp add: system_ok_def)
  then obtain i j where i: "i \<le> sent_at_filter p" and r: "treated_result p =
      (Inr (fst (settings_router ((?after j)\<lparr>local_net := local_net (?after i)\<rparr>) (pkt (treated_ctx p)))),
       (treated_ctx p)\<lparr>pkt := snd (settings_router ((?after j)\<lparr>local_net := local_net (?after i)\<rparr>)
         (pkt (treated_ctx p)))\<rparr>)"
    by (auto simp: treated_current_def recent_def Let_def)
  have "set (take i (sys_sent s)) \<subseteq> set (take (sent_at_filter p) (sys_sent s))"
    using i by (rule set_take_subset_set_take)
  then have none: "\<forall>n m. SetLocalNetAndMask n m \<notin> set (take i (sys_sent s))"
    using assms(9) by blast
  have "local_net (settings_of (array_get ?K k)) = (0, 0)"
    using assms(5)
    by (simp add: settings_of_def read_map_def actor_api_def net_part_def mask_part_def Let_def)
  with none have "local_net (?after i) = (0, 0)"
    by (simp add: settings_after_def keeps_local_net)
  then show ?thesis
    using settings_router_inert [of "(?after j)\<lparr>local_net := local_net (?after i)\<rparr>"
        "pkt (treated_ctx p)"] r
    by simp
qed

lemma sample_start: "start_actor sample_aya sample_opt = Inr (SKB_MODE, sample_stats, sample_configs)"
  unfolding start_actor_Inr [OF sample_takes_out] by (rule sample_loads)

theorem fresh_daemon_inert_witness:
  "\<exists>s p a. system_run rfc_headers Little (actor_api sample_handles sample_stats sample_configs)
       (fresh_system (\<lambda>_. 0, \<lambda>_. [0])) s \<and> p \<in> set (sys_treated s) \<and>
     treated_ctx p = sample_ctx sample_frame \<and>
     treated_result p = (Inr a, sample_ctx sample_frame) \<and> a \<noteq> XDP_TX"
proof -
  let ?K = "actor_api sample_handles sample_stats sample_configs"
  let ?s0 = "fresh_system (\<lambda>_. 0, \<lambda>_. [0])"
  let ?f = "start_packet ?s0 (sample_ctx sample_frame)"
  let ?s1 = "?s0\<lparr>sys_flights := [?f]\<rparr>"
  let ?p = "finish_packet rfc_headers Little ?K ?s1 ?f"
  let ?s2 = "?s1\<lparr>sys_flights := [], sys_treated := [?p]\<rparr>"
  have "system_run rfc_headers Little ?K ?s0 ?s1"
    using first_packet [OF sample_frame_ok, where s = ?s0]
    by (simp add: fresh_system_def)
  from system_run.rewritten [OF this, of "[]" ?f "[]"]
  have run: "system_run rfc_headers Little ?K ?s0 ?s2" by (simp add: fresh_system_def)
  have "\<exists>a. treated_result ?p = (Inr a, treated_ctx ?p) \<and> a \<noteq> XDP_TX"
    by (rule fresh_daemon_inert [OF sample_start sample_handles_ok _ _ _ wire_format_rfc run])
      (simp_all add: sample_configs_def sample_handles_def fresh_system_def)
  moreover have "treated_ctx ?p = sample_ctx sample_frame"
    by (simp add: finish_packet_def start_packet_def)
  ultimately show ?thesis
    using run by (intro exI [of _ ?s2] exI [of _ ?p]) auto
qed

text \<open>
  C8: the router catches up: from every state that it can reach the actor can empty the channel
  without another request, and from then on every packet is treated by the settings of all
  requests that were sent, in their order.
\<close>

theorem router_catches_up:
  assumes "array_maps K ok" and "ok k" and "wire_format N"
    and "system_run N e K (fresh_system k) s"
  shows "\<exists>t. system_run N e K (fresh_system k) (s\<lparr>sys_actor := t\<rparr>) \<and> inbox t = [] \<and> in_hand t = None \<and>
     (\<forall>x. ctx_ok x \<longrightarrow> udp_router N e (array_get K (maps t)) x =
       (let r = settings_router (fold apply_message (sys_sent s) (settings_of (array_get K k))) (pkt x)
        in (Inr (fst r), x\<lparr>pkt := snd r\<rparr>)))"
proof -
  obtain t where t: "system_run N e K (fresh_system k) (s\<lparr>sys_actor := t\<rparr>)" "pending t = []"
    "settings_of (array_get K (maps t)) =
       fold apply_message (sys_sent s) (settings_of (array_get K k))"
    using array_maps.system_catches_up [OF assms(1,4) array_maps.fresh_ok [OF assms(1,2)] assms(3)]
    by blast
  then show ?thesis
    using udp_router_settings [OF assms(3)]
    by (intro exI [of _ t]) (simp add: Let_def pending_def split: option.splits)
qed

theorem router_catches_up_witness:
  "\<exists>t :: declared_maps process. udp_router rfc_headers Big (array_get declared_api (maps t)) (sample_ctx sample_frame) =
     (let r = settings_router ((settings_of (array_get declared_api (initial_maps 1)))
        \<lparr>local_net := (1, 3)\<rparr>) (pkt (sample_ctx sample_frame))
      in (Inr (fst r), (sample_ctx sample_frame)\<lparr>pkt := snd r\<rparr>))"
proof -
  let ?s0 = "fresh_system (initial_maps 1)"
  let ?s1 = "?s0\<lparr>sys_actor := (sys_actor ?s0)\<lparr>inbox := inbox (sys_actor ?s0) @ [SetLocalNetAndMask 1 3]\<rparr>,
      sys_sent := sys_sent ?s0 @ [SetLocalNetAndMask 1 3]\<rparr>"
  have "system_run rfc_headers Big declared_api ?s0 ?s1"
    by (rule system_run.request [OF system_run.begin_run])
      (simp add: fresh_system_def new_process_def channel_capacity_def)
  from router_catches_up [OF declared.array_maps_axioms one_entry_initial wire_format_rfc this]
  obtain t :: "declared_maps process" where "\<forall>x. ctx_ok x \<longrightarrow> udp_router rfc_headers Big (array_get declared_api (maps t)) x =
      (let r = settings_router (fold apply_message (sys_sent ?s1)
         (settings_of (array_get declared_api (initial_maps 1)))) (pkt x)
       in (Inr (fst r), x\<lparr>pkt := snd r\<rparr>))"
    by blast
  then have t: "udp_router rfc_headers Big (array_get declared_api (maps t)) (sample_ctx sample_frame) =
      (let r = settings_router (fold apply_message (sys_sent ?s1)
         (settings_of (array_get declared_api (initial_maps 1)))) (pkt (sample_ctx sample_frame))
       in (Inr (fst r), (sample_ctx sample_frame)\<lparr>pkt := snd r\<rparr>))"
    using sample_frame_ok by blast
  have "fold apply_message (sys_sent ?s1) c = c\<lparr>local_net := (1, 3)\<rparr>" for c
    by (simp add: fresh_system_def)
  from t [unfolded this] show ?thesis by (rule exI)
qed

end
