(* ===== verification/Xdp_Safety.thy ===== *)
theory Xdp_Safety
  imports Forwarding
begin

text \<open>
  The access discipline of the XDP program, what the kernel's verifier checks: no read or write
  outside the frame, for any header layout whose fields lie inside their headers, and neither
  the length nor the place of the frame ever changes. The judgement \<open>stays\<close> says this of a
  packet operation; its rules follow the operations of theory Xdp.
\<close>

section \<open>The judgement\<close>

definition frame_at :: "u64 \<Rightarrow> u64 \<Rightarrow> nat \<Rightarrow> xdp_ctx \<Rightarrow> bool" where
  "frame_at d e n s \<longleftrightarrow> ctx_ok s \<and> ctx_data s = d \<and> ctx_data_end s = e \<and> length (pkt s) = n"

definition stays :: "u64 \<Rightarrow> u64 \<Rightarrow> nat \<Rightarrow> 'a xdp \<Rightarrow> bool" where
  "stays d e n m \<longleftrightarrow> (\<forall>s. frame_at d e n s \<longrightarrow> fst (m s) \<noteq> Inl Fault \<and> frame_at d e n (snd (m s)))"

named_theorems stays_rules \<open>the operations that stay in the frame\<close>

lemma staysI:
  assumes "\<And>s. frame_at d e n s \<Longrightarrow> fst (m s) \<noteq> Inl Fault \<and> frame_at d e n (snd (m s))"
  shows "stays d e n m"
  using assms by (simp add: stays_def)

lemma staysD:
  assumes "stays d e n m" and "frame_at d e n s" and "m s = (r, s')"
  shows "r \<noteq> Inl Fault" and "frame_at d e n s'"
  using assms unfolding stays_def by force+

lemma stays_ret [stays_rules]: "stays d e n (ret a)"
  by (simp add: stays_def ret_def)

lemma stays_if [stays_rules]:
  "(b \<Longrightarrow> stays d e n m) \<Longrightarrow> (\<not> b \<Longrightarrow> stays d e n m') \<Longrightarrow> stays d e n (if b then m else m')"
  by simp

lemma frame_at_overwrite:
  "frame_at d e n s \<Longrightarrow> i + length bs \<le> n \<Longrightarrow> frame_at d e n (s\<lparr>pkt := overwrite i bs (pkt s)\<rparr>)"
  by (auto simp: frame_at_def)

lemma unat_add_le: "unat (a + b :: u64) \<le> unat a + unat b"
  by (simp add: unat_word_ariths)

lemma stays_ptr [stays_rules]:
  assumes "unat off + unat len < 2 ^ 32"
    and "unat off + unat len \<le> n \<Longrightarrow> stays d e n (f (d + off))"
  shows "stays d e n (bind_xdp (ptr_at_mut len off) f)"
proof (rule staysI)
  fix s
  assume s: "frame_at d e n s"
  then have "ctx_ok s" by (simp add: frame_at_def)
  then show "fst (bind_xdp (ptr_at_mut len off) f s) \<noteq> Inl Fault \<and>
      frame_at d e n (snd (bind_xdp (ptr_at_mut len off) f s))"
    using s assms by (auto simp: bind_xdp_def ptr_at_mut_run frame_at_def stays_def)
qed

text \<open>A pointer into the frame, and a field of a header that a pointer was made for.\<close>

definition inside :: "u64 \<Rightarrow> nat \<Rightarrow> u64 \<Rightarrow> nat \<Rightarrow> bool" where
  "inside d n p k \<longleftrightarrow> unat (p - d) + k \<le> n"

lemma inside_ptr: "unat off + unat len \<le> n \<Longrightarrow> k \<le> unat len \<Longrightarrow> inside d n (d + off) k"
  by (simp add: inside_def)

lemma inside_word: "unat off + 4 \<le> n \<Longrightarrow> inside d n (d + off) 4"
  by (simp add: inside_def)

lemma inside_field:
  "unat off + unat len \<le> n \<Longrightarrow> unat fld + k \<le> unat len \<Longrightarrow> inside d n (d + off + fld) k"
  using unat_add_le [of off fld] by (simp add: inside_def add.assoc)

lemma stays_load [stays_rules]:
  assumes "inside d n p k" and "\<And>bs. length bs = k \<Longrightarrow> stays d e n (f bs)"
  shows "stays d e n (bind_xdp (load_bytes p k) f)"
proof (rule staysI)
  fix s
  assume s: "frame_at d e n s"
  then have run: "load_bytes p k s = (Inr (range_at (unat (p - d)) k (pkt s)), s)"
    using assms(1) by (auto simp: load_bytes_def frame_at_def inside_def Let_def)
  have "length (range_at (unat (p - d)) k (pkt s)) = k"
    using s assms(1) by (simp add: frame_at_def inside_def range_at_def)
  from assms(2) [OF this] s
  show "fst (bind_xdp (load_bytes p k) f s) \<noteq> Inl Fault \<and>
      frame_at d e n (snd (bind_xdp (load_bytes p k) f s))"
    by (simp add: bind_xdp_def run stays_def)
qed

lemma stays_store [stays_rules]:
  assumes "inside d n p (length bs)" and "stays d e n (f ())"
  shows "stays d e n (bind_xdp (store_bytes p bs) f)"
proof (rule staysI)
  fix s
  assume s: "frame_at d e n s"
  then have run: "store_bytes p bs s = (Inr (), s\<lparr>pkt := overwrite (unat (p - d)) bs (pkt s)\<rparr>)"
    using assms(1) by (auto simp: store_bytes_def frame_at_def inside_def Let_def)
  have "frame_at d e n (s\<lparr>pkt := overwrite (unat (p - d)) bs (pkt s)\<rparr>)"
    using frame_at_overwrite [OF s] assms(1) by (simp add: inside_def)
  with assms(2) show "fst (bind_xdp (store_bytes p bs) f s) \<noteq> Inl Fault \<and>
      frame_at d e n (snd (bind_xdp (store_bytes p bs) f s))"
    by (simp add: bind_xdp_def run stays_def)
qed

lemma bind_assoc: "bind_xdp (bind_xdp m f) g = bind_xdp m (\<lambda>a. bind_xdp (f a) g)"
  by (rule ext) (simp add: bind_xdp_def split: prod.split sum.split)

lemma bind_ret: "bind_xdp (ret a) f = f a"
  by (rule ext) (simp add: bind_xdp_def ret_def)

lemma stays_read [stays_rules]:
  "inside d n p 2 \<Longrightarrow> (\<And>w. stays d e n (f w)) \<Longrightarrow> stays d e n (bind_xdp (read_u16 en p) f)"
  "inside d n p 4 \<Longrightarrow> (\<And>w. stays d e n (g w)) \<Longrightarrow> stays d e n (bind_xdp (read_u32 en p) g)"
  by (simp_all add: read_u16_def read_u32_def bind_assoc bind_ret stays_load)

lemma stays_write [stays_rules]:
  "inside d n p 2 \<Longrightarrow> stays d e n (f ()) \<Longrightarrow> stays d e n (bind_xdp (write_u16 en p v) f)"
  "inside d n p 4 \<Longrightarrow> stays d e n (g ()) \<Longrightarrow> stays d e n (bind_xdp (write_u32 en p w) g)"
  by (simp_all add: write_u16_def write_u32_def stays_store)

section \<open>The program\<close>

text \<open>Every field lies inside its header, and the headers are not absurdly long.\<close>

definition layout_ok :: "net_types \<Rightarrow> bool" where
  "layout_ok N \<longleftrightarrow> unat (eth_len N) < 2 ^ 16 \<and> unat (ip_len N) < 2 ^ 16 \<and> unat (udp_len N) < 2 ^ 16 \<and>
     unat (eth_dst_addr N) + 6 \<le> unat (eth_len N) \<and> unat (eth_src_addr N) + 6 \<le> unat (eth_len N) \<and>
     unat (eth_ether_type N) + 2 \<le> unat (eth_len N) \<and> 20 \<le> unat (ip_len N) \<and>
     unat (ip_proto N) + 1 \<le> unat (ip_len N) \<and> unat (ip_check N) + 2 \<le> unat (ip_len N) \<and>
     unat (ip_src_addr N) + 4 \<le> unat (ip_len N) \<and> unat (ip_dst_addr N) + 4 \<le> unat (ip_len N) \<and>
     unat (udp_check N) + 2 \<le> unat (udp_len N)"

lemma wire_format_layout: "wire_format N \<Longrightarrow> layout_ok N"
  by (simp add: wire_format_def layout_ok_def)

lemma layout_fields:
  assumes "layout_ok N"
  shows "unat off + unat (eth_len N) \<le> n \<Longrightarrow> inside d n (d + off + eth_dst_addr N) 6"
    and "unat off + unat (eth_len N) \<le> n \<Longrightarrow> inside d n (d + off + eth_src_addr N) 6"
    and "unat off + unat (eth_len N) \<le> n \<Longrightarrow> inside d n (d + off + eth_ether_type N) 2"
    and "unat off + unat (ip_len N) \<le> n \<Longrightarrow> inside d n (d + off + ip_proto N) 1"
    and "unat off + unat (ip_len N) \<le> n \<Longrightarrow> inside d n (d + off + ip_check N) 2"
    and "unat off + unat (ip_len N) \<le> n \<Longrightarrow> inside d n (d + off + ip_src_addr N) 4"
    and "unat off + unat (ip_len N) \<le> n \<Longrightarrow> inside d n (d + off + ip_dst_addr N) 4"
    and "unat off + unat (ip_len N) \<le> n \<Longrightarrow> inside d n (d + off) 20"
    and "unat off + unat (udp_len N) \<le> n \<Longrightarrow> inside d n (d + off + udp_check N) 2"
  using assms unfolding layout_ok_def
  by (blast intro: inside_field inside_ptr)+

lemma layout_sums:
  assumes "layout_ok N"
  shows "unat 0 + unat (eth_len N) < 2 ^ 32" and "unat (eth_len N) + unat (ip_len N) < 2 ^ 32"
    and "unat (eth_len N + ip_len N) + unat (udp_len N) < 2 ^ 32"
    and "unat (eth_len N + ip_len N + udp_len N) + unat (4 :: u64) < 2 ^ 32"
  using assms unat_add_le [of "eth_len N" "ip_len N"] unat_add_le [of "eth_len N + ip_len N" "udp_len N"]
  unfolding layout_ok_def by auto

lemma stays_forward:
  assumes N: "layout_ok N"
  shows "stays d e n (try_forward_packet N en get)"
  unfolding try_forward_packet_def Let_def
  by (intro stays_rules layout_sums [OF N] layout_fields [OF N];
      simp add: layout_fields [OF N] layout_fields(1,2) [OF N, where off = 0, simplified] inside_word)

lemma stays_router:
  assumes N: "layout_ok N"
  shows "stays d e n (try_udp_router N en get)"
  unfolding try_udp_router_def Let_def
  by (intro stays_rules stays_forward [OF N] layout_sums [OF N] layout_fields [OF N];
      simp add: layout_fields [OF N] layout_fields(3) [OF N, where off = 0, simplified])

section \<open>Properties\<close>

text \<open>
  C3: the program is memory safe whatever the header layout of the crate is, as long as its
  fields lie inside their headers: on every packet it returns a verdict without ever reading or
  writing outside the frame, and the frame keeps its place and its length.
\<close>

theorem udp_router_memory_safe:
  assumes "layout_ok N" and "ctx_ok s" and "udp_router N e get s = (r, s')"
  shows "(\<exists>a. r = Inr a) \<and> ctx_ok s' \<and> ctx_data s' = ctx_data s \<and>
     ctx_data_end s' = ctx_data_end s \<and> length (pkt s') = length (pkt s)"
proof -
  obtain q t where q: "try_udp_router N e get s = (q, t)" by fastforce
  have "frame_at (ctx_data s) (ctx_data_end s) (length (pkt s)) s"
    using assms(2) by (simp add: frame_at_def)
  note stay = staysD [OF stays_router [OF assms(1)] this q]
  have "s' = t" and "\<exists>a. r = Inr a"
    using assms(3) q stay(1) by (auto simp: udp_router_def split: sum.splits xdp_exc.splits)
  with stay(2) show ?thesis by (auto simp: frame_at_def)
qed

text \<open>A layout with a longer link header (an 802.1Q tag), for the example.\<close>

definition tagged_headers :: net_types where
  "tagged_headers = rfc_headers\<lparr>eth_len := 18, eth_ether_type := 16\<rparr>"

theorem udp_router_memory_safe_witness:
  "\<exists>a s'. udp_router tagged_headers Big (\<lambda>_ _. None)
       \<lparr>ctx_data = 256, ctx_data_end = 260, pkt = [1, 2, 3, 4]\<rparr> = (Inr a, s') \<and> length (pkt s') = 4"
proof -
  let ?s = "\<lparr>ctx_data = 256, ctx_data_end = 260, pkt = [1, 2, 3, 4]\<rparr>"
  have N: "layout_ok tagged_headers" by (simp add: layout_ok_def tagged_headers_def rfc_headers_def)
  have s: "ctx_ok ?s" by (simp add: ctx_ok_def)
  obtain r s' where "udp_router tagged_headers Big (\<lambda>_ _. None) ?s = (r, s')" by fastforce
  with udp_router_memory_safe [OF N s this] show ?thesis by auto
qed

end
