(* ===== verification/Management.thy ===== *)
theory Management
  imports Prelude
begin

text \<open>
  The management protocol as the checked-in stubs define it
  (\<^verbatim>\<open>udp-router-protobuf/src/codegen/management.rs\<close>): the messages, the service trait, the
  server that dispatches a request by its path, and the client methods. The codec of prost and
  the gRPC layer of tonic are arguments; the interface \<open>grpc_link\<close> states what the stubs rely
  on when a client is connected to a server. \<open>'s\<close> is the state the handlers work on, \<open>'b\<close> an
  encoded message, \<open>'st\<close> tonic's \<^verbatim>\<open>Status\<close>.
\<close>

section \<open>Messages and their codecs\<close>

datatype get_stats_request = GetStatsRequest

record get_stats_response =
  resp_total_packets :: u64
  resp_client_to_server_packets :: u64
  resp_server_to_client_packets :: u64

record set_local_net_and_mask_request =
  local_req_net :: u32
  local_req_mask :: u32

record set_backend_net_and_mask_request =
  backend_req_net :: u32
  backend_req_mask :: u32

record set_gateway_mac_address_request =
  gateway_req_mac :: u64

record ('a, 'b, 'st) coder =
  encode :: "'a \<Rightarrow> 'b"
  decode :: "'b \<Rightarrow> 'st + 'a"

definition coder_ok :: "('a, 'b, 'st) coder \<Rightarrow> bool" where
  "coder_ok c \<longleftrightarrow> (\<forall>a. decode c (encode c a) = Inr a)"

text \<open>The derived \<^verbatim>\<open>prost::Message\<close> implementations.\<close>

record ('b, 'st) prost =
  get_stats_request_coder :: "(get_stats_request, 'b, 'st) coder"
  get_stats_response_coder :: "(get_stats_response, 'b, 'st) coder"
  set_local_coder :: "(set_local_net_and_mask_request, 'b, 'st) coder"
  set_backend_coder :: "(set_backend_net_and_mask_request, 'b, 'st) coder"
  set_gateway_coder :: "(set_gateway_mac_address_request, 'b, 'st) coder"
  empty_coder :: "(unit, 'b, 'st) coder"

section \<open>The service trait and the server\<close>

type_synonym ('s, 'st, 'a) outcome = "panic + (('st + 'a) \<times> 's)"

record ('s, 'st) router_service =
  svc_get_stats :: "'s \<Rightarrow> get_stats_request \<Rightarrow> ('s, 'st, get_stats_response) outcome"
  svc_set_local_net_and_mask :: "'s \<Rightarrow> set_local_net_and_mask_request \<Rightarrow> ('s, 'st, unit) outcome"
  svc_set_backend_net_and_mask :: "'s \<Rightarrow> set_backend_net_and_mask_request \<Rightarrow> ('s, 'st, unit) outcome"
  svc_set_gateway_mac_address :: "'s \<Rightarrow> set_gateway_mac_address_request \<Rightarrow> ('s, 'st, unit) outcome"

record ('t, 'e) router_service_server =
  inner :: 't
  accept_compression_encodings :: 'e
  send_compression_encodings :: 'e
  max_decoding_message_size :: "nat option"
  max_encoding_message_size :: "nat option"

text \<open>\<open>none\<close> is \<^verbatim>\<open>EnabledCompressionEncodings::default()\<close>, \<open>enable\<close> its method.\<close>

definition from_arc :: "'e \<Rightarrow> 't \<Rightarrow> ('t, 'e) router_service_server" where
  "from_arc none svc = \<lparr>inner = svc, accept_compression_encodings = none,
     send_compression_encodings = none, max_decoding_message_size = None,
     max_encoding_message_size = None\<rparr>"

definition new_server :: "'e \<Rightarrow> 't \<Rightarrow> ('t, 'e) router_service_server" where
  "new_server none svc = from_arc none svc"

definition accept_compressed ::
    "('e \<Rightarrow> 'x \<Rightarrow> 'e) \<Rightarrow> ('t, 'e) router_service_server \<Rightarrow> 'x \<Rightarrow> ('t, 'e) router_service_server" where
  "accept_compressed enable srv encoding =
     srv\<lparr>accept_compression_encodings := enable (accept_compression_encodings srv) encoding\<rparr>"

definition send_compressed ::
    "('e \<Rightarrow> 'x \<Rightarrow> 'e) \<Rightarrow> ('t, 'e) router_service_server \<Rightarrow> 'x \<Rightarrow> ('t, 'e) router_service_server" where
  "send_compressed enable srv encoding =
     srv\<lparr>send_compression_encodings := enable (send_compression_encodings srv) encoding\<rparr>"

definition set_max_decoding ::
    "('t, 'e) router_service_server \<Rightarrow> nat \<Rightarrow> ('t, 'e) router_service_server" where
  "set_max_decoding srv limit = srv\<lparr>max_decoding_message_size := Some limit\<rparr>"

definition set_max_encoding ::
    "('t, 'e) router_service_server \<Rightarrow> nat \<Rightarrow> ('t, 'e) router_service_server" where
  "set_max_encoding srv limit = srv\<lparr>max_encoding_message_size := Some limit\<rparr>"

text \<open>\<open>intercepted\<close> is tonic's \<^verbatim>\<open>InterceptedService::new\<close>.\<close>

definition server_with_interceptor ::
    "(('t, 'e) router_service_server \<Rightarrow> 'f \<Rightarrow> 'i) \<Rightarrow> 'e \<Rightarrow> 't \<Rightarrow> 'f \<Rightarrow> 'i" where
  "server_with_interceptor intercepted none svc interceptor =
     intercepted (new_server none svc) interceptor"

definition clone_server :: "('t, 'e) router_service_server \<Rightarrow> ('t, 'e) router_service_server" where
  "clone_server srv =
     \<lparr>inner = inner srv,
      accept_compression_encodings = accept_compression_encodings srv,
      send_compression_encodings = send_compression_encodings srv,
      max_decoding_message_size = max_decoding_message_size srv,
      max_encoding_message_size = max_encoding_message_size srv\<rparr>"

datatype 'a poll = Ready 'a | Pending

definition poll_ready :: "('t, 'e) router_service_server \<Rightarrow> ('infallible + unit) poll" where
  "poll_ready srv = Ready (Inr ())"

text \<open>
  The settings are independent of each other and of the service: encodings accumulate, of the
  limits the last one counts, and a clone has them all.
\<close>

lemma server_settings:
  "clone_server srv = srv"
  "accept_compressed enable srv x = srv\<lparr>accept_compression_encodings :=
     accept_compression_encodings (accept_compressed enable srv x)\<rparr>"
  "accept_compression_encodings (fold (\<lambda>x srv. accept_compressed enable srv x) xs srv) =
     fold (\<lambda>x e. enable e x) xs (accept_compression_encodings srv)"
  "send_compression_encodings (fold (\<lambda>x srv. send_compressed enable srv x) xs srv) =
     fold (\<lambda>x e. enable e x) xs (send_compression_encodings srv)"
  "set_max_decoding (set_max_encoding (set_max_decoding srv k) l) n =
     set_max_encoding (set_max_decoding srv n) l"
  by (induction xs arbitrary: srv)
    (simp_all add: clone_server_def accept_compressed_def send_compressed_def set_max_decoding_def
      set_max_encoding_def)

text \<open>
  What \<^verbatim>\<open>call\<close> uses of http and tonic: the path of a request, \<^verbatim>\<open>Grpc::unary\<close> with the
  compression and size settings, a response with an empty body and given headers, and the
  constants of these headers. A unary method takes and returns encoded messages.
\<close>

record ('b, 'st, 'e, 'q, 'p, 's) tonic_server =
  uri_path :: "'q \<Rightarrow> string"
  grpc_unary :: "'e \<Rightarrow> 'e \<Rightarrow> nat option \<Rightarrow> nat option \<Rightarrow> ('s \<Rightarrow> 'b \<Rightarrow> ('s, 'st, 'b) outcome) \<Rightarrow>
    'q \<Rightarrow> 's \<Rightarrow> panic + ('p \<times> 's)"
  empty_response :: "(string \<times> string) list \<Rightarrow> 'p"
  GRPC_STATUS :: string
  CODE_UNIMPLEMENTED :: string
  CONTENT_TYPE :: string
  GRPC_CONTENT_TYPE :: string

text \<open>
  A service structure with its codec: its \<^verbatim>\<open>call\<close> runs the handler; before and after it,
  tonic's \<^verbatim>\<open>Grpc::unary\<close> decodes the request, answering a failure with the decoder's
  status, and encodes the answer.
\<close>

definition unary_method :: "('a, 'b, 'st) coder \<Rightarrow> ('c, 'b, 'st) coder \<Rightarrow>
    ('s \<Rightarrow> 'a \<Rightarrow> ('s, 'st, 'c) outcome) \<Rightarrow> 's \<Rightarrow> 'b \<Rightarrow> ('s, 'st, 'b) outcome" where
  "unary_method req_coder resp_coder handler s body =
     (case decode req_coder body of
        Inl status \<Rightarrow> Inr (Inl status, s)
      | Inr request \<Rightarrow> and_then (handler s request) (\<lambda>(r, s).
          Inr (case r of Inl status \<Rightarrow> Inl status | Inr a \<Rightarrow> Inr (encode resp_coder a), s)))"

definition run_unary :: "('b, 'st, 'e, 'q, 'p, 's) tonic_server \<Rightarrow> ('t, 'e) router_service_server \<Rightarrow>
    ('s \<Rightarrow> 'b \<Rightarrow> ('s, 'st, 'b) outcome) \<Rightarrow> 'q \<Rightarrow> 's \<Rightarrow> panic + ('p \<times> 's)" where
  "run_unary T srv method req s =
     grpc_unary T (accept_compression_encodings srv) (send_compression_encodings srv)
       (max_decoding_message_size srv) (max_encoding_message_size srv) method req s"

text \<open>The arms of \<^verbatim>\<open>call\<close>, each with its service structure and codec.\<close>

definition get_stats_arm :: "('b, 'st, 'e, 'q, 'p, 's) tonic_server \<Rightarrow> ('b, 'st) prost \<Rightarrow>
    (('s, 'st) router_service, 'e) router_service_server \<Rightarrow> 'q \<Rightarrow> 's \<Rightarrow> panic + ('p \<times> 's)" where
  "get_stats_arm T P srv req s =
     run_unary T srv (unary_method (get_stats_request_coder P) (get_stats_response_coder P) (svc_get_stats (inner srv))) req s"

definition set_local_arm :: "('b, 'st, 'e, 'q, 'p, 's) tonic_server \<Rightarrow> ('b, 'st) prost \<Rightarrow>
    (('s, 'st) router_service, 'e) router_service_server \<Rightarrow> 'q \<Rightarrow> 's \<Rightarrow> panic + ('p \<times> 's)" where
  "set_local_arm T P srv req s =
     run_unary T srv (unary_method (set_local_coder P) (empty_coder P) (svc_set_local_net_and_mask (inner srv))) req s"

definition set_backend_arm :: "('b, 'st, 'e, 'q, 'p, 's) tonic_server \<Rightarrow> ('b, 'st) prost \<Rightarrow>
    (('s, 'st) router_service, 'e) router_service_server \<Rightarrow> 'q \<Rightarrow> 's \<Rightarrow> panic + ('p \<times> 's)" where
  "set_backend_arm T P srv req s =
     run_unary T srv (unary_method (set_backend_coder P) (empty_coder P) (svc_set_backend_net_and_mask (inner srv))) req s"

definition set_gateway_arm :: "('b, 'st, 'e, 'q, 'p, 's) tonic_server \<Rightarrow> ('b, 'st) prost \<Rightarrow>
    (('s, 'st) router_service, 'e) router_service_server \<Rightarrow> 'q \<Rightarrow> 's \<Rightarrow> panic + ('p \<times> 's)" where
  "set_gateway_arm T P srv req s =
     run_unary T srv (unary_method (set_gateway_coder P) (empty_coder P) (svc_set_gateway_mac_address (inner srv))) req s"

definition unimplemented_arm :: "('b, 'st, 'e, 'q, 'p, 's) tonic_server \<Rightarrow> 's \<Rightarrow> panic + ('p \<times> 's)" where
  "unimplemented_arm T s =
     Inr (empty_response T [(GRPC_STATUS T, CODE_UNIMPLEMENTED T),
                            (CONTENT_TYPE T, GRPC_CONTENT_TYPE T)], s)"

definition server_call :: "('b, 'st, 'e, 'q, 'p, 's) tonic_server \<Rightarrow> ('b, 'st) prost \<Rightarrow>
    (('s, 'st) router_service, 'e) router_service_server \<Rightarrow> 'q \<Rightarrow> 's \<Rightarrow> panic + ('p \<times> 's)" where
  "server_call T P srv req s =
     (let path = uri_path T req in
      if path = ''/management.RouterService/GetStats'' then get_stats_arm T P srv req s
      else if path = ''/management.RouterService/SetLocalNetAndMask'' then set_local_arm T P srv req s
      else if path = ''/management.RouterService/SetBackendNetAndMask'' then set_backend_arm T P srv req s
      else if path = ''/management.RouterService/SetGatewayMacAddress'' then set_gateway_arm T P srv req s
      else unimplemented_arm T s)"

lemmas arm_defs = get_stats_arm_def set_local_arm_def set_backend_arm_def set_gateway_arm_def
  unimplemented_arm_def

definition SERVICE_NAME :: string where
  "SERVICE_NAME = ''management.RouterService''"

section \<open>The client\<close>

text \<open>
  What the client methods use of tonic: readiness, \<^verbatim>\<open>Status::unknown\<close>, the text of an error,
  and \<^verbatim>\<open>unary\<close> with a path, the \<^verbatim>\<open>GrpcMethod\<close> extension and an encoded message.
\<close>

record ('b, 'st, 'err, 's) tonic_client =
  client_ready :: "'s \<Rightarrow> ('err + unit) \<times> 's"
  status_unknown :: "string \<Rightarrow> 'st"
  error_text :: "'err \<Rightarrow> string"
  client_unary :: "string \<Rightarrow> string \<times> string \<Rightarrow> 'b \<Rightarrow> 's \<Rightarrow> ('s, 'st, 'b) outcome"

text \<open>
  Connecting: an endpoint is made from the destination, connected, and wrapped into a client
  (\<^verbatim>\<open>Grpc::new\<close>); \<open>'e\<close> is the transport's error.
\<close>

record ('d, 'ep, 'ch, 'e, 'c, 's) tonic_transport =
  endpoint_new :: "'d \<Rightarrow> 'e + 'ep"
  endpoint_connect :: "'ep \<Rightarrow> 's \<Rightarrow> ('e + 'ch) \<times> 's"
  grpc_new :: "'ch \<Rightarrow> 'c"

definition client_new :: "('d, 'ep, 'ch, 'e, 'c, 's) tonic_transport \<Rightarrow> 'ch \<Rightarrow> 'c" where
  "client_new N conn = grpc_new N conn"

definition client_connect ::
    "('d, 'ep, 'ch, 'e, 'c, 's) tonic_transport \<Rightarrow> 'd \<Rightarrow> 's \<Rightarrow> ('e + 'c) \<times> 's" where
  "client_connect N dst s =
     (case endpoint_new N dst of
        Inl e \<Rightarrow> (Inl e, s)
      | Inr ep \<Rightarrow> (case endpoint_connect N ep s of
          (Inl e, s) \<Rightarrow> (Inl e, s)
        | (Inr conn, s) \<Rightarrow> (Inr (client_new N conn), s)))"

text \<open>
  The other constructors and the settings hand on to tonic's client \<^verbatim>\<open>Grpc\<close>, which keeps them.
\<close>

record ('c, 'ch, 'ich, 'uri, 'f, 'x) tonic_grpc =
  grpc_with_origin :: "'ch \<Rightarrow> 'uri \<Rightarrow> 'c"
  intercepted_channel :: "'ch \<Rightarrow> 'f \<Rightarrow> 'ich"
  grpc_send_compressed :: "'c \<Rightarrow> 'x \<Rightarrow> 'c"
  grpc_accept_compressed :: "'c \<Rightarrow> 'x \<Rightarrow> 'c"
  grpc_max_decoding :: "'c \<Rightarrow> nat \<Rightarrow> 'c"
  grpc_max_encoding :: "'c \<Rightarrow> nat \<Rightarrow> 'c"

definition client_with_origin :: "('c, 'ch, 'ich, 'uri, 'f, 'x) tonic_grpc \<Rightarrow> 'ch \<Rightarrow> 'uri \<Rightarrow> 'c" where
  "client_with_origin G conn origin = grpc_with_origin G conn origin"

definition client_with_interceptor :: "('d, 'ep, 'ich, 'e, 'c, 's) tonic_transport \<Rightarrow>
    ('c, 'ch, 'ich, 'uri, 'f, 'x) tonic_grpc \<Rightarrow> 'ch \<Rightarrow> 'f \<Rightarrow> 'c" where
  "client_with_interceptor N G conn interceptor = client_new N (intercepted_channel G conn interceptor)"

definition client_send_compressed :: "('c, 'ch, 'ich, 'uri, 'f, 'x) tonic_grpc \<Rightarrow> 'c \<Rightarrow> 'x \<Rightarrow> 'c" where
  "client_send_compressed G client encoding = grpc_send_compressed G client encoding"

definition client_accept_compressed :: "('c, 'ch, 'ich, 'uri, 'f, 'x) tonic_grpc \<Rightarrow> 'c \<Rightarrow> 'x \<Rightarrow> 'c" where
  "client_accept_compressed G client encoding = grpc_accept_compressed G client encoding"

definition client_max_decoding :: "('c, 'ch, 'ich, 'uri, 'f, 'x) tonic_grpc \<Rightarrow> 'c \<Rightarrow> nat \<Rightarrow> 'c" where
  "client_max_decoding G client limit = grpc_max_decoding G client limit"

definition client_max_encoding :: "('c, 'ch, 'ich, 'uri, 'f, 'x) tonic_grpc \<Rightarrow> 'c \<Rightarrow> nat \<Rightarrow> 'c" where
  "client_max_encoding G client limit = grpc_max_encoding G client limit"

text \<open>The body the four methods share; they differ in the path, the method name and the types.\<close>

definition client_method :: "('b, 'st, 'err, 's) tonic_client \<Rightarrow> ('a, 'b, 'st) coder \<Rightarrow>
    ('c, 'b, 'st) coder \<Rightarrow> string \<Rightarrow> string \<times> string \<Rightarrow> 'a \<Rightarrow> 's \<Rightarrow> ('s, 'st, 'c) outcome" where
  "client_method C req_coder resp_coder path grpc_method request s =
     (case client_ready C s of
        (Inl e, s) \<Rightarrow> Inr (Inl (status_unknown C (''Service was not ready: '' @ error_text C e)), s)
      | (Inr _, s) \<Rightarrow>
          and_then (client_unary C path grpc_method (encode req_coder request) s) (\<lambda>(r, s).
          Inr (case r of Inl status \<Rightarrow> Inl status | Inr body \<Rightarrow> decode resp_coder body, s)))"

definition client_get_stats ::
    "('b, 'st, 'err, 's) tonic_client \<Rightarrow> ('b, 'st) prost \<Rightarrow> get_stats_request \<Rightarrow> 's \<Rightarrow>
     ('s, 'st, get_stats_response) outcome" where
  "client_get_stats C P =
     client_method C (get_stats_request_coder P) (get_stats_response_coder P)
       ''/management.RouterService/GetStats'' (''management.RouterService'', ''GetStats'')"

definition client_set_local_net_and_mask ::
    "('b, 'st, 'err, 's) tonic_client \<Rightarrow> ('b, 'st) prost \<Rightarrow> set_local_net_and_mask_request \<Rightarrow> 's \<Rightarrow>
     ('s, 'st, unit) outcome" where
  "client_set_local_net_and_mask C P =
     client_method C (set_local_coder P) (empty_coder P)
       ''/management.RouterService/SetLocalNetAndMask''
       (''management.RouterService'', ''SetLocalNetAndMask'')"

definition client_set_backend_net_and_mask ::
    "('b, 'st, 'err, 's) tonic_client \<Rightarrow> ('b, 'st) prost \<Rightarrow> set_backend_net_and_mask_request \<Rightarrow> 's \<Rightarrow>
     ('s, 'st, unit) outcome" where
  "client_set_backend_net_and_mask C P =
     client_method C (set_backend_coder P) (empty_coder P)
       ''/management.RouterService/SetBackendNetAndMask''
       (''management.RouterService'', ''SetBackendNetAndMask'')"

definition client_set_gateway_mac_address ::
    "('b, 'st, 'err, 's) tonic_client \<Rightarrow> ('b, 'st) prost \<Rightarrow> set_gateway_mac_address_request \<Rightarrow> 's \<Rightarrow>
     ('s, 'st, unit) outcome" where
  "client_set_gateway_mac_address C P =
     client_method C (set_gateway_coder P) (empty_coder P)
       ''/management.RouterService/SetGatewayMacAddress''
       (''management.RouterService'', ''SetGatewayMacAddress'')"

section \<open>A client connected to a server\<close>

text \<open>
  The codecs round-trip; a ready client's \<^verbatim>\<open>unary\<close> hands the server a request with its path
  and message and returns what the server's response carries; and \<^verbatim>\<open>Grpc::unary\<close> with the
  default settings answers with the result of the method.
\<close>

locale grpc_link =
  fixes T :: "('b, 'st, 'e, 'q, 'p, 's) tonic_server"
    and P :: "('b, 'st) prost"
    and C :: "('b, 'st, 'err, 's) tonic_client"
    and none :: 'e
    and svc :: "('s, 'st) router_service"
    and request :: "string \<Rightarrow> 'b \<Rightarrow> 'q"
    and respond :: "'st + 'b \<Rightarrow> 'p"
    and result :: "'p \<Rightarrow> 'st + 'b"
  assumes codecs: "coder_ok (get_stats_request_coder P)" "coder_ok (get_stats_response_coder P)"
      "coder_ok (set_local_coder P)" "coder_ok (set_backend_coder P)"
      "coder_ok (set_gateway_coder P)" "coder_ok (empty_coder P)"
    and path_request: "uri_path T (request path body) = path"
    and unary_default: "grpc_unary T none none None None m (request path body) s =
      and_then (m s body) (\<lambda>(r, s). Inr (respond r, s))"
    and result_respond: "result (respond r) = r"
    and ready: "client_ready C s = (Inr (), s)"
    and unary_server: "client_unary C path ext body s =
      and_then (server_call T P (new_server none svc) (request path body) s)
        (\<lambda>(p, s). Inr (result p, s))"
begin

lemma decode_encode:
  "decode (get_stats_request_coder P) (encode (get_stats_request_coder P) q) = Inr q"
  "decode (get_stats_response_coder P) (encode (get_stats_response_coder P) r) = Inr r"
  "decode (set_local_coder P) (encode (set_local_coder P) l) = Inr l"
  "decode (set_backend_coder P) (encode (set_backend_coder P) b) = Inr b"
  "decode (set_gateway_coder P) (encode (set_gateway_coder P) g) = Inr g"
  "decode (empty_coder P) (encode (empty_coder P) u) = Inr u"
  using codecs by (simp_all add: coder_ok_def)

lemma and_then_unary:
  assumes "\<And>a. decode resp (encode resp a) = Inr a"
  shows "and_then (and_then (and_then m (\<lambda>(r, s). Inr (case r of Inl st \<Rightarrow> Inl st
       | Inr a \<Rightarrow> Inr (encode resp a), s))) (\<lambda>(r, s). Inr (respond r, s)))
       (\<lambda>(p, s). Inr (case result p of Inl st \<Rightarrow> Inl st | Inr body \<Rightarrow> decode resp body, s)) = m"
  by (cases m) (auto simp: result_respond assms split: sum.splits prod.splits)

lemma and_then_assoc:
  "and_then (and_then r f) g = and_then r (\<lambda>a. and_then (f a) g)"
  by (cases r) simp_all

text \<open>Each client method is the server's handler of the same name.\<close>

lemma method_reaches_handler:
  assumes path: "server_call T P (new_server none svc) (request path (encode cq q)) s =
      run_unary T (new_server none svc) (unary_method cq cr handler) (request path (encode cq q)) s"
    and "\<And>a. decode cq (encode cq a) = Inr a" and "\<And>a. decode cr (encode cr a) = Inr a"
  shows "client_method C cq cr path ext q s = handler s q"
proof -
  have "server_call T P (new_server none svc) (request path (encode cq q)) s =
      and_then (and_then (handler s q) (\<lambda>(r, s). Inr (case r of Inl st \<Rightarrow> Inl st
       | Inr a \<Rightarrow> Inr (encode cr a), s))) (\<lambda>(r, s). Inr (respond r, s))"
    unfolding path
    by (simp add: run_unary_def new_server_def from_arc_def unary_default unary_method_def assms(2))
  then have "client_method C cq cr path ext q s =
      and_then (and_then (and_then (handler s q) (\<lambda>(r, s). Inr (case r of Inl st \<Rightarrow> Inl st
       | Inr a \<Rightarrow> Inr (encode cr a), s))) (\<lambda>(r, s). Inr (respond r, s)))
       (\<lambda>(p, s). Inr (case result p of Inl st \<Rightarrow> Inl st | Inr body \<Rightarrow> decode cr body, s))"
    by (simp add: client_method_def ready unary_server and_then_assoc split_def)
  also have "\<dots> = handler s q" by (rule and_then_unary) (rule assms(3))
  finally show ?thesis .
qed

lemma client_methods:
  "client_get_stats C P q s = svc_get_stats svc s q"
  "client_set_local_net_and_mask C P l s = svc_set_local_net_and_mask svc s l"
  "client_set_backend_net_and_mask C P b s = svc_set_backend_net_and_mask svc s b"
  "client_set_gateway_mac_address C P g s = svc_set_gateway_mac_address svc s g"
  unfolding client_get_stats_def client_set_local_net_and_mask_def
    client_set_backend_net_and_mask_def client_set_gateway_mac_address_def
  by (rule method_reaches_handler;
      simp add: server_call_def arm_defs path_request new_server_def from_arc_def decode_encode)+

text \<open>A request that no method takes, or whose message does not decode, reaches no handler.\<close>

lemma rejected_requests:
  "decode (get_stats_request_coder P) body = Inl status \<Longrightarrow>
     server_call T P (new_server none svc) (request ''/management.RouterService/GetStats'' body) s =
       Inr (respond (Inl status), s)"
  "decode (set_local_coder P) body = Inl status \<Longrightarrow>
     server_call T P (new_server none svc)
       (request ''/management.RouterService/SetLocalNetAndMask'' body) s =
       Inr (respond (Inl status), s)"
  "decode (set_backend_coder P) body = Inl status \<Longrightarrow>
     server_call T P (new_server none svc)
       (request ''/management.RouterService/SetBackendNetAndMask'' body) s =
       Inr (respond (Inl status), s)"
  "decode (set_gateway_coder P) body = Inl status \<Longrightarrow>
     server_call T P (new_server none svc)
       (request ''/management.RouterService/SetGatewayMacAddress'' body) s =
       Inr (respond (Inl status), s)"
  by (simp_all add: server_call_def arm_defs path_request run_unary_def new_server_def from_arc_def
      unary_default unary_method_def)

end

end
