(* ===== verification/Management_Server.thy ===== *)
theory Management_Server
  imports Management Actor_System
begin

text \<open>
  The management service of the router (\<^verbatim>\<open>udp-router/src/server.rs\<close>): the handlers of
  \<^verbatim>\<open>ManagementServer\<close> over the actor's handle, the service built from them, and an in-memory
  connection of a client to it, on which the interface of the stubs is interpreted.
\<close>

section \<open>The handlers\<close>

record 's management_server =
  bpf :: "'s runtime"
  server_bind_address :: string
  server_port :: u32

definition new_management_server :: "'s runtime \<Rightarrow> string \<Rightarrow> u32 \<Rightarrow> 's management_server" where
  "new_management_server handle address port_nr =
     \<lparr>bpf = handle, server_bind_address = address, server_port = port_nr\<rparr>"

definition server_get_stats ::
    "'s management_server \<Rightarrow> 's \<Rightarrow> get_stats_request \<Rightarrow> ('s, 'st, get_stats_response) outcome" where
  "server_get_stats M s req =
     and_then (handle_get_router_stats (bpf M) s) (\<lambda>(stats, s).
     Inr (Inr \<lparr>resp_total_packets = total_packets stats,
               resp_client_to_server_packets = client_to_server_packets stats,
               resp_server_to_client_packets = server_to_client_packets stats\<rparr>, s))"

definition server_set_local_net_and_mask ::
    "'s management_server \<Rightarrow> 's \<Rightarrow> set_local_net_and_mask_request \<Rightarrow> ('s, 'st, unit) outcome" where
  "server_set_local_net_and_mask M s req =
     and_then (handle_set_local_net_mask (bpf M) s (local_req_net req) (local_req_mask req))
       (\<lambda>s. Inr (Inr (), s))"

definition server_set_backend_net_and_mask ::
    "'s management_server \<Rightarrow> 's \<Rightarrow> set_backend_net_and_mask_request \<Rightarrow> ('s, 'st, unit) outcome" where
  "server_set_backend_net_and_mask M s req =
     and_then (handle_set_backend_net_mask (bpf M) s (backend_req_net req) (backend_req_mask req))
       (\<lambda>s. Inr (Inr (), s))"

definition server_set_gateway_mac_address ::
    "'s management_server \<Rightarrow> 's \<Rightarrow> set_gateway_mac_address_request \<Rightarrow> ('s, 'st, unit) outcome" where
  "server_set_gateway_mac_address M s req =
     and_then (handle_set_gateway_mac_address (bpf M) s (gateway_req_mac req))
       (\<lambda>s. Inr (Inr (), s))"

definition management_service :: "'s management_server \<Rightarrow> ('s, 'st) router_service" where
  "management_service M =
     \<lparr>svc_get_stats = server_get_stats M,
      svc_set_local_net_and_mask = server_set_local_net_and_mask M,
      svc_set_backend_net_and_mask = server_set_backend_net_and_mask M,
      svc_set_gateway_mac_address = server_set_gateway_mac_address M\<rparr>"

section \<open>An in-memory connection\<close>

text \<open>
  Messages travel as themselves, a request is its path and message, and a response carries the
  result of a method or only headers.
\<close>

datatype loop_body =
    Stats_Request get_stats_request
  | Stats_Response get_stats_response
  | Local_Request set_local_net_and_mask_request
  | Backend_Request set_backend_net_and_mask_request
  | Gateway_Request set_gateway_mac_address_request
  | Empty

datatype loop_response = Carries "string + loop_body" | Headers "(string \<times> string) list"

definition loop_prost :: "(loop_body, string) prost" where
  "loop_prost = \<lparr>
     get_stats_request_coder = \<lparr>encode = Stats_Request,
       decode = (\<lambda>b. case b of Stats_Request q \<Rightarrow> Inr q | _ \<Rightarrow> Inl ''malformed message'')\<rparr>,
     get_stats_response_coder = \<lparr>encode = Stats_Response,
       decode = (\<lambda>b. case b of Stats_Response q \<Rightarrow> Inr q | _ \<Rightarrow> Inl ''malformed message'')\<rparr>,
     set_local_coder = \<lparr>encode = Local_Request,
       decode = (\<lambda>b. case b of Local_Request q \<Rightarrow> Inr q | _ \<Rightarrow> Inl ''malformed message'')\<rparr>,
     set_backend_coder = \<lparr>encode = Backend_Request,
       decode = (\<lambda>b. case b of Backend_Request q \<Rightarrow> Inr q | _ \<Rightarrow> Inl ''malformed message'')\<rparr>,
     set_gateway_coder = \<lparr>encode = Gateway_Request,
       decode = (\<lambda>b. case b of Gateway_Request q \<Rightarrow> Inr q | _ \<Rightarrow> Inl ''malformed message'')\<rparr>,
     empty_coder = \<lparr>encode = (\<lambda>_. Empty),
       decode = (\<lambda>b. case b of Empty \<Rightarrow> Inr () | _ \<Rightarrow> Inl ''malformed message'')\<rparr>\<rparr>"

definition loop_tonic ::
    "(loop_body, string, unit, string \<times> loop_body, loop_response, 's) tonic_server" where
  "loop_tonic = \<lparr>uri_path = fst,
     grpc_unary = (\<lambda>_ _ _ _ method req s.
       and_then (method s (snd req)) (\<lambda>(r, s). Inr (Carries r, s))),
     empty_response = Headers, GRPC_STATUS = ''grpc-status'', CODE_UNIMPLEMENTED = ''12'',
     CONTENT_TYPE = ''content-type'', GRPC_CONTENT_TYPE = ''application/grpc''\<rparr>"

fun loop_result :: "loop_response \<Rightarrow> string + loop_body" where
  "loop_result (Carries r) = r"
| "loop_result (Headers hs) = Inl ''unimplemented''"

definition loop_client ::
    "('s, string) router_service \<Rightarrow> (loop_body, string, string, 's) tonic_client" where
  "loop_client svc = \<lparr>client_ready = (\<lambda>s. (Inr (), s)), status_unknown = (\<lambda>msg. msg),
     error_text = (\<lambda>e. e),
     client_unary = (\<lambda>path ext body s.
       and_then (server_call loop_tonic loop_prost (new_server () svc) (path, body) s)
         (\<lambda>(p, s). Inr (loop_result p, s)))\<rparr>"

interpretation loop: grpc_link loop_tonic loop_prost "loop_client (management_service M)" "()"
    "management_service M" Pair Carries loop_result
  for M :: "'s management_server"
  by unfold_locales
    (simp_all add: coder_ok_def loop_prost_def loop_tonic_def loop_client_def)

section \<open>A client of the router\<close>

context actor_link begin

text \<open>The handlers do what the handle's operations do.\<close>

lemma handlers_ok:
  assumes M: "bpf M = R" and s: "inv s"
  shows "\<exists>t. server_set_local_net_and_mask M s l = Inr (Inr (), t) \<and> inv t \<and> stats t = stats s \<and>
      view t = (view s)\<lparr>local_net := (local_req_net l, local_req_mask l)\<rparr>" (is ?L)
    and "\<exists>t. server_set_backend_net_and_mask M s b = Inr (Inr (), t) \<and> inv t \<and> stats t = stats s \<and>
      view t = (view s)\<lparr>backend_net := (backend_req_net b, backend_req_mask b)\<rparr>" (is ?B)
    and "\<exists>t. server_set_gateway_mac_address M s g = Inr (Inr (), t) \<and> inv t \<and> stats t = stats s \<and>
      view t = (view s)\<lparr>gateway_mac := gateway_req_mac g\<rparr>" (is ?G)
    and "\<exists>t. server_get_stats M s q = Inr (Inr
        \<lparr>resp_total_packets = total_packets (stats s),
         resp_client_to_server_packets = client_to_server_packets (stats s),
         resp_server_to_client_packets = server_to_client_packets (stats s)\<rparr>, t) \<and>
      inv t \<and> stats t = stats s \<and> view t = view s" (is ?S)
proof -
  show ?L using set_ok(1) [OF s, of "local_req_net l" "local_req_mask l"] M
    by (auto simp: server_set_local_net_and_mask_def)
  show ?B using set_ok(2) [OF s, of "backend_req_net b" "backend_req_mask b"] M
    by (auto simp: server_set_backend_net_and_mask_def)
  show ?G using set_ok(3) [OF s, of "gateway_req_mac g"] M
    by (auto simp: server_set_gateway_mac_address_def)
  show ?S using get_ok [OF s] M by (auto simp: server_get_stats_def)
qed

end

section \<open>Properties\<close>

text \<open>A server on two CPUs, for the examples.\<close>

definition sample_server :: "declared_maps process management_server" where
  "sample_server = new_management_server (actor_runtime Release declared_api) ''127.0.0.1'' 8888"

definition sample_process :: "declared_maps process" where
  "sample_process = new_process (initial_maps 2)"

lemma sample_process_ok: "process_ok declared_api one_entry sample_process"
  by (simp add: sample_process_def)

text \<open>
  C15: the client stubs and the dispatching server agree: over a link, every client method is
  the handler of the same name, result, errors and change of state included.
\<close>

theorem client_calls_reach_handlers:
  assumes "grpc_link T P C none svc request respond result"
  shows "client_get_stats C P q s = svc_get_stats svc s q \<and>
     client_set_local_net_and_mask C P l s = svc_set_local_net_and_mask svc s l \<and>
     client_set_backend_net_and_mask C P b s = svc_set_backend_net_and_mask svc s b \<and>
     client_set_gateway_mac_address C P g s = svc_set_gateway_mac_address svc s g"
  using grpc_link.client_methods [OF assms] by simp

theorem client_calls_reach_handlers_witness:
  "client_set_gateway_mac_address (loop_client (management_service sample_server)) loop_prost
     \<lparr>gateway_req_mac = 5\<rparr> sample_process =
   server_set_gateway_mac_address sample_server sample_process \<lparr>gateway_req_mac = 5\<rparr>"
  using client_calls_reach_handlers [OF loop.grpc_link_axioms [of sample_server],
      of GetStatsRequest sample_process undefined undefined "\<lparr>gateway_req_mac = 5\<rparr>"]
  by (simp add: management_service_def)

text \<open>
  C31: a request changes no state unless it is one of the service's methods and its message
  decodes: an unknown path is answered with the headers of the code unimplemented, an
  undecodable message with the decoder's status.
\<close>

theorem rejected_request_keeps_state:
  assumes "grpc_link T P C none svc request respond result"
  shows "(path \<notin> (\<lambda>m. ''/'' @ SERVICE_NAME @ ''/'' @ m) `
        {''GetStats'', ''SetLocalNetAndMask'', ''SetBackendNetAndMask'', ''SetGatewayMacAddress''} \<longrightarrow>
      server_call T P (new_server none svc) (request path body) s =
        Inr (empty_response T [(GRPC_STATUS T, CODE_UNIMPLEMENTED T),
                               (CONTENT_TYPE T, GRPC_CONTENT_TYPE T)], s)) \<and>
     (path = ''/management.RouterService/GetStats'' \<and> decode (get_stats_request_coder P) body = Inl e \<or>
      path = ''/management.RouterService/SetLocalNetAndMask'' \<and> decode (set_local_coder P) body = Inl e \<or>
      path = ''/management.RouterService/SetBackendNetAndMask'' \<and> decode (set_backend_coder P) body = Inl e \<or>
      path = ''/management.RouterService/SetGatewayMacAddress'' \<and> decode (set_gateway_coder P) body = Inl e \<longrightarrow>
      server_call T P (new_server none svc) (request path body) s = Inr (respond (Inl e), s))"
  using grpc_link.rejected_requests [OF assms]
  by (auto simp: server_call_def unimplemented_arm_def SERVICE_NAME_def grpc_link.path_request [OF assms])

theorem rejected_request_keeps_state_witness:
  "server_call loop_tonic loop_prost (new_server () (management_service sample_server))
     (''/management.RouterService/GetStats'', Empty) sample_process =
       Inr (Carries (Inl ''malformed message''), sample_process)"
  using rejected_request_keeps_state [OF loop.grpc_link_axioms [of sample_server],
      of "''/management.RouterService/GetStats''" Empty sample_process "''malformed message''"]
  by (simp add: loop_prost_def)

text \<open>
  C14: through the client stubs, the dispatch and the handlers, a client's requests set exactly
  the setting they name in the running actor, and a statistics request is answered with the
  counters of the maps and sets nothing.
\<close>

theorem management_end_to_end:
  assumes "array_maps K ok" and "process_ok K ok s" and "bpf M = actor_runtime Release K"
    and "grpc_link T P C none (management_service M) request respond result"
  shows "(\<exists>t. client_set_local_net_and_mask C P l s = Inr (Inr (), t) \<and> process_ok K ok t \<and>
       eventual K t = (eventual K s)\<lparr>local_net := (local_req_net l, local_req_mask l)\<rparr>) \<and>
     (\<exists>t. client_set_backend_net_and_mask C P b s = Inr (Inr (), t) \<and> process_ok K ok t \<and>
       eventual K t = (eventual K s)\<lparr>backend_net := (backend_req_net b, backend_req_mask b)\<rparr>) \<and>
     (\<exists>t. client_set_gateway_mac_address C P g s = Inr (Inr (), t) \<and> process_ok K ok t \<and>
       eventual K t = (eventual K s)\<lparr>gateway_mac := gateway_req_mac g\<rparr>) \<and>
     (\<exists>t. client_get_stats C P q s = Inr (Inr
         \<lparr>resp_total_packets = total_packets (process_stats K s),
          resp_client_to_server_packets = client_to_server_packets (process_stats K s),
          resp_server_to_client_packets = server_to_client_packets (process_stats K s)\<rparr>, t) \<and>
       process_ok K ok t \<and> eventual K t = eventual K s)"
proof -
  note link = array_maps.runtime_link [OF assms(1)]
  show ?thesis
    using actor_link.handlers_ok [OF link assms(3,2)] grpc_link.client_methods [OF assms(4)]
    by (simp add: management_service_def) blast
qed

theorem management_end_to_end_witness:
  "\<exists>t. client_set_local_net_and_mask (loop_client (management_service sample_server)) loop_prost
       \<lparr>local_req_net = 0x0A000000, local_req_mask = 0xFF000000\<rparr> sample_process = Inr (Inr (), t) \<and>
     local_net (eventual declared_api t) = (0x0A000000, 0xFF000000)"
proof -
  have "bpf sample_server = actor_runtime Release declared_api"
    by (simp add: sample_server_def new_management_server_def)
  from management_end_to_end [OF declared.array_maps_axioms sample_process_ok this
      loop.grpc_link_axioms, of "\<lparr>local_req_net = 0x0A000000, local_req_mask = 0xFF000000\<rparr>",
      THEN conjunct1]
  show ?thesis by (elim exE conjE) (intro exI conjI, assumption, simp)
qed

end
