(* ===== verification/Rust_Parse.thy ===== *)
theory Rust_Parse
  imports Prelude
begin

text \<open>
  The string functions of Rust's standard library that \<^verbatim>\<open>udp-router-tool\<close> and
  \<^verbatim>\<open>udp-router-client\<close> call: \<^verbatim>\<open>str::split\<close> at a character, \<^verbatim>\<open>from_str_radix\<close> and
  \<^verbatim>\<open>parse\<close> for unsigned integers, and \<^verbatim>\<open>Ipv4Addr::from_str\<close>. A string is the list of its
  bytes. The printers at the end are what the documentation of the tool's options shows; they
  are there for the round trips.
\<close>

section \<open>Splitting\<close>

fun split_at :: "char \<Rightarrow> string \<Rightarrow> string list" where
  "split_at d [] = [[]]"
| "split_at d (c # cs) =
     (if c = d then [] # split_at d cs
      else (case split_at d cs of [] \<Rightarrow> [[c]] | part # parts \<Rightarrow> (c # part) # parts))"

lemma split_at_nonempty [simp]: "split_at d s \<noteq> []"
  by (induction s) (auto split: list.split)

lemma split_at_none: "d \<notin> set s \<Longrightarrow> split_at d s = [s]"
  by (induction s) auto

lemma split_at_append: "d \<notin> set s \<Longrightarrow> split_at d (s @ d # t) = s # split_at d t"
  by (induction s) auto

section \<open>Unsigned integers\<close>

text \<open>\<^verbatim>\<open>char::to_digit\<close>: decimal digits and letters of both cases.\<close>

definition to_digit :: "nat \<Rightarrow> char \<Rightarrow> nat option" where
  "to_digit radix c =
     (let n = of_char c :: nat;
          d = (if 48 \<le> n \<and> n \<le> 57 then n - 48 else if 97 \<le> n \<and> n \<le> 122 then n - 87
               else if 65 \<le> n \<and> n \<le> 90 then n - 55 else radix)
      in if d < radix then Some d else None)"

fun radix_value :: "nat \<Rightarrow> nat \<Rightarrow> nat \<Rightarrow> string \<Rightarrow> nat option" where
  "radix_value radix bound acc [] = Some acc"
| "radix_value radix bound acc (c # cs) =
     (case to_digit radix c of
        None \<Rightarrow> None
      | Some d \<Rightarrow> if acc * radix + d < bound then radix_value radix bound (acc * radix + d) cs
                  else None)"

text \<open>
  \<^verbatim>\<open>from_str_radix\<close> of an unsigned type with values below \<open>bound\<close>: one leading plus sign is
  accepted, an empty number is not, and a value that does not fit is an error.
\<close>

definition from_str_radix :: "nat \<Rightarrow> nat \<Rightarrow> string \<Rightarrow> nat option" where
  "from_str_radix radix bound s =
     (case s of
        [] \<Rightarrow> None
      | c # cs \<Rightarrow> if c = CHR ''+'' then (if cs = [] then None else radix_value radix bound 0 cs)
                  else radix_value radix bound 0 s)"

lemma radix_value_less:
  "radix_value radix bound acc s = Some n \<Longrightarrow> acc < bound \<Longrightarrow> n < bound"
  by (induction radix bound acc s rule: radix_value.induct) (auto split: option.splits if_splits)

lemma from_str_radix_less: "from_str_radix radix bound s = Some n \<Longrightarrow> 0 < bound \<Longrightarrow> n < bound"
  by (auto simp: from_str_radix_def simp del: radix_value.simps
      split: list.splits if_splits dest!: radix_value_less)

section \<open>IPv4 addresses\<close>

text \<open>
  The address parser's \<^verbatim>\<open>read_number\<close>: a nonempty run of digits, of at most the given number
  when there is one, without a leading zero unless that is allowed, whose value is below the
  bound. The rest of the input is returned.
\<close>

definition is_digit :: "nat \<Rightarrow> char \<Rightarrow> bool" where
  "is_digit radix c \<longleftrightarrow> to_digit radix c \<noteq> None"

abbreviation is_dec_digit :: "char \<Rightarrow> bool" where
  "is_dec_digit \<equiv> is_digit 10"

definition read_number :: "nat \<Rightarrow> nat option \<Rightarrow> bool \<Rightarrow> nat \<Rightarrow> string \<Rightarrow> (nat \<times> string) option" where
  "read_number radix max_digits zero_prefix bound s =
     (let ds = takeWhile (is_digit radix) s;
          rest = dropWhile (is_digit radix) s
      in if ds = [] \<or> (case max_digits of None \<Rightarrow> False | Some m \<Rightarrow> m < length ds) \<or>
           (\<not> zero_prefix \<and> hd ds = CHR ''0'' \<and> 1 < length ds) then None
         else (case radix_value radix bound 0 ds of None \<Rightarrow> None | Some n \<Rightarrow> Some (n, rest)))"

text \<open>One octet: at most three decimal digits, no leading zero unless it is the only digit.\<close>

definition read_octet :: "string \<Rightarrow> (u8 \<times> string) option" where
  "read_octet s = map_option (\<lambda>(n, rest). (of_nat n, rest)) (read_number 10 (Some 3) False 256 s)"

definition read_given_char :: "char \<Rightarrow> string \<Rightarrow> string option" where
  "read_given_char c s = (case s of [] \<Rightarrow> None | x # xs \<Rightarrow> if x = c then Some xs else None)"

lemma read_given_char_simps [simp]:
  "read_given_char c [] = None"
  "read_given_char c (x # xs) = (if x = c then Some xs else None)"
  by (simp_all add: read_given_char_def)

lemma read_given_char_Some: "read_given_char c s = Some t \<longleftrightarrow> s = c # t"
  by (cases s) auto

text \<open>\<^verbatim>\<open>read_ipv4_addr\<close>: the octets in network order, and the rest of the input.\<close>

definition read_ipv4 :: "string \<Rightarrow> (bytes \<times> string) option" where
  "read_ipv4 s =
      Option.bind (read_octet s) (\<lambda>(a, s).
      Option.bind (read_given_char CHR ''.'' s) (\<lambda>s.
      Option.bind (read_octet s) (\<lambda>(b, s).
      Option.bind (read_given_char CHR ''.'' s) (\<lambda>s.
      Option.bind (read_octet s) (\<lambda>(c, s).
      Option.bind (read_given_char CHR ''.'' s) (\<lambda>s.
      Option.bind (read_octet s) (\<lambda>(d, s). Some ([a, b, c, d], s))))))))"

text \<open>\<^verbatim>\<open>Ipv4Addr::from_str\<close>: nothing may be left.\<close>

definition parse_ipv4 :: "string \<Rightarrow> bytes option" where
  "parse_ipv4 s =
     (if 15 < length s then None else
      Option.bind (read_ipv4 s) (\<lambda>(octets, s). if s = [] then Some octets else None))"

lemma parse_ipv4_length: "parse_ipv4 s = Some bs \<Longrightarrow> length bs = 4"
  by (auto simp: parse_ipv4_def read_ipv4_def bind_eq_Some_conv split: if_splits prod.splits)

section \<open>Printers\<close>

definition digit_char :: "nat \<Rightarrow> char" where
  "digit_char d = (if d < 10 then char_of (48 + d) else char_of (87 + d))"

definition print_dec :: "nat \<Rightarrow> string" where
  "print_dec n =
     (if n < 10 then [digit_char n]
      else if n < 100 then [digit_char (n div 10), digit_char (n mod 10)]
      else [digit_char (n div 100), digit_char (n div 10 mod 10), digit_char (n mod 10)])"

definition print_octet :: "u8 \<Rightarrow> string" where
  "print_octet b = print_dec (unat b)"

definition print_ipv4 :: "u32 \<Rightarrow> string" where
  "print_ipv4 ip =
     (let b = u32_to_be_bytes ip
      in print_octet (b ! 0) @ ''.'' @ print_octet (b ! 1) @ ''.'' @ print_octet (b ! 2) @
         ''.'' @ print_octet (b ! 3))"

definition print_hex :: "u8 \<Rightarrow> string" where
  "print_hex b = [digit_char (unat b div 16), digit_char (unat b mod 16)]"

lemma to_digit_digit_char:
  "d < 16 \<Longrightarrow> to_digit radix (digit_char d) = (if d < radix then Some d else None)"
  by (auto simp: digit_char_def to_digit_def Let_def)

lemma of_char_digit_char:
  "d < 16 \<Longrightarrow> (of_char (digit_char d) :: nat) = (if d < 10 then 48 + d else 87 + d)"
  by (simp add: digit_char_def take_bit_nat_eq_self)

lemma digit_char_neq [simp]:
  "d < 16 \<Longrightarrow> digit_char d \<noteq> CHR ''+''" "d < 16 \<Longrightarrow> digit_char d \<noteq> CHR '':''"
  "d < 16 \<Longrightarrow> digit_char d \<noteq> CHR ''/''" "d < 16 \<Longrightarrow> digit_char d \<noteq> CHR ''.''"
  using of_char_digit_char [of d] by (auto split: if_splits)

lemma digit_char_zero: "d < 16 \<Longrightarrow> digit_char d = CHR ''0'' \<longleftrightarrow> d = 0"
proof -
  assume "d < 16"
  then have "(of_char (digit_char d) :: nat) = of_char CHR ''0'' \<longleftrightarrow> d = 0"
    by (simp add: of_char_digit_char)
  then show ?thesis by (simp only: of_char_eq_iff)
qed

lemma unat_u8_less [simp]: "unat (b :: u8) < 256"
  using unsigned_less [of b, where ?'a = nat] by simp

lemma to_digit_dec [simp]: "d < 10 \<Longrightarrow> to_digit 10 (digit_char d) = Some d"
  by (simp add: to_digit_digit_char)

lemma dec_digit_char [simp]: "d < 10 \<Longrightarrow> is_dec_digit (digit_char d)"
  by (simp add: is_digit_def)

lemma radix_value_3:
  assumes "a < 10" and "b < 10" and "c < 10" and "(a * 10 + b) * 10 + c < 256"
  shows "radix_value 10 256 0 [digit_char a, digit_char b, digit_char c] =
     Some ((a * 10 + b) * 10 + c)"
  using assms by simp

lemma three_digits:
  fixes n :: nat
  shows "(n div 100 * 10 + n div 10 mod 10) * 10 + n mod 10 = n"
proof -
  have "n div 100 = n div 10 div 10" by (simp add: div_mult2_eq [symmetric])
  then have "n div 100 * 10 + n div 10 mod 10 = n div 10" by simp
  then show ?thesis by simp
qed

lemma print_dec_value:
  assumes "n < 256"
  shows "radix_value 10 256 0 (print_dec n) = Some n"
proof -
  consider "n < 10" | "10 \<le> n" "n < 100" | "100 \<le> n" by linarith
  then show ?thesis
  proof cases
    case 2
    then have "n div 10 < 10" and "n div 10 * 10 + n mod 10 = n" by auto
    with 2 assms show ?thesis by (simp add: print_dec_def)
  next
    case 3
    then have "print_dec n = [digit_char (n div 100), digit_char (n div 10 mod 10), digit_char (n mod 10)]"
      by (simp add: print_dec_def)
    moreover have "n div 100 < 10" using assms by linarith
    ultimately show ?thesis
      using radix_value_3 [of "n div 100" "n div 10 mod 10" "n mod 10"] assms
      by (simp only: three_digits)
  qed (simp add: print_dec_def)
qed

lemma print_dec_shape:
  assumes "n < 256"
  shows "print_dec n \<noteq> []" and "c \<in> set (print_dec n) \<Longrightarrow> is_dec_digit c"
    and "length (print_dec n) \<le> 3"
    and "hd (print_dec n) = CHR ''0'' \<Longrightarrow> length (print_dec n) = 1"
proof -
  have "n div 100 < 10" and "n < 100 \<Longrightarrow> n div 10 < 10" using assms by linarith+
  then show "print_dec n \<noteq> []" and "c \<in> set (print_dec n) \<Longrightarrow> is_dec_digit c"
    and "length (print_dec n) \<le> 3" and "hd (print_dec n) = CHR ''0'' \<Longrightarrow> length (print_dec n) = 1"
    by (auto simp: print_dec_def digit_char_zero split: if_splits)
qed

lemma print_octet_facts:
  "radix_value 10 256 0 (print_octet b) = Some (unat b)" "print_octet b \<noteq> []"
  "c \<in> set (print_octet b) \<Longrightarrow> is_dec_digit c" "length (print_octet b) \<le> 3"
  "hd (print_octet b) = CHR ''0'' \<Longrightarrow> length (print_octet b) = 1"
  using print_dec_value print_dec_shape unat_u8_less unfolding print_octet_def by blast+

lemma read_print_octet:
  assumes "rest = [] \<or> \<not> is_dec_digit (hd rest)"
  shows "read_octet (print_octet b @ rest) = Some (b, rest)"
proof -
  have "takeWhile is_dec_digit rest = []" and "dropWhile is_dec_digit rest = rest"
    using assms by (cases rest; simp)+
  then have t: "takeWhile is_dec_digit (print_octet b @ rest) = print_octet b"
    and d: "dropWhile is_dec_digit (print_octet b @ rest) = rest"
    using print_octet_facts(3) by (simp_all add: takeWhile_append dropWhile_append)
  show ?thesis
    using print_octet_facts(4,5) [of b] print_octet_facts(2) [of b]
    by (auto simp: read_octet_def read_number_def t d Let_def print_octet_facts(1))
qed

lemma radix_value_mono:
  "radix_value radix bound acc s = Some n \<Longrightarrow> bound \<le> bound' \<Longrightarrow>
   radix_value radix bound' acc s = Some n"
  by (induction radix bound acc s rule: radix_value.induct) (auto split: option.splits if_splits)

lemma parse_print_dec:
  assumes "n < 256" and "256 \<le> bound"
  shows "from_str_radix 10 bound (print_dec n) = Some n"
proof (cases "print_dec n")
  case (Cons c cs)
  with assms have "is_dec_digit c" using print_dec_shape(2) [of n c] by simp
  then have "c \<noteq> CHR ''+''" by (auto simp: is_digit_def to_digit_def)
  with Cons show ?thesis
    using radix_value_mono [OF print_dec_value [OF assms(1)] assms(2)]
    by (simp add: from_str_radix_def del: radix_value.simps)
qed (use assms print_dec_shape in simp)

lemma parse_print_hex: "from_str_radix 16 256 (print_hex b) = Some (unat b)"
proof -
  have "unat b div 16 < 16" using unat_u8_less [of b] by linarith
  then show ?thesis
    by (simp add: from_str_radix_def print_hex_def to_digit_digit_char less_trans [of _ 16 256])
qed

lemma not_dec_digit [simp]: "\<not> is_dec_digit CHR ''.''" "\<not> is_dec_digit CHR ''/''"
  by (simp_all add: is_digit_def to_digit_def)

lemma read_print_ipv4:
  assumes "rest = [] \<or> \<not> is_dec_digit (hd rest)"
  shows "read_ipv4 (print_ipv4 ip @ rest) = Some (u32_to_be_bytes ip, rest)"
proof -
  obtain a b c d where o: "u32_to_be_bytes ip = [a, b, c, d]"
    using length_4_conv [of "u32_to_be_bytes ip"] by auto
  then show ?thesis
    using read_print_octet [OF assms, of d]
    by (simp add: read_ipv4_def print_ipv4_def read_print_octet)
qed

lemma parse_print_ipv4: "parse_ipv4 (print_ipv4 ip) = Some (u32_to_be_bytes ip)"
proof -
  obtain a b c d where o: "u32_to_be_bytes ip = [a, b, c, d]"
    using length_4_conv [of "u32_to_be_bytes ip"] by auto
  have "length (print_octet a) \<le> 3" "length (print_octet b) \<le> 3" "length (print_octet c) \<le> 3"
    "length (print_octet d) \<le> 3"
    by (rule print_octet_facts)+
  then have "length (print_ipv4 ip) \<le> 15" by (simp add: print_ipv4_def o)
  then show ?thesis using read_print_ipv4 [of "[]" ip] by (simp add: parse_ipv4_def)
qed

lemma print_octet_no_slash [simp]: "CHR ''/'' \<notin> set (print_octet b)"
  using print_octet_facts(3) not_dec_digit(2) by blast

lemma print_ipv4_no_slash: "CHR ''/'' \<notin> set (print_ipv4 ip)"
  by (simp add: print_ipv4_def Let_def)

lemma print_hex_no_colon: "CHR '':'' \<notin> set (print_hex b)"
proof -
  have "unat b div 16 < 16" using unat_u8_less [of b] by linarith
  then have "digit_char (unat b div 16) \<noteq> CHR '':''" and "digit_char (unat b mod 16) \<noteq> CHR '':''"
    by simp_all
  then show ?thesis by (simp add: print_hex_def not_sym)
qed

section \<open>Displaying integers\<close>

text \<open>\<^verbatim>\<open>Display\<close> of an unsigned integer.\<close>

fun show_nat :: "nat \<Rightarrow> string" where
  "show_nat n = (if n < 10 then [digit_char n] else show_nat (n div 10) @ [digit_char (n mod 10)])"

declare show_nat.simps [simp del]

lemma show_nat_dec_digit: "c \<in> set (show_nat n) \<Longrightarrow> is_dec_digit c"
proof (induction n rule: show_nat.induct)
  case (1 n)
  then show ?case by (cases "n < 10") (auto simp: show_nat.simps [of n])
qed

lemma show_nat_nonempty [simp]: "show_nat n \<noteq> []"
  by (simp add: show_nat.simps [of n])

lemma show_nat_no_slash [simp]: "CHR ''/'' \<notin> set (show_nat n)"
  using show_nat_dec_digit not_dec_digit(2) by blast

lemma radix_value_append:
  "radix_value radix bound acc (xs @ ys) =
     Option.bind (radix_value radix bound acc xs) (\<lambda>n. radix_value radix bound n ys)"
  by (induction radix bound acc xs rule: radix_value.induct) (simp_all split: option.split)

lemma radix_value_show_nat:
  assumes "10 \<le> bound"
  shows "radix_value 10 bound 0 (show_nat n) = (if n < bound then Some n else None)"
proof (induction n rule: show_nat.induct)
  case (1 n)
  show ?case
  proof (cases "n < 10")
    case True
    with assms show ?thesis by (simp add: show_nat.simps)
  next
    case False
    have "n div 10 < bound" if "n < bound" using that by linarith
    moreover have "n div 10 * 10 + n mod 10 = n" by simp
    ultimately show ?thesis
      using False "1.IH" by (auto simp: show_nat.simps [of n] radix_value_append)
  qed
qed

lemma parse_show_nat:
  assumes "10 \<le> bound"
  shows "from_str_radix 10 bound (show_nat n) = (if n < bound then Some n else None)"
proof -
  obtain c cs where c: "show_nat n = c # cs" using show_nat_nonempty by (metis neq_Nil_conv)
  then have "is_dec_digit c" using show_nat_dec_digit [of c n] by simp
  then have "c \<noteq> CHR ''+''" by (auto simp: is_digit_def to_digit_def)
  with c show ?thesis
    using radix_value_show_nat [OF assms, of n]
    by (simp add: from_str_radix_def del: radix_value.simps)
qed

end
