(* ===== verification/Socket_Addr.thy ===== *)
theory Socket_Addr
  imports Rust_Parse "HOL-Library.Sublist"
begin

text \<open>
  \<^verbatim>\<open>SocketAddr::from_str\<close> of Rust's standard library, which \<^verbatim>\<open>ManagementServer::start\<close>
  applies to its address and port: an IPv4 address or a bracketed IPv6 address, a colon and a
  port. The functions follow the library's recursive descent parser; each returns the rest of
  the input.
\<close>

section \<open>The parser\<close>

datatype socket_addr = V4 bytes u16 | V6 "u16 list" u32 u16

definition read_separator ::
    "char \<Rightarrow> nat \<Rightarrow> (string \<Rightarrow> ('a \<times> string) option) \<Rightarrow> string \<Rightarrow> ('a \<times> string) option" where
  "read_separator sep index inner s =
     (if 0 < index then Option.bind (read_given_char sep s) inner else inner s)"

text \<open>
  \<^verbatim>\<open>read_groups\<close> from group \<open>i\<close> on, with \<open>k\<close> more groups to fill. An embedded IPv4 address
  fills two groups and ends the groups; the Boolean says that there was one.
\<close>

fun read_groups :: "nat \<Rightarrow> nat \<Rightarrow> string \<Rightarrow> u16 list \<times> bool \<times> string" where
  "read_groups i 0 s = ([], False, s)"
| "read_groups i (Suc k) s =
     (case (if 0 < k then read_separator CHR '':'' i read_ipv4 s else None) of
        Some (octets, s) \<Rightarrow>
          ([from_be_bytes (take 2 octets), from_be_bytes (drop 2 octets)], True, s)
      | None \<Rightarrow>
          (case read_separator CHR '':'' i (read_number 16 (Some 4) True 65536) s of
             None \<Rightarrow> ([], False, s)
           | Some (g, s) \<Rightarrow>
               (case read_groups (Suc i) k s of (groups, v4, s) \<Rightarrow> (of_nat g # groups, v4, s))))"

definition read_ipv6 :: "string \<Rightarrow> (u16 list \<times> string) option" where
  "read_ipv6 s =
     (case read_groups 0 8 s of (head, head_ipv4, s) \<Rightarrow>
      if length head = 8 then Some (head, s)
      else if head_ipv4 then None
      else
        Option.bind (read_given_char CHR '':'' s) (\<lambda>s.
        Option.bind (read_given_char CHR '':'' s) (\<lambda>s.
        case read_groups 0 (8 - (length head + 1)) s of (tail, _, s) \<Rightarrow>
        Some (head @ replicate (8 - length head - length tail) 0 @ tail, s))))"

definition read_port :: "string \<Rightarrow> (nat \<times> string) option" where
  "read_port s = Option.bind (read_given_char CHR '':'' s) (read_number 10 None True 65536)"

definition read_scope_id :: "string \<Rightarrow> (nat \<times> string) option" where
  "read_scope_id s = Option.bind (read_given_char CHR ''%'' s) (read_number 10 None True (2 ^ 32))"

definition read_socket_addr_v4 :: "string \<Rightarrow> (socket_addr \<times> string) option" where
  "read_socket_addr_v4 s =
     Option.bind (read_ipv4 s) (\<lambda>(ip, s).
     Option.bind (read_port s) (\<lambda>(port, s). Some (V4 ip (of_nat port), s)))"

definition read_socket_addr_v6 :: "string \<Rightarrow> (socket_addr \<times> string) option" where
  "read_socket_addr_v6 s =
     Option.bind (read_given_char CHR ''['' s) (\<lambda>s.
     Option.bind (read_ipv6 s) (\<lambda>(ip, s).
     let (scope, s) = (case read_scope_id s of Some r \<Rightarrow> r | None \<Rightarrow> (0, s)) in
     Option.bind (read_given_char CHR '']'' s) (\<lambda>s.
     Option.bind (read_port s) (\<lambda>(port, s). Some (V6 ip (of_nat scope) (of_nat port), s)))))"

definition parse_socket_addr :: "string \<Rightarrow> socket_addr option" where
  "parse_socket_addr s =
     (case (case read_socket_addr_v4 s of Some r \<Rightarrow> Some r | None \<Rightarrow> read_socket_addr_v6 s) of
        Some (addr, []) \<Rightarrow> Some addr
      | _ \<Rightarrow> None)"

section \<open>What the readers consume\<close>

text \<open>A reader takes characters off the front of its input, all of them satisfying \<open>P\<close>.\<close>

definition consumes :: "(char \<Rightarrow> bool) \<Rightarrow> (string \<Rightarrow> ('a \<times> string) option) \<Rightarrow> bool" where
  "consumes P r \<longleftrightarrow> (\<forall>s v t. r s = Some (v, t) \<longrightarrow> (\<exists>p. s = p @ t \<and> (\<forall>c \<in> set p. P c)))"

lemma consumesE:
  assumes "consumes P r" and "r s = Some (v, t)"
  obtains p where "s = p @ t" and "\<forall>c \<in> set p. P c"
  using assms unfolding consumes_def by blast

lemma consumes_mono: "consumes P r \<Longrightarrow> (\<And>c. P c \<Longrightarrow> Q c) \<Longrightarrow> consumes Q r"
  unfolding consumes_def by blast

lemma consumes_number: "consumes (is_digit radix) (read_number radix m z bound)"
  unfolding consumes_def
proof (intro allI impI)
  fix s v t
  assume "read_number radix m z bound s = Some (v, t)"
  then have "t = dropWhile (is_digit radix) s"
    by (auto simp: read_number_def Let_def split: if_splits option.splits)
  then have "s = takeWhile (is_digit radix) s @ t" by simp
  moreover have "\<forall>c \<in> set (takeWhile (is_digit radix) s). is_digit radix c"
    by (auto dest: set_takeWhileD)
  ultimately show "\<exists>p. s = p @ t \<and> (\<forall>c \<in> set p. is_digit radix c)" by blast
qed

lemma consumes_octet: "consumes is_dec_digit read_octet"
  unfolding consumes_def read_octet_def by (auto elim: consumesE [OF consumes_number])

definition ipv4_char :: "char \<Rightarrow> bool" where
  "ipv4_char c \<longleftrightarrow> is_dec_digit c \<or> c = CHR ''.''"

lemma octet_split:
  assumes "read_octet s = Some (a, t)"
  obtains p where "s = p @ t" and "\<forall>c \<in> set p. ipv4_char c"
  using consumesE [OF consumes_octet assms] by (metis ipv4_char_def)

lemma consumes_ipv4: "consumes ipv4_char read_ipv4"
  unfolding consumes_def
proof (intro allI impI)
  fix s v t
  assume "read_ipv4 s = Some (v, t)"
  then obtain a b c d s1 s2 s3 where
    "read_octet s = Some (a, CHR ''.'' # s1)" "read_octet s1 = Some (b, CHR ''.'' # s2)"
    "read_octet s2 = Some (c, CHR ''.'' # s3)" "read_octet s3 = Some (d, t)"
    by (auto simp: read_ipv4_def bind_eq_Some_conv read_given_char_Some)
  moreover obtain p1 where "s = p1 @ CHR ''.'' # s1" "\<forall>c \<in> set p1. ipv4_char c"
    using calculation(1) by (rule octet_split)
  moreover obtain p2 where "s1 = p2 @ CHR ''.'' # s2" "\<forall>c \<in> set p2. ipv4_char c"
    using calculation(2) by (rule octet_split)
  moreover obtain p3 where "s2 = p3 @ CHR ''.'' # s3" "\<forall>c \<in> set p3. ipv4_char c"
    using calculation(3) by (rule octet_split)
  moreover obtain p4 where "s3 = p4 @ t" "\<forall>c \<in> set p4. ipv4_char c"
    using calculation(4) by (rule octet_split)
  ultimately show "\<exists>p. s = p @ t \<and> (\<forall>c \<in> set p. ipv4_char c)"
    by (intro exI [of _ "p1 @ CHR ''.'' # p2 @ CHR ''.'' # p3 @ CHR ''.'' # p4"])
      (auto simp: ipv4_char_def)
qed

text \<open>For the bracketed form it is enough that readers return an end of their input.\<close>

lemma consumes_suffix: "consumes P r \<Longrightarrow> r s = Some (v, t) \<Longrightarrow> suffix t s"
  unfolding consumes_def suffix_def by blast

lemma suffix_number: "read_number radix m z bound s = Some (n, t) \<Longrightarrow> suffix t s"
  by (rule consumes_suffix [OF consumes_number])

lemma suffix_separator:
  assumes "\<And>s t v. r s = Some (v, t) \<Longrightarrow> suffix t s" and "read_separator c i r s = Some (v, t)"
  shows "suffix t s"
  using assms(2)
  by (auto simp: read_separator_def bind_eq_Some_conv read_given_char_Some
      intro: assms(1) suffix_ConsI split: if_splits)

lemma suffix_groups: "read_groups i k s = (gs, v4, t) \<Longrightarrow> suffix t s"
proof (induction i k s arbitrary: gs v4 t rule: read_groups.induct)
  case (2 i k s)
  have v4: "read_separator c i read_ipv4 s = Some (v, t) \<Longrightarrow> suffix t s" for c i s v t
    by (rule suffix_separator [OF consumes_suffix [OF consumes_ipv4]])
  have num: "read_separator c i (read_number 16 m z bound) s = Some (v, t) \<Longrightarrow> suffix t s"
    for c i m z bound s v t
    by (rule suffix_separator [OF suffix_number])
  show ?case
  proof (cases "if 0 < k then read_separator CHR '':'' i read_ipv4 s else None")
    case (Some r)
    moreover obtain octets u where r: "r = (octets, u)" by fastforce
    moreover have "u = t" using "2.prems" Some r by simp
    ultimately show ?thesis by (auto intro: v4 split: if_splits)
  next
    case None
    show ?thesis
    proof (cases "read_separator CHR '':'' i (read_number 16 (Some 4) True 65536) s")
      case None': None
      then show ?thesis using "2.prems" None by (simp split: if_splits)
    next
      case (Some r)
      obtain g u where r: "r = (g, u)" by fastforce
      obtain gs' w where rest: "read_groups (Suc i) k u = (gs', w, t)"
        using "2.prems" None Some r by (auto split: prod.splits if_splits)
      from "2.IH" [OF None Some r [symmetric] rest] num [OF Some [unfolded r]]
      show ?thesis by (rule suffix_order.trans)
    qed
  qed
qed simp

lemma suffix_ipv6:
  assumes "read_ipv6 s = Some (ip, t)"
  shows "suffix t s"
proof -
  obtain head v4 u where h: "read_groups 0 8 s = (head, v4, u)" by (metis prod.exhaust)
  then have "suffix u s" by (rule suffix_groups)
  moreover have "suffix t u"
  proof (cases "length head = 8")
    case True
    with assms h show ?thesis by (simp add: read_ipv6_def)
  next
    case False
    then obtain w where u: "u = CHR '':'' # CHR '':'' # w"
      using assms h
      by (auto simp: read_ipv6_def bind_eq_Some_conv read_given_char_Some split: if_splits)
    obtain tail v4' x where g: "read_groups 0 (8 - (length head + 1)) w = (tail, v4', x)"
      by (metis prod.exhaust)
    with assms h u False have "x = t" by (simp add: read_ipv6_def split: if_splits)
    with g have "suffix t w" by (auto dest: suffix_groups)
    then show ?thesis by (simp add: u suffix_ConsI)
  qed
  ultimately show ?thesis by (rule suffix_order.trans [rotated])
qed

section \<open>The port is what follows the last colon\<close>

lemma read_port_all:
  assumes "read_port s = Some (n, [])"
  obtains ds where "s = CHR '':'' # ds" and "\<forall>c \<in> set ds. is_dec_digit c"
    and "radix_value 10 65536 0 ds = Some n"
proof -
  obtain ds where s: "s = CHR '':'' # ds" and n: "read_number 10 None True 65536 ds = Some (n, [])"
    using assms by (auto simp: read_port_def bind_eq_Some_conv read_given_char_Some)
  then have "dropWhile is_dec_digit ds = []"
    by (auto simp: read_number_def Let_def split: if_splits option.splits)
  then have d: "takeWhile is_dec_digit ds = ds" and "\<forall>c \<in> set ds. is_dec_digit c"
    by (simp_all add: takeWhile_eq_all_conv)
  with n have "radix_value 10 65536 0 ds = Some n"
    by (auto simp: read_number_def Let_def split: if_splits option.splits)
  with s d show ?thesis using that by (simp add: takeWhile_eq_all_conv)
qed

lemma not_dec_colon [simp]: "\<not> is_dec_digit CHR '':''" "\<not> is_dec_digit CHR ''[''"
  by (simp_all add: is_digit_def to_digit_def)

lemma last_colon:
  assumes "a @ CHR '':'' # ds = b @ CHR '':'' # es"
    and "\<forall>c \<in> set ds. is_dec_digit c" and "\<forall>c \<in> set es. is_dec_digit c"
  shows "a = b" and "ds = es"
proof -
  have "takeWhile is_dec_digit (rev (xs @ CHR '':'' # ys)) = rev ys"
    if "\<forall>c \<in> set ys. is_dec_digit c" for xs ys
    using that by (simp add: takeWhile_append)
  from this [OF assms(2), of a] this [OF assms(3), of b] show "ds = es" using assms(1) by simp
  with assms(1) show "a = b" by simp
qed

lemma parse_socket_addr_port:
  assumes "parse_socket_addr (a @ CHR '':'' # show_nat port) = Some addr"
  shows "port < 65536"
proof -
  let ?s = "a @ CHR '':'' # show_nat port"
  have "\<exists>t n. suffix t ?s \<and> read_port t = Some (n, [])"
  proof (cases "read_socket_addr_v4 ?s")
    case (Some r)
    with assms have "read_socket_addr_v4 ?s = Some (addr, [])"
      by (auto simp: parse_socket_addr_def split: prod.splits list.splits)
    then show ?thesis
      by (auto simp: read_socket_addr_v4_def bind_eq_Some_conv dest: consumes_suffix [OF consumes_ipv4])
  next
    case None
    with assms have "read_socket_addr_v6 ?s = Some (addr, [])"
      by (auto simp: parse_socket_addr_def split: prod.splits list.splits option.splits)
    then obtain u ip v where u: "?s = CHR ''['' # u" "read_ipv6 u = Some (ip, v)"
      by (auto simp: read_socket_addr_v6_def bind_eq_Some_conv read_given_char_Some)
    obtain sc x where sc': "(case read_scope_id v of Some r \<Rightarrow> r | None \<Rightarrow> (0, v)) = (sc, x)"
      by fastforce
    then obtain w n where sc: "(case read_scope_id v of Some r \<Rightarrow> r | None \<Rightarrow> (0, v)) = (sc, CHR '']'' # w)"
      and n: "read_port w = Some (n, [])"
      using \<open>read_socket_addr_v6 ?s = Some (addr, [])\<close>
      by (auto simp: read_socket_addr_v6_def u bind_eq_Some_conv read_given_char_Some)
    have "suffix (CHR '']'' # w) v"
      using sc by (auto simp: read_scope_id_def bind_eq_Some_conv read_given_char_Some
          split: option.splits dest!: suffix_number intro: suffix_ConsI)
    then have "suffix w v" by (rule suffix_ConsD)
    moreover have "suffix v u" using u(2) by (rule suffix_ipv6)
    ultimately have "suffix w ?s" using u(1) by (metis suffix_ConsI suffix_order.trans)
    with n show ?thesis by blast
  qed
  then obtain p t n where s: "?s = p @ t" and n: "read_port t = Some (n, [])"
    by (auto simp: suffix_def)
  from n obtain ds where "t = CHR '':'' # ds" and "\<forall>c \<in> set ds. is_dec_digit c"
    and v: "radix_value 10 65536 0 ds = Some n" by (rule read_port_all)
  with s have "show_nat port = ds"
    using last_colon(2) [of a "show_nat port" p ds] show_nat_dec_digit by metis
  with v have "radix_value 10 65536 0 (show_nat port) = Some n" by simp
  then show ?thesis by (simp add: radix_value_show_nat split: if_splits)
qed

section \<open>Addresses that a user may give\<close>

lemma read_port_shown:
  "read_port (CHR '':'' # show_nat port) = (if port < 65536 then Some (port, []) else None)"
proof -
  have all: "\<forall>c \<in> set (show_nat port). is_dec_digit c" using show_nat_dec_digit by blast
  then have "takeWhile is_dec_digit (show_nat port) = show_nat port"
    and "dropWhile is_dec_digit (show_nat port) = []" by simp_all
  note run = this
  show ?thesis
    by (simp add: read_port_def read_number_def run radix_value_show_nat Let_def)
qed

lemma parse_shown_v4:
  "parse_socket_addr (print_ipv4 ip @ CHR '':'' # show_nat port) =
     (if port < 65536 then Some (V4 (u32_to_be_bytes ip) (of_nat port)) else None)"
proof (cases "port < 65536")
  case True
  have "read_ipv4 (print_ipv4 ip @ CHR '':'' # show_nat port) =
      Some (u32_to_be_bytes ip, CHR '':'' # show_nat port)"
    by (rule read_print_ipv4) simp
  with True show ?thesis
    by (simp add: parse_socket_addr_def read_socket_addr_v4_def read_port_shown)
next
  case False
  then show ?thesis
    using parse_socket_addr_port [of "print_ipv4 ip" port] by (auto intro: classical)
qed

text \<open>Text with a colon in it, such as an IPv6 address without its brackets, is no address.\<close>

lemma parse_unbracketed:
  assumes "CHR '':'' \<in> set a" and "hd a \<noteq> CHR ''[''"
  shows "parse_socket_addr (a @ CHR '':'' # show_nat port) = None"
proof -
  let ?s = "a @ CHR '':'' # show_nat port"
  have "read_socket_addr_v6 ?s = None"
    using assms by (cases a) (auto simp: read_socket_addr_v6_def)
  moreover have "read_socket_addr_v4 ?s \<noteq> Some (addr, [])" for addr
  proof
    assume "read_socket_addr_v4 ?s = Some (addr, [])"
    then obtain ip t n where ip: "read_ipv4 ?s = Some (ip, t)" and n: "read_port t = Some (n, [])"
      by (auto simp: read_socket_addr_v4_def bind_eq_Some_conv)
    from n obtain ds where t: "t = CHR '':'' # ds" "\<forall>c \<in> set ds. is_dec_digit c"
      by (rule read_port_all)
    from ip obtain p where p: "?s = p @ t" "\<forall>c \<in> set p. ipv4_char c"
      by (rule consumesE [OF consumes_ipv4])
    have "a = p" using last_colon(1) [of a "show_nat port" p ds] p(1) t show_nat_dec_digit by metis
    with p(2) assms(1) show False by (auto simp: ipv4_char_def)
  qed
  ultimately show ?thesis
    by (auto simp: parse_socket_addr_def split: option.split list.split prod.split)
qed

end
