(* ===== verification/Daemon.thy ===== *)
theory Daemon
  imports Management_Server Startup Socket_Addr
begin

text \<open>
  The daemon: how \<^verbatim>\<open>ManagementServer::start\<close> (\<^verbatim>\<open>udp-router/src/server.rs\<close>) opens its
  listening socket and serves on it, \<^verbatim>\<open>BpfActorHandle::new\<close>, and \<^verbatim>\<open>main\<close> of
  \<^verbatim>\<open>udp-router/src/main.rs\<close>. socket2, tokio's runtime and tonic's server loop are arguments.
\<close>

section \<open>The listening socket\<close>

datatype socket_domain = IPV4 | IPV6

text \<open>The calls on a socket; \<^verbatim>\<open>STREAM\<close> is its only type.\<close>

datatype socket_call =
    Set_Reuse_Address bool
  | Set_Reuse_Port bool
  | Set_Nonblocking bool
  | Bind socket_addr
  | Listen nat

record ('k, 'l, 'q, 'p, 'e, 's) listener_stack =
  socket_new :: "socket_domain \<Rightarrow> 's \<Rightarrow> ('e + 'k) \<times> 's"
  socket_call :: "'k \<Rightarrow> socket_call \<Rightarrow> 's \<Rightarrow> ('e + unit) \<times> 's"
  listener_from_std :: "'k \<Rightarrow> 's \<Rightarrow> ('e + 'l) \<times> 's"
  serve_with_incoming ::
    "('q \<Rightarrow> 's \<Rightarrow> panic + ('p \<times> 's)) \<Rightarrow> 'l \<Rightarrow> 's \<Rightarrow> panic + (('e + unit) \<times> 's)"

definition unwrap_io :: "('e + 'a) \<times> 's \<Rightarrow> panic + ('a \<times> 's)" where
  "unwrap_io r = (case r of (Inl e, s) \<Rightarrow> Inl Unwrap | (Inr a, s) \<Rightarrow> Inr (a, s))"

lemma unwrap_io_simps [simp]:
  "unwrap_io (Inl e, s) = Inl Unwrap" "unwrap_io (Inr a, s) = Inr (a, s)"
  by (simp_all add: unwrap_io_def)

fun domain_of :: "socket_addr \<Rightarrow> socket_domain" where
  "domain_of (V4 ip p) = IPV4"
| "domain_of (V6 ip scope p) = IPV6"

definition listen_on :: "('k, 'l, 'q, 'p, 'e, 's) listener_stack \<Rightarrow> socket_addr \<Rightarrow> 's \<Rightarrow>
    panic + ('l \<times> 's)" where
  "listen_on L addr s =
     and_then (unwrap_io (socket_new L (domain_of addr) s)) (\<lambda>(sock, s).
     and_then (unwrap_io (socket_call L sock (Set_Reuse_Address True) s)) (\<lambda>(_, s).
     and_then (unwrap_io (socket_call L sock (Set_Reuse_Port True) s)) (\<lambda>(_, s).
     and_then (unwrap_io (socket_call L sock (Set_Nonblocking True) s)) (\<lambda>(_, s).
     and_then (unwrap_io (socket_call L sock (Bind addr) s)) (\<lambda>(_, s).
     and_then (unwrap_io (socket_call L sock (Listen 1024) s)) (\<lambda>(_, s).
     unwrap_io (listener_from_std L sock s)))))))"

definition server_start :: "('k, 'l, 'q, 'p, 'e, 's) listener_stack \<Rightarrow>
    ('b, 'st, 'c, 'q, 'p, 's) tonic_server \<Rightarrow> ('b, 'st) prost \<Rightarrow> 'c \<Rightarrow>
    's management_server \<Rightarrow> 's \<Rightarrow> panic + 's" where
  "server_start L T P none M s =
     and_then (unwrap (parse_socket_addr
       (server_bind_address M @ '':'' @ show_nat (unat (server_port M))))) (\<lambda>addr.
     and_then (listen_on L addr s) (\<lambda>(incoming, s).
     and_then (serve_with_incoming L (server_call T P (new_server none (management_service M)))
       incoming s) (\<lambda>r.
     and_then (unwrap_io r) (\<lambda>(_, s). Inr s))))"

section \<open>The daemon's main function\<close>

text \<open>
  \<^verbatim>\<open>setrlimit\<close> (only logged when it fails), \<^verbatim>\<open>mpsc::channel\<close> with its capacity and the two
  ends it returns, the sending one as the operations of the handle, and \<^verbatim>\<open>tokio::spawn\<close> of
  \<^verbatim>\<open>run_actor\<close> on the receiving end.
\<close>

record ('r, 's) host =
  setrlimit :: "'s \<Rightarrow> int \<times> 's"
  mpsc_channel :: "nat \<Rightarrow> 's \<Rightarrow> 's runtime \<times> 'r \<times> 's"
  spawn_run_actor :: "'r \<Rightarrow> opt \<Rightarrow> 's \<Rightarrow> 's"

definition actor_handle_new :: "('r, 's) host \<Rightarrow> opt \<Rightarrow> 's \<Rightarrow> 's runtime \<times> 's" where
  "actor_handle_new Y opt s =
     (let (sender, receiver, s) = mpsc_channel Y channel_capacity s;
          s = spawn_run_actor Y receiver opt s
      in (sender, s))"

definition daemon_main :: "('r, 's) host \<Rightarrow> ('k, 'l, 'q, 'p, 'e, 's) listener_stack \<Rightarrow>
    ('b, 'st, 'c, 'q, 'p, 's) tonic_server \<Rightarrow> ('b, 'st) prost \<Rightarrow> 'c \<Rightarrow> opt \<Rightarrow> 's \<Rightarrow> panic + 's" where
  "daemon_main Y L T P none opt s =
     (let (rc, s) = setrlimit Y s;
          (bpf_actor, s) = actor_handle_new Y opt s;
          server = new_management_server bpf_actor (bind_address opt) (port opt)
      in server_start L T P none server s)"

section \<open>Opening the socket\<close>

text \<open>
  A machine on which every call succeeds; \<open>log\<close> is what has happened: the sockets created, with
  their domain, the calls on each, and the listener that each was turned into.
\<close>

datatype ('k, 'l) socket_event =
    Created socket_domain 'k
  | Called 'k socket_call
  | Listening 'k 'l

definition stack_works ::
    "('k, 'l, 'q, 'p, 'e, 's) listener_stack \<Rightarrow> ('s \<Rightarrow> ('k, 'l) socket_event list) \<Rightarrow> bool" where
  "stack_works L log \<longleftrightarrow>
     (\<forall>d s. \<exists>sock t. socket_new L d s = (Inr sock, t) \<and> log t = log s @ [Created d sock]) \<and>
     (\<forall>sock c s. \<exists>t. socket_call L sock c s = (Inr (), t) \<and> log t = log s @ [Called sock c]) \<and>
     (\<forall>sock s. \<exists>l t. listener_from_std L sock s = (Inr l, t) \<and> log t = log s @ [Listening sock l])"

lemma listen_on_works:
  assumes "stack_works L log"
  obtains sock l t where "listen_on L addr s = Inr (l, t)"
    and "log t = log s @ [Created (domain_of addr) sock, Called sock (Set_Reuse_Address True),
      Called sock (Set_Reuse_Port True), Called sock (Set_Nonblocking True),
      Called sock (Bind addr), Called sock (Listen 1024), Listening sock l]"
proof -
  obtain sock t0 where t0: "socket_new L (domain_of addr) s = (Inr sock, t0)"
    "log t0 = log s @ [Created (domain_of addr) sock]"
    using assms unfolding stack_works_def by blast
  have step: "\<exists>t. socket_call L sock c s = (Inr (), t) \<and> log t = log s @ [Called sock c]" for c s
    using assms unfolding stack_works_def by blast
  obtain t1 where t1: "socket_call L sock (Set_Reuse_Address True) t0 = (Inr (), t1)"
    "log t1 = log t0 @ [Called sock (Set_Reuse_Address True)]" using step by blast
  obtain t2 where t2: "socket_call L sock (Set_Reuse_Port True) t1 = (Inr (), t2)"
    "log t2 = log t1 @ [Called sock (Set_Reuse_Port True)]" using step by blast
  obtain t3 where t3: "socket_call L sock (Set_Nonblocking True) t2 = (Inr (), t3)"
    "log t3 = log t2 @ [Called sock (Set_Nonblocking True)]" using step by blast
  obtain t4 where t4: "socket_call L sock (Bind addr) t3 = (Inr (), t4)"
    "log t4 = log t3 @ [Called sock (Bind addr)]" using step by blast
  obtain t5 where t5: "socket_call L sock (Listen 1024) t4 = (Inr (), t5)"
    "log t5 = log t4 @ [Called sock (Listen 1024)]" using step by blast
  obtain l t where "listener_from_std L sock t5 = (Inr l, t)" "log t = log t5 @ [Listening sock l]"
    using assms unfolding stack_works_def by blast
  with t0 t1 t2 t3 t4 t5 show ?thesis by (intro that [of l t sock]) (simp_all add: listen_on_def)
qed

section \<open>Properties\<close>

text \<open>
  C22: the daemon serves its management service, over the handle of the actor it has spawned, on
  a listener for the IPv4 address and port it was given: it creates one IPv4 socket, makes exactly
  these calls on it in this order, and serves on the listener made of that socket. With a port
  above 65535, which its option accepts, it panics.
\<close>

theorem daemon_main_serves:
  assumes "stack_works L log" and "bind_address opt = print_ipv4 ip"
    and "setrlimit Y s = (rc, s1)" and "mpsc_channel Y 8 s1 = (R, rx, s2)"
  shows "if unat (port opt) < 65536 then
      (\<exists>sock l t. log t = log (spawn_run_actor Y rx opt s2) @
           [Created IPV4 sock, Called sock (Set_Reuse_Address True),
            Called sock (Set_Reuse_Port True), Called sock (Set_Nonblocking True),
            Called sock (Bind (V4 (u32_to_be_bytes ip) (ucast (port opt)))),
            Called sock (Listen 1024), Listening sock l] \<and>
         daemon_main Y L T P none opt s =
           and_then (serve_with_incoming L (server_call T P (new_server none (management_service
             \<lparr>bpf = R, server_bind_address = bind_address opt, server_port = port opt\<rparr>))) l t)
             (\<lambda>r. and_then (unwrap_io r) (\<lambda>(_, s). Inr s)))
     else daemon_main Y L T P none opt s = Inl Unwrap"
proof -
  have addr: "parse_socket_addr (bind_address opt @ '':'' @ show_nat (unat (port opt))) =
      (if unat (port opt) < 65536 then Some (V4 (u32_to_be_bytes ip) (of_nat (unat (port opt)))) else None)"
    by (simp add: assms(2) parse_shown_v4)
  have p: "of_nat (unat (port opt)) = (ucast (port opt) :: u16)"
    by (simp add: unsigned_ucast_eq)
  show ?thesis
  proof (cases "unat (port opt) < 65536")
    case True
    obtain sock l t where "listen_on L (V4 (u32_to_be_bytes ip) (ucast (port opt)))
        (spawn_run_actor Y rx opt s2) = Inr (l, t)"
      and "log t = log (spawn_run_actor Y rx opt s2) @
           [Created IPV4 sock, Called sock (Set_Reuse_Address True),
            Called sock (Set_Reuse_Port True), Called sock (Set_Nonblocking True),
            Called sock (Bind (V4 (u32_to_be_bytes ip) (ucast (port opt)))),
            Called sock (Listen 1024), Listening sock l]"
      by (rule listen_on_works [OF assms(1), where addr = "V4 (u32_to_be_bytes ip) (ucast (port opt))"
          and s = "spawn_run_actor Y rx opt s2", unfolded domain_of.simps])
    moreover from this(1) True have "daemon_main Y L T P none opt s =
        and_then (serve_with_incoming L (server_call T P (new_server none (management_service
          \<lparr>bpf = R, server_bind_address = bind_address opt, server_port = port opt\<rparr>))) l t)
          (\<lambda>r. and_then (unwrap_io r) (\<lambda>(_, s). Inr s))"
      using addr by (simp add: daemon_main_def actor_handle_new_def server_start_def
          new_management_server_def channel_capacity_def assms p Let_def)
    ultimately show ?thesis using True by (simp only: if_True) blast
  next
    case False
    with addr show ?thesis
      by (simp add: daemon_main_def actor_handle_new_def server_start_def new_management_server_def
          channel_capacity_def assms Let_def)
  qed
qed

text \<open>
  C30: whatever the address text is, the server panics on a port above 65535; and it panics on
  an IPv6 address that is not in brackets.
\<close>

theorem server_start_bad_address:
  assumes "65536 \<le> unat (server_port M) \<or>
    (CHR '':'' \<in> set (server_bind_address M) \<and> hd (server_bind_address M) \<noteq> CHR ''['')"
  shows "server_start L T P none M s = Inl Unwrap"
proof -
  have "parse_socket_addr (server_bind_address M @ CHR '':'' # show_nat (unat (server_port M))) = None"
    using assms
  proof
    assume "65536 \<le> unat (server_port M)"
    then show ?thesis
      using parse_socket_addr_port [of "server_bind_address M" "unat (server_port M)"]
      by (metis not_le not_Some_eq)
  qed (simp add: parse_unbracketed)
  then show ?thesis by (simp add: server_start_def)
qed

text \<open>
  A machine that logs what happens, numbers its sockets, and whose server answers no request, for
  the examples.
\<close>

type_synonym sample_log = "(nat, nat) socket_event list"

definition sample_stack ::
    "(nat, nat, string \<times> loop_body, loop_response, unit, declared_maps process \<times> sample_log)
     listener_stack" where
  "sample_stack = \<lparr>socket_new = (\<lambda>d (k, log). (Inr (length log), (k, log @ [Created d (length log)]))),
     socket_call = (\<lambda>sock c (k, log). (Inr (), (k, log @ [Called sock c]))),
     listener_from_std = (\<lambda>sock (k, log). (Inr sock, (k, log @ [Listening sock sock]))),
     serve_with_incoming = (\<lambda>_ _ s. Inr (Inr (), s))\<rparr>"

definition idle_runtime :: "('k process \<times> sample_log) runtime" where
  "idle_runtime = \<lparr>mpsc_send = (\<lambda>s _. Inr (False, s)), oneshot_channel = (\<lambda>s. (0, s)),
     oneshot_recv = (\<lambda>s _. Inr (None, s))\<rparr>"

definition sample_host :: "(unit, declared_maps process \<times> sample_log) host" where
  "sample_host = \<lparr>setrlimit = (\<lambda>s. (0, s)), mpsc_channel = (\<lambda>_ s. (idle_runtime, (), s)),
     spawn_run_actor = (\<lambda>_ _ s. s)\<rparr>"

lemma sample_stack_works: "stack_works sample_stack snd"
  by (auto simp: stack_works_def sample_stack_def)

theorem daemon_main_serves_witness:
  "\<exists>t sock. daemon_main sample_host sample_stack loop_tonic loop_prost ()
       (sample_opt\<lparr>bind_address := print_ipv4 0x7F000001\<rparr>) (sample_process, []) = Inr t \<and>
     {Created IPV4 sock, Called sock (Bind (V4 [127, 0, 0, 1] 8888))} \<subseteq> set (snd t)"
proof -
  let ?opt = "sample_opt\<lparr>bind_address := print_ipv4 0x7F000001\<rparr>"
  have b: "bind_address ?opt = print_ipv4 0x7F000001" by simp
  have l: "setrlimit sample_host (sample_process, []) = (0, (sample_process, []))"
    and c: "mpsc_channel sample_host 8 (sample_process, []) =
      (idle_runtime, (), (sample_process, []))"
    by (simp_all add: sample_host_def)
  have "\<exists>sock l t. snd t = [Created IPV4 sock, Called sock (Set_Reuse_Address True),
        Called sock (Set_Reuse_Port True), Called sock (Set_Nonblocking True),
        Called sock (Bind (V4 [127, 0, 0, 1] 8888)), Called sock (Listen 1024), Listening sock l] \<and>
      daemon_main sample_host sample_stack loop_tonic loop_prost () ?opt (sample_process, []) = Inr t"
    using daemon_main_serves [OF sample_stack_works b l c, of loop_tonic loop_prost "()"]
    by (auto simp: sample_opt_def sample_host_def sample_stack_def u32_to_be_bytes_eq)
  then show ?thesis by fastforce
qed

theorem server_start_bad_address_witness:
  "server_start sample_stack loop_tonic loop_prost ()
     \<lparr>bpf = idle_runtime, server_bind_address = ''::1'', server_port = 8888\<rparr> (sample_process, []) =
       Inl Unwrap"
  by (rule server_start_bad_address) simp

end
