(* ===== verification/Tool.thy ===== *)
theory Tool
  imports Rust_Parse Management
begin

text \<open>
  The command line tool (\<^verbatim>\<open>udp-router-tool/src/main.rs\<close>): its parsers of networks and MAC
  addresses, and its \<^verbatim>\<open>main\<close>, which connects to the router, checks its arguments and then
  prints the statistics or sends the requests that the arguments ask for. The shift in the
  network parser is arithmetic of the profile the tool is built with, so the profile is an
  argument.
\<close>

section \<open>Parsing a network and its mask\<close>

definition parse_ip_mask :: "profile \<Rightarrow> string \<Rightarrow> panic + (u32 \<times> u32)" where
  "parse_ip_mask p s =
     (if s = [] then Inr (0, 0xffffffff)
      else let parts = split_at CHR ''/'' s in
      if length parts \<noteq> 2 then Inl Explicit else
      and_then (unwrap (parse_ipv4 (parts ! 0))) (\<lambda>octets.
      let net = from_be_bytes octets in
      and_then (unwrap (from_str_radix 10 (2 ^ 32) (parts ! 1))) (\<lambda>len.
      and_then (sub_checked p 32 (of_nat len)) (\<lambda>amount.
      and_then (shl_u32 p 0xffffffff amount) (\<lambda>netmask.
      Inr (net, netmask))))))"

lemma parse_ip_mask_Nil [simp]: "parse_ip_mask p [] = Inr (0, 0xffffffff)"
  by (simp add: parse_ip_mask_def)

text \<open>The mask of a prefix length: that many high bits.\<close>

definition prefix_mask :: "nat \<Rightarrow> u32" where
  "prefix_mask len = NOT (mask (32 - len))"

lemma shl_prefix: "push_bit k (0xffffffff :: u32) = NOT (mask k)"
proof -
  have "(0xffffffff :: u32) = -1" by simp
  moreover have "push_bit k (-1 :: u32) = NOT (mask k)"
    by (rule bit_word_eqI) (auto simp: bit_simps)
  ultimately show ?thesis by (simp only:)
qed

text \<open>The two checked operations on a prefix length, in both profiles.\<close>

definition shifted_mask :: "profile \<Rightarrow> nat \<Rightarrow> panic + u32" where
  "shifted_mask p len =
     and_then (sub_checked p 32 (of_nat len)) (\<lambda>amount. shl_u32 p 0xffffffff amount)"

lemma shifted_mask_prefix:
  assumes "1 \<le> len" and "len \<le> 32"
  shows "shifted_mask p len = Inr (prefix_mask len)"
proof -
  have l: "unat (of_nat len :: u32) = len" using assms by (simp add: unat_of_nat)
  then have n: "unat (32 - of_nat len :: u32) = 32 - len" and le: "\<not> (32 :: u32) < of_nat len"
    using assms by (simp_all add: unat_sub word_le_nat_alt word_less_nat_alt)
  have "32 - len < 32" using assms by simp
  then have "\<not> (32 :: u32) \<le> 32 - of_nat len" by (simp only: word_le_nat_alt n) simp
  with le n show ?thesis
    by (simp add: shifted_mask_def sub_checked_def shl_u32_def shl_prefix prefix_mask_def)
qed

lemma complement_mod_32:
  fixes a b :: nat
  assumes "(a + b) mod 32 = 0"
  shows "b mod 32 = 32 - (if a mod 32 = 0 then 32 else a mod 32)"
proof -
  have "(a mod 32 + b mod 32) mod 32 = 0" using assms by (simp add: mod_add_eq)
  then have "32 dvd a mod 32 + b mod 32" by (simp add: mod_eq_0_iff_dvd)
  then obtain k where k: "a mod 32 + b mod 32 = 32 * k" by (rule dvdE)
  moreover have "a mod 32 < 32" and "b mod 32 < 32" by simp_all
  ultimately have "k = 0 \<or> k = 1" by linarith
  with k show ?thesis by auto
qed

lemma shifted_mask_other:
  assumes "len = 0 \<or> 32 < len" and "len < 2 ^ 32"
  shows "shifted_mask Debug len = Inl Overflow"
    and "shifted_mask Release len = Inr (prefix_mask (if len mod 32 = 0 then 32 else len mod 32))"
proof -
  have l: "unat (of_nat len :: u32) = len" using assms(2) by (simp add: unat_of_nat)
  show "shifted_mask Debug len = Inl Overflow"
  proof (cases "len = 0")
    case True
    then show ?thesis by (simp add: shifted_mask_def sub_checked_def shl_u32_def)
  next
    case False
    with assms have "(32 :: u32) < of_nat len" using l by (simp add: word_less_nat_alt)
    then show ?thesis by (simp add: shifted_mask_def sub_checked_def)
  qed
  have amount: "unat (32 - of_nat len :: u32) = (if len = 0 then 32 else 2 ^ 32 + 32 - len)"
    using assms l by (auto simp: unat_sub_if')
  then have big: "(32 :: u32) \<le> 32 - of_nat len" using assms by (auto simp: word_le_nat_alt)
  have "(31 :: u32) = mask 5" by (simp add: mask_eq_exp_minus_1)
  then have "unat ((32 - of_nat len :: u32) AND 31) = unat (32 - of_nat len :: u32) mod 32"
    by (simp only: take_bit_eq_mask [symmetric] unsigned_take_bit_eq) (simp add: take_bit_eq_mod)
  also have "\<dots> = 32 - (if len mod 32 = 0 then 32 else len mod 32)"
  proof (rule complement_mod_32)
    have "len + unat (32 - of_nat len :: u32) = 32 * (if len = 0 then 1 else 2 ^ 27 + 1)"
      using assms by (auto simp: amount)
    then show "(len + unat (32 - of_nat len :: u32)) mod 32 = 0" by (simp only: mod_mult_self1_is_0)
  qed
  finally show "shifted_mask Release len = Inr (prefix_mask (if len mod 32 = 0 then 32 else len mod 32))"
    using big by (simp add: shifted_mask_def sub_checked_def shl_u32_def shl_prefix prefix_mask_def)
qed

lemma parse_ip_mask_shown:
  "parse_ip_mask p (print_ipv4 ip @ ''/'' @ show_nat len) =
     (if len < 2 ^ 32 then and_then (shifted_mask p len) (\<lambda>netmask. Inr (ip, netmask))
      else Inl Unwrap)"
proof -
  have s: "split_at CHR ''/'' (print_ipv4 ip @ CHR ''/'' # show_nat len) = [print_ipv4 ip, show_nat len]"
    by (simp add: split_at_append split_at_none print_ipv4_no_slash)
  have n: "from_str_radix 10 (2 ^ 32) (show_nat len) = (if len < 2 ^ 32 then Some len else None)"
    by (rule parse_show_nat) simp
  have "and_then (and_then r f) g = and_then r (\<lambda>a. and_then (f a) g)" for r :: "panic + u32" and
    f :: "u32 \<Rightarrow> panic + u32" and g :: "u32 \<Rightarrow> panic + (u32 \<times> u32)"
    by (cases r) simp_all
  then show ?thesis
    by (simp add: parse_ip_mask_def s n parse_print_ipv4 Let_def shifted_mask_def del: power_numeral)
qed

text \<open>Every accepted mask is the mask of some prefix length.\<close>

lemma parse_ip_mask_accepts:
  assumes "parse_ip_mask p s = Inr (net, m)" and "s \<noteq> []"
  obtains len where "len < 2 ^ 32" and "shifted_mask p len = Inr m"
proof -
  have "length (split_at CHR ''/'' s) = 2"
    using assms by (auto simp: parse_ip_mask_def Let_def split: if_splits)
  then obtain octets len where "from_str_radix 10 (2 ^ 32) (split_at CHR ''/'' s ! 1) = Some len"
    and "shifted_mask p len = Inr m"
    using assms by (auto simp: parse_ip_mask_def Let_def shifted_mask_def unwrap_def
        elim!: and_then_InrE split: option.splits)
  with that show ?thesis by (auto dest: from_str_radix_less)
qed

section \<open>Parsing a MAC address\<close>

fun push_parts :: "u64 \<Rightarrow> string list \<Rightarrow> panic + u64" where
  "push_parts res [] = Inr res"
| "push_parts res (part # parts) =
     and_then (unwrap (from_str_radix 16 256 part)) (\<lambda>byte.
     push_parts (push_bit 8 res OR ucast (of_nat byte :: u8)) parts)"

definition parse_mac_address :: "string \<Rightarrow> panic + u64" where
  "parse_mac_address s =
     (let parts = split_at CHR '':'' s in
      if length parts \<noteq> 6 then Inl Explicit else push_parts 0 parts)"

lemma push_parts_Inr:
  "push_parts res parts = Inr m \<longleftrightarrow>
     (\<exists>bs. list_all2 (\<lambda>part b. from_str_radix 16 256 part = Some (unat (b :: u8))) parts bs \<and>
           m = foldl (\<lambda>acc b. push_bit 8 acc OR ucast b) res bs)"
proof (induction parts arbitrary: res)
  case (Cons part parts)
  show ?case
  proof (cases "from_str_radix 16 256 part")
    case None
    then show ?thesis by (auto simp: list_all2_Cons1)
  next
    case (Some n)
    then have "n < 256" by (rule from_str_radix_less) simp
    then have "n = unat b \<longleftrightarrow> b = of_nat n" for b :: u8 by (auto simp: unat_of_nat)
    with Some show ?thesis by (auto simp: Cons.IH list_all2_Cons1)
  qed
qed auto

text \<open>The textual form of a MAC address with two digits for each byte.\<close>

definition print_mac :: "bytes \<Rightarrow> string" where
  "print_mac bs = print_hex (bs ! 0) @ '':'' @ print_hex (bs ! 1) @ '':'' @ print_hex (bs ! 2) @
     '':'' @ print_hex (bs ! 3) @ '':'' @ print_hex (bs ! 4) @ '':'' @ print_hex (bs ! 5)"

lemma split_print_mac:
  assumes "length bs = 6"
  shows "split_at CHR '':'' (print_mac bs) = map print_hex bs"
proof -
  obtain a b c d e f where bs: "bs = [a, b, c, d, e, f]"
    using assms by (auto simp: eval_nat_numeral length_Suc_conv)
  then show ?thesis by (simp add: print_mac_def split_at_append split_at_none print_hex_no_colon)
qed

lemma mac_bytes:
  assumes "length bs = 6"
  shows "m = from_be_bytes bs \<longleftrightarrow> u64_to_be_bytes m = 0 # 0 # bs"
proof -
  obtain a b c d e f where bs: "bs = [a, b, c, d, e, f]"
    using assms by (auto simp: eval_nat_numeral length_Suc_conv)
  have "u64_to_be_bytes (from_be_bytes bs) = 0 # 0 # bs"
    unfolding u64_to_be_bytes_eq
    by (simp add: bs from_be_bytes_def) (intro conjI bit_word_eqI; auto simp: bit_simps)
  moreover have "m = from_be_bytes bs" if "u64_to_be_bytes m = u64_to_be_bytes (from_be_bytes bs)"
    using arg_cong [OF that, of "from_be_bytes :: bytes \<Rightarrow> u64"] by (simp only: u64_from_to_be_bytes)
  ultimately show ?thesis by metis
qed

lemma parse_print_mac_value:
  assumes "length bs = 6"
  shows "parse_mac_address (print_mac bs) = Inr (from_be_bytes bs)"
proof -
  obtain a b c d e f where bs: "bs = [a, b, c, d, e, f]"
    using assms by (auto simp: eval_nat_numeral length_Suc_conv)
  then show ?thesis
    using split_print_mac [OF assms]
    by (simp add: parse_mac_address_def parse_print_hex from_be_bytes_def)
qed

section \<open>The main function\<close>

record tool_opt =
  arg_stats :: bool
  arg_host :: string
  arg_port :: u64
  arg_set_local_net_and_mask :: string
  arg_set_backend_net_and_mask :: string
  arg_set_gateway_mac_address :: string

text \<open>
  How the tool's process ends, with the lines it printed. The world's state is returned in
  every case: the tool can die after it has changed the router. A panic on the left is one of
  the code a remote call runs.
\<close>

datatype 'e tool_exit = Tool_Ok "string list" | Tool_Error 'e | Tool_Panic panic

type_synonym ('s, 'e) tool_result = "panic + ('e tool_exit \<times> 's)"

definition or_die :: "panic + 'a \<Rightarrow> 's \<Rightarrow> ('a \<Rightarrow> ('s, 'e) tool_result) \<Rightarrow> ('s, 'e) tool_result" where
  "or_die r s f = (case r of Inl e \<Rightarrow> Inr (Tool_Panic e, s) | Inr a \<Rightarrow> f a)"

text \<open>\<^verbatim>\<open>Err(e) => panic!("Error contacting XDP hook: {:?}", e)\<close>\<close>

definition remote_or_die ::
    "('s, 'st, 'a) outcome \<Rightarrow> ('a \<Rightarrow> 's \<Rightarrow> ('s, 'e) tool_result) \<Rightarrow> ('s, 'e) tool_result" where
  "remote_or_die m f = and_then m (\<lambda>(r, s).
     case r of Inl status \<Rightarrow> Inr (Tool_Panic Explicit, s) | Inr a \<Rightarrow> f a s)"

definition stats_lines :: "get_stats_response \<Rightarrow> string list" where
  "stats_lines res =
     [''total_packets: '' @ show_nat (unat (resp_total_packets res)),
      ''client_to_server_packets: '' @ show_nat (unat (resp_client_to_server_packets res)),
      ''server_to_client_packets: '' @ show_nat (unat (resp_server_to_client_packets res))]"

definition router_url :: "tool_opt \<Rightarrow> string" where
  "router_url opt = ''http://'' @ arg_host opt @ '':'' @ show_nat (unat (arg_port opt))"

definition tool_main :: "profile \<Rightarrow>
    (string, 'ep, 'ch, 'e, ('b, 'st, 'err, 's) tonic_client, 's) tonic_transport \<Rightarrow>
    ('b, 'st) prost \<Rightarrow> tool_opt \<Rightarrow> 's \<Rightarrow> ('s, 'e) tool_result" where
  "tool_main p N P opt s =
     (case client_connect N (router_url opt) s of
        (Inl e, s) \<Rightarrow> Inr (Tool_Error e, s)
      | (Inr client, s) \<Rightarrow>
          or_die (parse_ip_mask p (arg_set_local_net_and_mask opt)) s (\<lambda>(lnet, lmask).
          or_die (parse_ip_mask p (arg_set_backend_net_and_mask opt)) s (\<lambda>(bnet, bmask).
          or_die (parse_mac_address (arg_set_gateway_mac_address opt)) s (\<lambda>mac.
          if arg_stats opt then
            remote_or_die (client_get_stats client P GetStatsRequest s) (\<lambda>res s.
              Inr (Tool_Ok (stats_lines res), s))
          else
            remote_or_die
              (if arg_set_local_net_and_mask opt \<noteq> [] then
                 client_set_local_net_and_mask client P
                   \<lparr>local_req_net = lnet, local_req_mask = lmask\<rparr> s
               else Inr (Inr (), s)) (\<lambda>_ s.
            remote_or_die
              (if arg_set_backend_net_and_mask opt \<noteq> [] then
                 client_set_backend_net_and_mask client P
                   \<lparr>backend_req_net = bnet, backend_req_mask = bmask\<rparr> s
               else Inr (Inr (), s)) (\<lambda>_ s.
            remote_or_die
              (if arg_set_gateway_mac_address opt \<noteq> [] then
                 client_set_gateway_mac_address client P \<lparr>gateway_req_mac = mac\<rparr> s
               else Inr (Inr (), s)) (\<lambda>_ s.
            Inr (Tool_Ok [], s))))))))"

lemma or_die_simps [simp]:
  "or_die (Inl e) s f = Inr (Tool_Panic e, s)"
  "or_die (Inr a) s f = f a"
  by (simp_all add: or_die_def)

lemma remote_or_die_simps [simp]:
  "remote_or_die (Inl e) f = Inl e"
  "remote_or_die (Inr (Inl status, s)) f = Inr (Tool_Panic Explicit, s)"
  "remote_or_die (Inr (Inr a, s)) f = f a s"
  by (simp_all add: remote_or_die_def)

section \<open>Properties\<close>

text \<open>
  C27: a network written as an address, a slash and a prefix length is parsed to that address
  and the mask of that many high bits exactly for the lengths 1 to 32. A length of 0, or above
  32, panics in the debug build; the release build instead takes it modulo 32, with 32 for 0,
  so that /0 (every address) becomes the mask of a single address. A length that is no 32-bit
  number does not parse and panics in both.
\<close>

theorem parse_ip_mask_prefix:
  "parse_ip_mask p (print_ipv4 ip @ ''/'' @ show_nat len) =
     (if 2 ^ 32 \<le> len then Inl Unwrap
      else if 1 \<le> len \<and> len \<le> 32 then Inr (ip, prefix_mask len)
      else if p = Debug then Inl Overflow
      else Inr (ip, prefix_mask (if len mod 32 = 0 then 32 else len mod 32)))"
proof -
  consider "2 ^ 32 \<le> len" | "1 \<le> len" "len \<le> 32" | "len = 0 \<or> 32 < len" "len < 2 ^ 32"
    by linarith
  then show ?thesis
  proof cases
    case 1
    then show ?thesis unfolding parse_ip_mask_shown by simp
  next
    case 2
    then show ?thesis unfolding parse_ip_mask_shown by (simp add: shifted_mask_prefix)
  next
    case 3
    then show ?thesis
      unfolding parse_ip_mask_shown using shifted_mask_other [OF 3] by (cases p) auto
  qed
qed

text \<open>
  Whatever text is accepted as a network, in either build, its mask is the mask of a prefix
  of 1 to 32 bits (a mask that matches every address cannot be entered).
\<close>

theorem parse_ip_mask_is_prefix:
  assumes "parse_ip_mask p s = Inr (net, m)"
  shows "\<exists>len. 1 \<le> len \<and> len \<le> 32 \<and> m = prefix_mask len"
proof (cases "s = []")
  case True
  with assms show ?thesis by (intro exI [of _ 32]) (simp add: parse_ip_mask_def prefix_mask_def)
next
  case False
  from parse_ip_mask_accepts [OF assms False] obtain len
    where len: "len < 2 ^ 32" and m: "shifted_mask p len = Inr m" .
  show ?thesis
  proof (cases "1 \<le> len \<and> len \<le> 32")
    case True
    with m shifted_mask_prefix [of len p] show ?thesis by auto
  next
    case False
    then have "len = 0 \<or> 32 < len" by auto
    from shifted_mask_other [OF this len] m
    have "m = prefix_mask (if len mod 32 = 0 then 32 else len mod 32)" by (cases p) auto
    moreover have "1 \<le> (if len mod 32 = 0 then 32 else len mod 32)"
      and "(if len mod 32 = 0 then 32 else len mod 32) \<le> 32"
      using mod_less_divisor [of 32 len] by auto
    ultimately show ?thesis by blast
  qed
qed

theorem parse_ip_mask_is_prefix_witness:
  "\<exists>len. 1 \<le> len \<and> len \<le> 32 \<and> (0xffffffff :: u32) = prefix_mask len"
proof -
  have "parse_ip_mask Release [] = Inr (0, 0xffffffff)" by (simp add: parse_ip_mask_def)
  then show ?thesis by (rule parse_ip_mask_is_prefix)
qed

text \<open>
  C28: a MAC address is accepted exactly if it is six hexadecimal bytes between colons, and the
  number it becomes has these bytes as its low six and zero above; every other text panics.
\<close>

theorem parse_mac_address_iff:
  "parse_mac_address s = Inr m \<longleftrightarrow>
     (\<exists>bs. length bs = 6 \<and> u64_to_be_bytes m = 0 # 0 # bs \<and>
        list_all2 (\<lambda>part b. from_str_radix 16 256 part = Some (unat b)) (split_at CHR '':'' s) bs)"
proof -
  have "parse_mac_address s = Inr m \<longleftrightarrow> length (split_at CHR '':'' s) = 6 \<and>
      (\<exists>bs. list_all2 (\<lambda>part b. from_str_radix 16 256 part = Some (unat b)) (split_at CHR '':'' s) bs \<and>
         m = from_be_bytes bs)"
    by (simp add: parse_mac_address_def push_parts_Inr from_be_bytes_def Let_def)
  also have "\<dots> \<longleftrightarrow> (\<exists>bs. length bs = 6 \<and> m = from_be_bytes bs \<and>
      list_all2 (\<lambda>part b. from_str_radix 16 256 part = Some (unat b)) (split_at CHR '':'' s) bs)"
    by (metis list_all2_lengthD)
  also have "\<dots> \<longleftrightarrow> (\<exists>bs. length bs = 6 \<and> u64_to_be_bytes m = 0 # 0 # bs \<and>
      list_all2 (\<lambda>part b. from_str_radix 16 256 part = Some (unat b)) (split_at CHR '':'' s) bs)"
    by (simp add: mac_bytes cong: conj_cong)
  finally show ?thesis .
qed

text \<open>The usual form of a MAC address, two digits a byte, parses to its bytes.\<close>

theorem parse_print_mac:
  assumes "length bs = 6"
  shows "\<exists>m. parse_mac_address (print_mac bs) = Inr m \<and> u64_to_be_bytes m = 0 # 0 # bs"
  using parse_print_mac_value [OF assms] mac_bytes [OF assms] by blast

theorem parse_print_mac_witness:
  "\<exists>m. parse_mac_address (print_mac [0, 0x11, 0x22, 0x33, 0x44, 0x55]) = Inr m \<and>
     u64_to_be_bytes m = [0, 0, 0, 0x11, 0x22, 0x33, 0x44, 0x55]"
  using parse_print_mac [of "[0, 0x11, 0x22, 0x33, 0x44, 0x55]"] by simp

end
