(* ===== verification/Tool_System.thy ===== *)
theory Tool_System
  imports Tool Management_Server
begin

text \<open>
  The tool and the router together: what running the tool does to the settings of a running
  actor, through the client stubs, the server's dispatch, the handlers, the handle and the
  channel. The examples use the in-memory connection of \<^verbatim>\<open>Management_Server\<close>.
\<close>

definition loop_transport :: "'s management_server \<Rightarrow>
    (string, string, unit, string, (loop_body, string, string, 's) tonic_client, 's) tonic_transport" where
  "loop_transport M = \<lparr>endpoint_new = (\<lambda>dst. Inr dst), endpoint_connect = (\<lambda>_ s. (Inr (), s)),
     grpc_new = (\<lambda>_. loop_client (management_service M))\<rparr>"

definition sample_args :: tool_opt where
  "sample_args = \<lparr>arg_stats = False, arg_host = ''127.0.0.1'', arg_port = 8888,
     arg_set_local_net_and_mask = print_ipv4 0x0A000000 @ ''/'' @ show_nat 8,
     arg_set_backend_net_and_mask = [],
     arg_set_gateway_mac_address = print_mac [0, 0x11, 0x22, 0x33, 0x44, 0x55]\<rparr>"

lemma loop_connect:
  "client_connect (loop_transport M) dst s = (Inr (loop_client (management_service M)), s)"
  by (simp add: client_connect_def client_new_def loop_transport_def)

lemma sample_server_bpf: "bpf sample_server = actor_runtime Release declared_api"
  by (simp add: sample_server_def new_management_server_def)

text \<open>A setting whose argument may be missing.\<close>

context actor_link begin

lemma optional_handlers_ok:
  assumes M: "bpf M = R" and s: "inv s"
  shows "\<exists>t. (if l = [] then Inr (Inr (), s)
        else server_set_local_net_and_mask M s \<lparr>local_req_net = n, local_req_mask = m\<rparr>) =
          Inr (Inr (), t) \<and> inv t \<and>
      view t = (view s)\<lparr>local_net := (if l = [] then local_net (view s) else (n, m))\<rparr>"
    and "\<exists>t. (if l = [] then Inr (Inr (), s)
        else server_set_backend_net_and_mask M s \<lparr>backend_req_net = n, backend_req_mask = m\<rparr>) =
          Inr (Inr (), t) \<and> inv t \<and>
      view t = (view s)\<lparr>backend_net := (if l = [] then backend_net (view s) else (n, m))\<rparr>"
  using handlers_ok(1) [OF M s, of "\<lparr>local_req_net = n, local_req_mask = m\<rparr>"]
    handlers_ok(2) [OF M s, of "\<lparr>backend_req_net = n, backend_req_mask = m\<rparr>"] s
  by (cases "l = []"; auto)+

end

lemma tool_main_run:
  assumes "array_maps K ok" and "process_ok K ok s1" and "bpf M = actor_runtime Release K"
    and "grpc_link T P (C :: ('b, 'st, 'err, 'k process) tonic_client) none
      (management_service M) request respond result"
    and "client_connect N (router_url opt) s = (Inr C, s1)"
    and "\<not> arg_stats opt"
    and "parse_ip_mask p (arg_set_local_net_and_mask opt) = Inr l"
    and "parse_ip_mask p (arg_set_backend_net_and_mask opt) = Inr b"
    and "parse_mac_address (arg_set_gateway_mac_address opt) = Inr mac"
  shows "\<exists>t. tool_main p N P opt s = Inr (Tool_Ok [], t) \<and> process_ok K ok t \<and>
     eventual K t =
       \<lparr>local_net = (if arg_set_local_net_and_mask opt = [] then local_net (eventual K s1) else l),
        backend_net = (if arg_set_backend_net_and_mask opt = [] then backend_net (eventual K s1) else b),
        gateway_mac = mac\<rparr>"
proof -
  note link = array_maps.runtime_link [OF assms(1)]
  obtain ln lm bn bm where l: "l = (ln, lm)" and b: "b = (bn, bm)" by fastforce
  have mac: "arg_set_gateway_mac_address opt \<noteq> []"
    using assms(9) by (auto simp: parse_mac_address_def)
  have calls: "client_set_local_net_and_mask C P q s = server_set_local_net_and_mask M s q"
    "client_set_backend_net_and_mask C P q' s = server_set_backend_net_and_mask M s q'"
    "client_set_gateway_mac_address C P q'' s = server_set_gateway_mac_address M s q''" for q q' q'' s
    using grpc_link.client_methods [OF assms(4)] by (simp_all add: management_service_def)
  obtain s2 where s2: "(if arg_set_local_net_and_mask opt = [] then Inr (Inr (), s1)
      else server_set_local_net_and_mask M s1 \<lparr>local_req_net = ln, local_req_mask = lm\<rparr>) =
        (Inr (Inr (), s2) :: (_, 'st, unit) outcome)"
    "process_ok K ok s2" "eventual K s2 = (eventual K s1)\<lparr>local_net :=
       (if arg_set_local_net_and_mask opt = [] then local_net (eventual K s1) else (ln, lm))\<rparr>"
    using actor_link.optional_handlers_ok(1) [OF link assms(3,2)] by blast
  obtain s3 where s3: "(if arg_set_backend_net_and_mask opt = [] then Inr (Inr (), s2)
      else server_set_backend_net_and_mask M s2 \<lparr>backend_req_net = bn, backend_req_mask = bm\<rparr>) =
        (Inr (Inr (), s3) :: (_, 'st, unit) outcome)"
    "process_ok K ok s3" "eventual K s3 = (eventual K s2)\<lparr>backend_net :=
       (if arg_set_backend_net_and_mask opt = [] then backend_net (eventual K s2) else (bn, bm))\<rparr>"
    using actor_link.optional_handlers_ok(2) [OF link assms(3) s2(2)] by blast
  obtain t where t: "server_set_gateway_mac_address M s3 \<lparr>gateway_req_mac = mac\<rparr> =
        (Inr (Inr (), t) :: (_, 'st, unit) outcome)"
    "process_ok K ok t" "eventual K t = (eventual K s3)\<lparr>gateway_mac := mac\<rparr>"
    using actor_link.handlers_ok(3) [OF link assms(3) s3(2), of "\<lparr>gateway_req_mac = mac\<rparr>"] by auto
  have "tool_main p N P opt s = Inr (Tool_Ok [], t)"
    using mac s2(1) s3(1) t(1)
    by (cases "arg_set_local_net_and_mask opt = []";
        cases "arg_set_backend_net_and_mask opt = []")
      (simp_all add: tool_main_def assms(5-9) l b calls)
  moreover have "eventual K t =
       \<lparr>local_net = (if arg_set_local_net_and_mask opt = [] then local_net (eventual K s1) else l),
        backend_net = (if arg_set_backend_net_and_mask opt = [] then backend_net (eventual K s1) else b),
        gateway_mac = mac\<rparr>"
    by (rule settings.equality) (simp_all add: t s3 s2 l b)
  ultimately show ?thesis using t(2) by blast
qed

lemma sample_args_parse:
  "parse_ip_mask Release (arg_set_local_net_and_mask sample_args) = Inr (0x0A000000, prefix_mask 8)"
  "parse_ip_mask Release (arg_set_backend_net_and_mask sample_args) = Inr (0, 0xffffffff)"
  "parse_mac_address (arg_set_gateway_mac_address sample_args) = Inr 0x001122334455"
proof -
  show "parse_ip_mask Release (arg_set_local_net_and_mask sample_args) = Inr (0x0A000000, prefix_mask 8)"
    unfolding sample_args_def tool_opt.simps parse_ip_mask_shown by (simp add: shifted_mask_prefix)
qed (simp_all add: sample_args_def parse_print_mac_value from_be_bytes_def)

lemma sample_args_given [simp]:
  "arg_set_local_net_and_mask sample_args \<noteq> []" "\<not> arg_stats sample_args"
  "arg_set_backend_net_and_mask sample_args = []"
  by (simp_all add: sample_args_def)

lemma sample_process_stats:
  "process_stats declared_api sample_process =
     \<lparr>total_packets = 0, client_to_server_packets = 0, server_to_client_packets = 0\<rparr>"
  by (simp add: process_stats_def sample_process_def new_process_def get_stats_def read_metric_def
      declared_api_def declared_percpu_def initial_maps_def sum_values_release sum_list_replicate)

lemma sample_process_settings:
  "eventual declared_api sample_process =
     \<lparr>local_net = (0, 0), backend_net = (0, 0), gateway_mac = 0\<rparr>"
  by (simp add: sample_process_def settings_of_def read_map_def declared_api_def declared_get_def
      initial_maps_def net_part_def mask_part_def Let_def)

section \<open>Properties\<close>

text \<open>
  C29: the tool checks all its arguments before it sends any request: if one of them is
  malformed it panics, and the router is as it was when the connection was made. The MAC
  address is such an argument always: without one the tool panics, even if it is only asked
  for the statistics.
\<close>

theorem tool_main_bad_arguments:
  assumes "client_connect N (router_url opt) s = (Inr client, s1)"
    and "parse_ip_mask p (arg_set_local_net_and_mask opt) = Inl e \<or>
      parse_ip_mask p (arg_set_backend_net_and_mask opt) = Inl e \<or>
      parse_mac_address (arg_set_gateway_mac_address opt) = Inl e \<or>
      arg_set_gateway_mac_address opt = []"
  shows "\<exists>e'. tool_main p N P opt s = Inr (Tool_Panic e', s1)"
proof -
  have "parse_mac_address [] = Inl Explicit" by (simp add: parse_mac_address_def)
  then show ?thesis
    using assms
    by (cases "parse_ip_mask p (arg_set_local_net_and_mask opt)";
        cases "parse_ip_mask p (arg_set_backend_net_and_mask opt)";
        cases "parse_mac_address (arg_set_gateway_mac_address opt)")
      (auto simp: tool_main_def)
qed


theorem tool_main_bad_arguments_witness:
  "\<exists>e. tool_main Release (loop_transport sample_server) loop_prost
     (sample_args\<lparr>arg_stats := True, arg_set_gateway_mac_address := []\<rparr>) sample_process =
       Inr (Tool_Panic e, sample_process)"
  by (rule tool_main_bad_arguments [OF loop_connect, where e = Explicit]) simp

text \<open>
  C16: a run of the tool with well-formed arguments and without \<^verbatim>\<open>--stats\<close> succeeds and leaves
  the running actor with the settings of the arguments: a network argument that was not given
  changes nothing, and the gateway's address is always set.
\<close>

theorem tool_main_configures:
  assumes "array_maps K ok" and "process_ok K ok s1" and "bpf M = actor_runtime Release K"
    and "grpc_link T P (C :: ('b, 'st, 'err, 'k process) tonic_client) none
      (management_service M) request respond result"
    and "client_connect N (router_url opt) s = (Inr C, s1)"
    and "\<not> arg_stats opt"
    and "parse_ip_mask p (arg_set_local_net_and_mask opt) = Inr l"
    and "parse_ip_mask p (arg_set_backend_net_and_mask opt) = Inr b"
    and "parse_mac_address (arg_set_gateway_mac_address opt) = Inr mac"
  shows "\<exists>t. tool_main p N P opt s = Inr (Tool_Ok [], t) \<and> process_ok K ok t \<and>
     eventual K t =
       \<lparr>local_net = (if arg_set_local_net_and_mask opt = [] then local_net (eventual K s1) else l),
        backend_net = (if arg_set_backend_net_and_mask opt = [] then backend_net (eventual K s1) else b),
        gateway_mac = mac\<rparr>"
  using assms by (rule tool_main_run)

theorem tool_main_configures_witness:
  "\<exists>t. tool_main Release (loop_transport sample_server) loop_prost sample_args sample_process =
       Inr (Tool_Ok [], t) \<and>
     eventual declared_api t =
       \<lparr>local_net = (0x0A000000, prefix_mask 8), backend_net = (0, 0), gateway_mac = 0x001122334455\<rparr>"
  using tool_main_configures [OF declared.array_maps_axioms sample_process_ok sample_server_bpf
      loop.grpc_link_axioms loop_connect sample_args_given(2) sample_args_parse]
  by (simp add: sample_process_settings) blast

text \<open>
  \<^verbatim>\<open>--stats\<close> prints the three counters of the maps and changes no setting, even
  when other arguments ask for a change.
\<close>

theorem tool_main_stats:
  assumes "array_maps K ok" and "process_ok K ok s1" and "bpf M = actor_runtime Release K"
    and "grpc_link T P (C :: ('b, 'st, 'err, 'k process) tonic_client) none
      (management_service M) request respond result"
    and "client_connect N (router_url opt) s = (Inr C, s1)"
    and "arg_stats opt"
    and "parse_ip_mask p (arg_set_local_net_and_mask opt) = Inr l"
    and "parse_ip_mask p (arg_set_backend_net_and_mask opt) = Inr b"
    and "parse_mac_address (arg_set_gateway_mac_address opt) = Inr mac"
  shows "\<exists>t. tool_main p N P opt s = Inr (Tool_Ok
       [''total_packets: '' @ show_nat (unat (total_packets (process_stats K s1))),
        ''client_to_server_packets: '' @
          show_nat (unat (client_to_server_packets (process_stats K s1))),
        ''server_to_client_packets: '' @
          show_nat (unat (server_to_client_packets (process_stats K s1)))], t) \<and>
     process_ok K ok t \<and> eventual K t = eventual K s1"
proof -
  note link = array_maps.runtime_link [OF assms(1)]
  obtain ln lm bn bm where l: "l = (ln, lm)" and b: "b = (bn, bm)" by fastforce
  have call: "client_get_stats C P q s = server_get_stats M s q" for q s
    using grpc_link.client_methods [OF assms(4)] by (simp add: management_service_def)
  obtain t where t: "server_get_stats M s1 GetStatsRequest = (Inr (Inr
        \<lparr>resp_total_packets = total_packets (process_stats K s1),
         resp_client_to_server_packets = client_to_server_packets (process_stats K s1),
         resp_server_to_client_packets = server_to_client_packets (process_stats K s1)\<rparr>, t)
         :: (_, 'st, get_stats_response) outcome)"
    "process_ok K ok t" "eventual K t = eventual K s1"
    using actor_link.handlers_ok(4) [OF link assms(3,2), of GetStatsRequest] by blast
  have "tool_main p N P opt s = Inr (Tool_Ok (stats_lines
        \<lparr>resp_total_packets = total_packets (process_stats K s1),
         resp_client_to_server_packets = client_to_server_packets (process_stats K s1),
         resp_server_to_client_packets = server_to_client_packets (process_stats K s1)\<rparr>), t)"
    by (simp add: tool_main_def assms(5-9) l b call t(1))
  then show ?thesis using t(2,3) by (simp add: stats_lines_def)
qed

theorem tool_main_stats_witness:
  "\<exists>t. tool_main Release (loop_transport sample_server) loop_prost
       (sample_args\<lparr>arg_stats := True\<rparr>) sample_process =
       Inr (Tool_Ok [''total_packets: 0'', ''client_to_server_packets: 0'',
         ''server_to_client_packets: 0''], t)"
proof -
  let ?args = "sample_args\<lparr>arg_stats := True\<rparr>"
  have st: "arg_stats ?args" and
    a: "parse_ip_mask Release (arg_set_local_net_and_mask ?args) = Inr (0x0A000000, prefix_mask 8)"
    "parse_ip_mask Release (arg_set_backend_net_and_mask ?args) = Inr (0, 0xffffffff)"
    "parse_mac_address (arg_set_gateway_mac_address ?args) = Inr 0x001122334455"
    using sample_args_parse by simp_all
  have "show_nat 0 = ''0''" by (simp add: show_nat.simps digit_char_def char_of_eq_iff)
  then show ?thesis
    using tool_main_stats [OF declared.array_maps_axioms sample_process_ok sample_server_bpf
        loop.grpc_link_axioms loop_connect st a]
    by (simp add: sample_process_stats) blast
qed

end
