(* ===== verification/Endpoints.thy ===== *)
theory Endpoints
  imports Rust_Parse "HOL-Library.Multiset"
begin

text \<open>
  The two ends of a measurement: the client that pings a server directly and through the router
  (\<^verbatim>\<open>udp-router-client/src/main.rs\<close>), and the server that echoes datagrams
  (\<^verbatim>\<open>udp-router-server/src/main.rs\<close>). The UDP socket, the clock and the
  histogram of the latencies are arguments.
\<close>

section \<open>Sockets\<close>

text \<open>
  \<^verbatim>\<open>UdpSocket::bind\<close>, \<^verbatim>\<open>send_to\<close> (to a name with a port or to an address) and
  \<^verbatim>\<open>recv_from\<close>, which fills the front of the caller's buffer and returns the number of
  bytes and the sender. \<open>'s\<close> is the state of the network, \<open>'a\<close> a socket address, \<open>'e\<close>
  an I/O error.
\<close>

record ('s, 'k, 'a, 'e) udp =
  udp_bind :: "string \<Rightarrow> 's \<Rightarrow> ('e + 'k) \<times> 's"
  udp_send_name :: "'k \<Rightarrow> bytes \<Rightarrow> string \<Rightarrow> 's \<Rightarrow> ('e + nat) \<times> 's"
  udp_send_addr :: "'k \<Rightarrow> bytes \<Rightarrow> 'a \<Rightarrow> 's \<Rightarrow> ('e + nat) \<times> 's"
  udp_recv :: "'k \<Rightarrow> bytes \<Rightarrow> 's \<Rightarrow> ('e + (nat \<times> 'a)) \<times> bytes \<times> 's"

text \<open>\<^verbatim>\<open>&buf[..len]\<close>\<close>

definition slice_to :: "bytes \<Rightarrow> nat \<Rightarrow> panic + bytes" where
  "slice_to buf len = (if len \<le> length buf then Inr (take len buf) else Inl Bounds)"

section \<open>The echo server\<close>

text \<open>
  One round of the loop; an I/O error ends the process. \<open>echo_loop\<close> is the loop itself, which
  has no end as long as there is no error; \<open>echo_rounds\<close> is the loop for a number of rounds.
\<close>

definition echo_round :: "('s, 'k, 'a, 'e) udp \<Rightarrow> 'k \<Rightarrow> bytes \<Rightarrow> 's \<Rightarrow>
    panic + (('e + unit) \<times> bytes \<times> 's)" where
  "echo_round U sock buf s =
     (case udp_recv U sock buf s of
        (Inl e, buf, s) \<Rightarrow> Inr (Inl e, buf, s)
      | (Inr (len, addr), buf, s) \<Rightarrow>
          and_then (slice_to buf len) (\<lambda>received.
          case udp_send_addr U sock received addr s of
            (Inl e, s) \<Rightarrow> Inr (Inl e, buf, s)
          | (Inr _, s) \<Rightarrow> Inr (Inr (), buf, s)))"

fun echo_rounds :: "('s, 'k, 'a, 'e) udp \<Rightarrow> 'k \<Rightarrow> nat \<Rightarrow> bytes \<Rightarrow> 's \<Rightarrow>
    panic + (('e + unit) \<times> bytes \<times> 's)" where
  "echo_rounds U sock 0 buf s = Inr (Inr (), buf, s)"
| "echo_rounds U sock (Suc n) buf s =
     and_then (echo_round U sock buf s) (\<lambda>(r, buf, s).
     case r of Inl e \<Rightarrow> Inr (Inl e, buf, s) | Inr _ \<Rightarrow> echo_rounds U sock n buf s)"

definition echo_main :: "('s, 'k, 'a, 'e) udp \<Rightarrow> nat \<Rightarrow> 's \<Rightarrow> panic + (('e + unit) \<times> 's)" where
  "echo_main U rounds s =
     (case udp_bind U ''0.0.0.0:8888'' s of
        (Inl e, s) \<Rightarrow> Inr (Inl e, s)
      | (Inr sock, s) \<Rightarrow>
          and_then (echo_rounds U sock rounds (replicate 1024 0) s) (\<lambda>(r, _, s). Inr (r, s)))"

partial_function (option) echo_loop :: "('s, 'k, 'a, 'e) udp \<Rightarrow> 'k \<Rightarrow> bytes \<Rightarrow> 's \<Rightarrow>
    (panic + ('e \<times> bytes \<times> 's)) option" where
  "echo_loop U sock buf s =
     (case echo_round U sock buf s of
        Inl p \<Rightarrow> Some (Inl p)
      | Inr (r, buf, s) \<Rightarrow>
          (case r of Inl e \<Rightarrow> Some (Inr (e, buf, s)) | Inr _ \<Rightarrow> echo_loop U sock buf s))"

definition echo_server :: "('s, 'k, 'a, 'e) udp \<Rightarrow> 's \<Rightarrow> (panic + ('e \<times> 's)) option" where
  "echo_server U s =
     (case udp_bind U ''0.0.0.0:8888'' s of
        (Inl e, s) \<Rightarrow> Some (Inr (e, s))
      | (Inr sock, s) \<Rightarrow> map_option (\<lambda>r. and_then r (\<lambda>(e, _, s). Inr (e, s)))
          (echo_loop U sock (replicate 1024 0) s))"

text \<open>A read never reports more bytes than the buffer has.\<close>

definition reads_fit :: "('s, 'k, 'a, 'e) udp \<Rightarrow> bool" where
  "reads_fit U \<longleftrightarrow> (\<forall>sock buf s len a buf' t.
     udp_recv U sock buf s = (Inr (len, a), buf', t) \<longrightarrow> len \<le> length buf')"

text \<open>
  What the loop is to do, in terms of the socket's calls alone: exchanges, each a successful read
  and a successful answer with the bytes that were read, until a read or an answer fails.
\<close>

inductive exchanges :: "('s, 'k, 'a, 'e) udp \<Rightarrow> 'k \<Rightarrow> bytes \<Rightarrow> 's \<Rightarrow> bytes \<Rightarrow> 's \<Rightarrow> bool"
  for U :: "('s, 'k, 'a, 'e) udp" and sock :: 'k where
  no_more: "exchanges U sock buf s buf s"
| exchange: "udp_recv U sock buf s = (Inr (len, a), buf1, s1) \<Longrightarrow>
    udp_send_addr U sock (take len buf1) a s1 = (Inr n, s2) \<Longrightarrow>
    exchanges U sock buf1 s2 buf' t \<Longrightarrow> exchanges U sock buf s buf' t"

definition socket_fails :: "('s, 'k, 'a, 'e) udp \<Rightarrow> 'k \<Rightarrow> bytes \<Rightarrow> 's \<Rightarrow> 'e \<Rightarrow> 's \<Rightarrow> bool" where
  "socket_fails U sock buf s e t \<longleftrightarrow>
     (\<exists>buf1. udp_recv U sock buf s = (Inl e, buf1, t)) \<or>
     (\<exists>len a buf1 s1. udp_recv U sock buf s = (Inr (len, a), buf1, s1) \<and>
        udp_send_addr U sock (take len buf1) a s1 = (Inl e, t))"

lemma echo_round_cases:
  assumes "reads_fit U"
  obtains (exchange) len a buf1 s1 n s2 where "udp_recv U sock buf s = (Inr (len, a), buf1, s1)"
      and "udp_send_addr U sock (take len buf1) a s1 = (Inr n, s2)"
      and "echo_round U sock buf s = Inr (Inr (), buf1, s2)"
  | (fails) e buf1 t where "echo_round U sock buf s = Inr (Inl e, buf1, t)"
      and "\<And>e' t'. socket_fails U sock buf s e' t' \<longleftrightarrow> e' = e \<and> t' = t"
proof (cases "udp_recv U sock buf s")
  case (fields x buf1 s1)
  show ?thesis
  proof (cases x)
    case (Inl e)
    with fields show ?thesis by (intro fails) (auto simp: echo_round_def socket_fails_def)
  next
    case (Inr y)
    with fields obtain len a where y: "udp_recv U sock buf s = (Inr (len, a), buf1, s1)"
      by (cases y) auto
    then have "len \<le> length buf1" using assms unfolding reads_fit_def by blast
    then have *: "slice_to buf1 len = Inr (take len buf1)" by (simp add: slice_to_def)
    obtain q s2 where q: "udp_send_addr U sock (take len buf1) a s1 = (q, s2)" by fastforce
    show ?thesis
    proof (cases q)
      case (Inl e)
      with y * q show ?thesis by (intro fails) (auto simp: echo_round_def socket_fails_def)
    next
      case (Inr n)
      with y * q show ?thesis by (intro exchange) (auto simp: echo_round_def)
    qed
  qed
qed

lemma echo_loop_meets_error:
  "exchanges U sock buf s buf1 s1 \<Longrightarrow> reads_fit U \<Longrightarrow> socket_fails U sock buf1 s1 e t \<Longrightarrow>
     \<exists>buf'. echo_loop U sock buf s = Some (Inr (e, buf', t))"
proof (induction rule: exchanges.induct)
  case (no_more buf s)
  show ?case
    by (cases rule: echo_round_cases [OF no_more.prems(1), of sock buf s])
      (use no_more.prems(2) in \<open>auto simp: echo_loop.simps [of U sock buf s] socket_fails_def\<close>)
next
  case (exchange buf s len a buf1 s1 n s2 buf' t)
  have "len \<le> length buf1" using exchange.hyps(1) exchange.prems(1) unfolding reads_fit_def by blast
  then have "echo_round U sock buf s = Inr (Inr (), buf1, s2)"
    using exchange.hyps(1,2) by (simp add: echo_round_def slice_to_def)
  with exchange.IH [OF exchange.prems] show ?case by (simp add: echo_loop.simps [of U sock buf s])
qed

lemma echo_loop_end:
  fixes U :: "('s, 'k, 'a, 'e) udp"
  assumes "echo_loop U sock buf s = Some r"
  shows "reads_fit U \<longrightarrow> (\<exists>e buf' t buf1 s1. r = Inr (e, buf', t) \<and>
     exchanges U sock buf s buf1 s1 \<and> socket_fails U sock buf1 s1 e t)"
proof (rule echo_loop.raw_induct [OF _ assms])
  fix loop :: "('s, 'k, 'a, 'e) udp \<Rightarrow> 'k \<Rightarrow> bytes \<Rightarrow> 's \<Rightarrow> (panic + ('e \<times> bytes \<times> 's)) option"
  fix U sock buf s r
  assume IH: "\<And>U sock buf s r. loop U sock buf s = Some r \<Longrightarrow>
      reads_fit U \<longrightarrow> (\<exists>e buf' t buf1 s1. r = Inr (e, buf', t) \<and>
        exchanges U sock buf s buf1 s1 \<and> socket_fails U sock buf1 s1 e t)"
    and step: "(case echo_round U sock buf s of Inl p \<Rightarrow> Some (Inl p)
      | Inr (q, buf, s) \<Rightarrow> (case q of Inl e \<Rightarrow> Some (Inr (e, buf, s)) | Inr _ \<Rightarrow> loop U sock buf s)) = Some r"
  show "reads_fit U \<longrightarrow> (\<exists>e buf' t buf1 s1. r = Inr (e, buf', t) \<and>
     exchanges U sock buf s buf1 s1 \<and> socket_fails U sock buf1 s1 e t)"
  proof
    assume fit: "reads_fit U"
    show "\<exists>e buf' t buf1 s1. r = Inr (e, buf', t) \<and>
       exchanges U sock buf s buf1 s1 \<and> socket_fails U sock buf1 s1 e t"
    proof (rule echo_round_cases [OF fit, of sock buf s])
      fix len a buf1 s1 n s2
      assume x: "udp_recv U sock buf s = (Inr (len, a), buf1, s1)"
        "udp_send_addr U sock (take len buf1) a s1 = (Inr n, s2)"
        "echo_round U sock buf s = Inr (Inr (), buf1, s2)"
      with step have "loop U sock buf1 s2 = Some r" by simp
      with IH fit show ?thesis using exchange [OF x(1,2)] by blast
    next
      fix e buf1 t
      assume f: "echo_round U sock buf s = Inr (Inl e, buf1, t)"
        "\<And>e' t'. socket_fails U sock buf s e' t' \<longleftrightarrow> e' = e \<and> t' = t"
      then have "r = Inr (e, buf1, t)" "socket_fails U sock buf s e t" using step by simp_all
      then show ?thesis using no_more [of U sock buf s] by blast
    qed
  qed
qed

text \<open>
  A working network: \<open>waiting\<close> are the datagrams that arrive, with their senders, \<open>sent\<close> those
  that were sent. A datagram longer than the buffer is cut.
\<close>

definition delivers :: "('s, 'k, 'a, 'e) udp \<Rightarrow> ('s \<Rightarrow> (bytes \<times> 'a) list) \<Rightarrow>
    ('s \<Rightarrow> (bytes \<times> 'a) list) \<Rightarrow> bool" where
  "delivers U waiting sent \<longleftrightarrow>
     (\<forall>name s. \<exists>sock t. udp_bind U name s = (Inr sock, t) \<and> waiting t = waiting s \<and> sent t = sent s) \<and>
     (\<forall>sock bs a s. \<exists>n t. udp_send_addr U sock bs a s = (Inr n, t) \<and>
        waiting t = waiting s \<and> sent t = sent s @ [(bs, a)]) \<and>
     (\<forall>sock buf s d a rest. waiting s = (d, a) # rest \<longrightarrow>
        (\<exists>t. udp_recv U sock buf s =
            (Inr (min (length d) (length buf), a), take (length buf) d @ drop (length d) buf, t) \<and>
          waiting t = rest \<and> sent t = sent s))"

lemma echo_round_sends:
  assumes "delivers U waiting sent" and "waiting s = (d, a) # rest"
  obtains buf' t where "echo_round U sock buf s = Inr (Inr (), buf', t)"
    and "length buf' = length buf" and "waiting t = rest"
    and "sent t = sent s @ [(take (length buf) d, a)]"
proof -
  let ?buf = "take (length buf) d @ drop (length d) buf"
  obtain u where u: "udp_recv U sock buf s = (Inr (min (length d) (length buf), a), ?buf, u)"
    "waiting u = rest" "sent u = sent s"
    using assms unfolding delivers_def by blast
  have len: "length ?buf = length buf" by (cases "length d \<le> length buf") simp_all
  have "take (min (length d) (length buf)) ?buf = take (length buf) d"
    by (cases "length d \<le> length buf") (simp_all add: min_def)
  then have sl: "slice_to ?buf (min (length d) (length buf)) = Inr (take (length buf) d)"
    using len by (simp add: slice_to_def)
  obtain n t where t: "udp_send_addr U sock (take (length buf) d) a u = (Inr n, t)"
    "waiting t = waiting u" "sent t = sent u @ [(take (length buf) d, a)]"
    using assms(1) unfolding delivers_def by blast
  show ?thesis
    by (rule that [of ?buf t]) (use u t sl len in \<open>simp_all add: echo_round_def\<close>)
qed

lemma echo_rounds_send:
  assumes "delivers U waiting sent" and "length buf = 1024"
  shows "\<exists>buf' t. echo_rounds U sock (length (waiting s)) buf s = Inr (Inr (), buf', t) \<and>
     waiting t = [] \<and> sent t = sent s @ map (\<lambda>(d, a). (take 1024 d, a)) (waiting s)"
  using assms(2)
proof (induction "waiting s" arbitrary: s buf)
  case Nil
  then show ?case by (metis append_Nil2 echo_rounds.simps(1) list.map(1) list.size(3))
next
  case (Cons p rest)
  obtain d a where p: "p = (d, a)" by fastforce
  obtain buf' t where t: "echo_round U sock buf s = Inr (Inr (), buf', t)"
    "length buf' = length buf" "waiting t = rest" "sent t = sent s @ [(take (length buf) d, a)]"
    using Cons.hyps(2) p by (metis echo_round_sends [OF assms(1)])
  from Cons.hyps(1) [of t buf'] t Cons.prems obtain buf'' u where
    "echo_rounds U sock (length rest) buf' t = Inr (Inr (), buf'', u)" "waiting u = []"
    "sent u = sent t @ map (\<lambda>(d, a). (take 1024 d, a)) rest"
    by metis
  with t Cons.prems show ?case by (simp add: Cons.hyps(2) [symmetric] p)
qed

section \<open>The client\<close>

record client_opt =
  arg_proxy :: string
  arg_server :: string

text \<open>
  \<^verbatim>\<open>Instant::now()\<close>, in nanoseconds; and the histogram of the crate hdrhistogram:
  \<^verbatim>\<open>new_with_bounds\<close>, \<^verbatim>\<open>record\<close> (whether it succeeded, and the histogram after it) and
  \<^verbatim>\<open>value_at_quantile\<close>, with the quantile in thousandths.
\<close>

record 's clock =
  instant_now :: "'s \<Rightarrow> nat \<times> 's"

record 'h histogram =
  hist_new :: "u64 \<Rightarrow> u64 \<Rightarrow> nat \<Rightarrow> 'h option"
  hist_record :: "'h \<Rightarrow> u64 \<Rightarrow> bool \<times> 'h"
  value_at_quantile :: "'h \<Rightarrow> nat \<Rightarrow> u64"

text \<open>\<^verbatim>\<open>duration.as_micros() as u64\<close>\<close>

definition as_micros :: "nat \<Rightarrow> u64" where
  "as_micros duration = of_nat (duration div 1000)"

text \<open>
  One loop of pings: send the payload, wait for an answer, record the time it took (an error of
  the histogram is ignored); an I/O error ends the process. The difference of two instants is
  zero if the clock went backwards.
\<close>

fun pings :: "('s, 'k, 'a, 'e) udp \<Rightarrow> 's clock \<Rightarrow> 'h histogram \<Rightarrow> 'k \<Rightarrow> bytes \<Rightarrow> string \<Rightarrow> nat \<Rightarrow>
    bytes \<Rightarrow> 'h \<Rightarrow> 's \<Rightarrow> ('e + unit) \<times> bytes \<times> 'h \<times> 's" where
  "pings U C H sock payload dst 0 buffer hist s = (Inr (), buffer, hist, s)"
| "pings U C H sock payload dst (Suc n) buffer hist s =
     (let (start, s) = instant_now C s in
      case udp_send_name U sock payload dst s of
        (Inl e, s) \<Rightarrow> (Inl e, buffer, hist, s)
      | (Inr _, s) \<Rightarrow> (case udp_recv U sock buffer s of
          (Inl e, buffer, s) \<Rightarrow> (Inl e, buffer, hist, s)
        | (Inr _, buffer, s) \<Rightarrow>
            (let (now, s) = instant_now C s;
                 duration = now - start;
                 (_, hist) = hist_record H hist (as_micros duration)
             in pings U C H sock payload dst n buffer hist s)))"

text \<open>What is printed of the quantiles.\<close>

definition direct_lines :: "(nat \<Rightarrow> u64) \<Rightarrow> string list" where
  "direct_lines quantile =
     [''p50 direct latency: '' @ show_nat (unat (quantile 500)),
      ''p99 direct latency: '' @ show_nat (unat (quantile 990)),
      ''p99.9 direct latency: '' @ show_nat (unat (quantile 999))]"

definition proxy_lines :: "(nat \<Rightarrow> u64) \<Rightarrow> string list" where
  "proxy_lines quantile =
     [''p50 latency through proxy: '' @ show_nat (unat (quantile 500)),
      ''p99 latency through proxy: '' @ show_nat (unat (quantile 990)),
      ''p99.9 latency through proxy: '' @ show_nat (unat (quantile 999))]"

text \<open>The main function, with the lines it prints.\<close>

definition client_main :: "('s, 'k, 'a, 'e) udp \<Rightarrow> 's clock \<Rightarrow> 'h histogram \<Rightarrow> client_opt \<Rightarrow> 's \<Rightarrow>
    panic + (('e + unit) \<times> string list \<times> 's)" where
  "client_main U C H opt s =
     (case udp_bind U ''0.0.0.0:0'' s of
        (Inl e, s) \<Rightarrow> Inr (Inl e, [], s)
      | (Inr direct_socket, s) \<Rightarrow> (case udp_bind U ''0.0.0.0:0'' s of
        (Inl e, s) \<Rightarrow> Inr (Inl e, [], s)
      | (Inr proxy_socket, s) \<Rightarrow>
          and_then (unwrap (parse_ipv4 (arg_server opt))) (\<lambda>octets.
          let server_ip = from_be_bytes octets :: u32;
              payload = u32_to_be_bytes server_ip;
              buffer = replicate 1024 0;
              out = [''Measuring direct ping to server''] in
          and_then (unwrap (hist_new H 1 (100 * 1000) 2)) (\<lambda>hist.
          case pings U C H direct_socket payload (arg_server opt @ '':8888'') 10000 buffer hist s of
            (Inl e, buffer, hist, s) \<Rightarrow> Inr (Inl e, out, s)
          | (Inr _, buffer, hist, s) \<Rightarrow>
              let out = out @ direct_lines (value_at_quantile H hist) @
                [''Measuring ping through proxy''] in
              and_then (unwrap (hist_new H 1 (100 * 1000) 2)) (\<lambda>hist.
              case pings U C H proxy_socket payload (arg_proxy opt @ '':8888'') 10000 buffer hist s of
                (Inl e, buffer, hist, s) \<Rightarrow> Inr (Inl e, out, s)
              | (Inr _, buffer, hist, s) \<Rightarrow>
                  Inr (Inr (), out @ proxy_lines (value_at_quantile H hist), s))))))"

text \<open>
  A network on which every ping is answered; \<open>trips\<close> are the pings so far: the payload, the
  destination and the time between the instants before and after, in nanoseconds.
\<close>

definition answers_pings :: "('s, 'k, 'a, 'e) udp \<Rightarrow> 's clock \<Rightarrow>
    ('s \<Rightarrow> (bytes \<times> string \<times> nat) list) \<Rightarrow> bool" where
  "answers_pings U C trips \<longleftrightarrow>
     (\<forall>name s. \<exists>sock t. udp_bind U name s = (Inr sock, t) \<and> trips t = trips s) \<and>
     (\<forall>sock bs dst buf s. \<exists>start s0 n s1 m a buf' s2 d s3.
        instant_now C s = (start, s0) \<and> udp_send_name U sock bs dst s0 = (Inr n, s1) \<and>
        udp_recv U sock buf s1 = (Inr (m, a), buf', s2) \<and> instant_now C s2 = (start + d, s3) \<and>
        trips s3 = trips s @ [(bs, dst, d)])"

text \<open>
  What hdrhistogram documents: a new histogram is empty, a value up to the highest trackable
  one, which is at least the given bound, is recorded, a larger one is refused and changes
  nothing, and the quantiles are a function of the recorded values.
\<close>

definition counts_up_to :: "'h histogram \<Rightarrow> u64 \<Rightarrow> ('h \<Rightarrow> u64 multiset) \<Rightarrow>
    (u64 multiset \<Rightarrow> nat \<Rightarrow> u64) \<Rightarrow> bool" where
  "counts_up_to H highest recorded quantile \<longleftrightarrow> 100000 \<le> highest \<and>
     (\<exists>h. hist_new H 1 100000 2 = Some h \<and> recorded h = {#}) \<and>
     (\<forall>h v. \<exists>h'. hist_record H h v = (v \<le> highest, h') \<and>
        recorded h' = (if v \<le> highest then add_mset v (recorded h) else recorded h)) \<and>
     (\<forall>h q. value_at_quantile H h q = quantile (recorded h) q)"

lemma pings_measure:
  assumes "answers_pings U C trips" and "counts_up_to H highest recorded quantile"
  shows "\<exists>buffer' hist' t ds.
     pings U C H sock payload dst n buffer hist s = (Inr (), buffer', hist', t) \<and> length ds = n \<and>
     trips t = trips s @ map (\<lambda>d. (payload, dst, d)) ds \<and>
     recorded hist' = recorded hist + mset (filter (\<lambda>v. v \<le> highest) (map as_micros ds))"
proof (induction n arbitrary: buffer hist s)
  case (Suc n)
  obtain start s0 k s1 m a buf s2 d s3 where trip: "instant_now C s = (start, s0)"
    "udp_send_name U sock payload dst s0 = (Inr k, s1)"
    "udp_recv U sock buffer s1 = (Inr (m, a), buf, s2)" "instant_now C s2 = (start + d, s3)"
    "trips s3 = trips s @ [(payload, dst, d)]"
    using assms(1) unfolding answers_pings_def by blast
  obtain h where h: "hist_record H hist (as_micros d) = (as_micros d \<le> highest, h)"
    "recorded h = (if as_micros d \<le> highest then add_mset (as_micros d) (recorded hist)
       else recorded hist)"
    using assms(2) unfolding counts_up_to_def by blast
  obtain buffer' hist' t ds where "pings U C H sock payload dst n buf h s3 = (Inr (), buffer', hist', t)"
    "length ds = n" "trips t = trips s3 @ map (\<lambda>d. (payload, dst, d)) ds"
    "recorded hist' = recorded h + mset (filter (\<lambda>v. v \<le> highest) (map as_micros ds))"
    using Suc.IH by blast
  with trip h show ?case by (intro exI [of _ buffer'] exI [of _ hist'] exI [of _ t] exI [of _ "d # ds"]) simp
qed simp

section \<open>Properties\<close>

text \<open>
  C34: the echo server returns every datagram to its sender, in order, with its own bytes (the
  first 1024 of them) and nothing left over from an earlier, longer datagram in its buffer.
\<close>

theorem echo_main_echoes:
  assumes "delivers U waiting sent"
  shows "\<exists>t. echo_main U (length (waiting s)) s = Inr (Inr (), t) \<and> waiting t = [] \<and>
     sent t = sent s @ map (\<lambda>(d, a). (take 1024 d, a)) (waiting s)"
proof -
  obtain sock u where u: "udp_bind U ''0.0.0.0:8888'' s = (Inr sock, u)"
    "waiting u = waiting s" "sent u = sent s"
    using assms unfolding delivers_def by blast
  obtain buf' t where "echo_rounds U sock (length (waiting u)) (replicate 1024 0) u =
      Inr (Inr (), buf', t)" "waiting t = []"
    "sent t = sent u @ map (\<lambda>(d, a). (take 1024 d, a)) (waiting u)"
    using echo_rounds_send [OF assms length_replicate] by blast
  with u show ?thesis by (simp add: echo_main_def)
qed

text \<open>
  C36: the echo server ends exactly with the first error of its socket: if it cannot be bound, or
  if after some number of exchanges, each a datagram read and its bytes sent back, a read or an
  answer fails. It ends with that error, never panics on a datagram, and has no other end.
\<close>

theorem echo_server_ends_iff:
  assumes "reads_fit U"
  shows "echo_server U s = Some r \<longleftrightarrow>
     (\<exists>e t. r = Inr (e, t) \<and>
       (udp_bind U ''0.0.0.0:8888'' s = (Inl e, t) \<or>
        (\<exists>sock s0 buf s1. udp_bind U ''0.0.0.0:8888'' s = (Inr sock, s0) \<and>
           exchanges U sock (replicate 1024 0) s0 buf s1 \<and> socket_fails U sock buf s1 e t)))"
proof (cases "udp_bind U ''0.0.0.0:8888'' s")
  case (Pair b s0)
  show ?thesis
  proof (cases b)
    case (Inl e)
    with Pair show ?thesis by (auto simp: echo_server_def)
  next
    case (Inr sock)
    show ?thesis (is "_ \<longleftrightarrow> ?stops")
    proof
      assume "echo_server U s = Some r"
      then obtain q where q: "echo_loop U sock (replicate 1024 0) s0 = Some q"
        "r = and_then q (\<lambda>(e, _, s). Inr (e, s))"
        using Pair Inr by (auto simp: echo_server_def)
      from echo_loop_end [OF q(1)] assms obtain e buf' t buf s1 where "q = Inr (e, buf', t)"
        "exchanges U sock (replicate 1024 0) s0 buf s1" "socket_fails U sock buf s1 e t"
        by blast
      with q(2) Pair Inr show ?stops by auto
    next
      assume ?stops
      then obtain e t buf s1 where r: "r = Inr (e, t)" and
        "exchanges U sock (replicate 1024 0) s0 buf s1" "socket_fails U sock buf s1 e t"
        using Pair Inr by auto
      then obtain buf' where "echo_loop U sock (replicate 1024 0) s0 = Some (Inr (e, buf', t))"
        using echo_loop_meets_error [OF _ assms] by blast
      with r Pair Inr show "echo_server U s = Some r" by (simp add: echo_server_def)
    qed
  qed
qed

text \<open>A network whose socket fails once its datagrams are used up, for the example.\<close>

definition ending_udp :: "((bytes \<times> nat) list, unit, nat, nat) udp" where
  "ending_udp = \<lparr>udp_bind = (\<lambda>_ s. (Inr (), s)),
     udp_send_name = (\<lambda>_ bs dst s. (Inr (length bs), s)),
     udp_send_addr = (\<lambda>_ bs a s. (Inr (length bs), s)),
     udp_recv = (\<lambda>_ buf s. case s of
        [] \<Rightarrow> (Inl 9, buf, [])
      | (d, a) # rest \<Rightarrow> (Inr (min (length d) (length buf), a),
          take (length buf) d @ drop (length d) buf, rest))\<rparr>"

lemma ending_reads_fit: "reads_fit ending_udp"
  by (auto simp: reads_fit_def ending_udp_def split: list.splits prod.splits)

theorem echo_server_ends_iff_witness: "echo_server ending_udp [([1, 2], 7)] = Some (Inr (9, []))"
proof -
  let ?buf = "replicate 1024 (0 :: u8)"
  have "udp_recv ending_udp () ?buf [([1, 2], 7)] = (Inr (2, 7), [1, 2] @ drop 2 ?buf, [])"
    and "udp_send_addr ending_udp () (take 2 ([1, 2] @ drop 2 ?buf)) 7 [] = (Inr 2, [])"
    by (simp_all add: ending_udp_def)
  then have "exchanges ending_udp () ?buf [([1, 2], 7)] ([1, 2] @ drop 2 ?buf) []"
    by (rule exchange) (rule no_more)
  moreover have "socket_fails ending_udp () ([1, 2] @ drop 2 ?buf) [] 9 []"
    by (simp add: socket_fails_def ending_udp_def)
  moreover have "udp_bind ending_udp ''0.0.0.0:8888'' [([1, 2], 7)] = (Inr (), [([1, 2], 7)])"
    by (simp add: ending_udp_def)
  ultimately show ?thesis unfolding echo_server_ends_iff [OF ending_reads_fit] by blast
qed

text \<open>A network that is two queues, for the examples.\<close>

definition queue_udp :: "((bytes \<times> nat) list \<times> (bytes \<times> nat) list \<times> (bytes \<times> string) list,
    unit, nat, unit) udp" where
  "queue_udp = \<lparr>udp_bind = (\<lambda>_ s. (Inr (), s)),
     udp_send_name = (\<lambda>_ bs dst (w, out, p). (Inr (length bs), (w, out, p @ [(bs, dst)]))),
     udp_send_addr = (\<lambda>_ bs a (w, out, p). (Inr (length bs), (w, out @ [(bs, a)], p))),
     udp_recv = (\<lambda>_ buf (w, out, p). case w of
        [] \<Rightarrow> (Inr (0, 0), buf, (w, out, p))
      | (d, a) # rest \<Rightarrow> (Inr (min (length d) (length buf), a),
          take (length buf) d @ drop (length d) buf, (rest, out, p)))\<rparr>"

lemma queue_delivers: "delivers queue_udp fst (\<lambda>s. fst (snd s))"
  by (auto simp: delivers_def queue_udp_def)

theorem echo_main_echoes_witness:
  "\<exists>t. echo_main queue_udp 2 ([([1, 2, 3], 7), ([4], 8)], [], []) = Inr (Inr (), t) \<and>
     fst (snd t) = [([1, 2, 3], 7), ([4], 8)]"
  using echo_main_echoes [OF queue_delivers, of "([([1, 2, 3], 7), ([4], 8)], [], [])"]
  by (auto simp: numeral_2_eq_2)

text \<open>
  C35: when every ping is answered, the client sends 10000 datagrams to the server and then 10000
  to the router, all with the four octets of the server's address in the order in which they
  were written, and prints the quantiles of the times these took, in microseconds; but a time
  above the highest one that the histogram tracks is left out of them without a word.
\<close>

theorem client_main_measures:
  assumes "answers_pings U C trips" and "counts_up_to H highest recorded quantile"
    and "parse_ipv4 (arg_server opt) = Some octets"
  shows "\<exists>t ds ps. length ds = 10000 \<and> length ps = 10000 \<and>
     trips t = trips s @ map (\<lambda>d. (octets, arg_server opt @ '':8888'', d)) ds @
       map (\<lambda>d. (octets, arg_proxy opt @ '':8888'', d)) ps \<and>
     client_main U C H opt s = Inr (Inr (),
       [''Measuring direct ping to server''] @
       direct_lines (quantile (mset (filter (\<lambda>v. v \<le> highest) (map as_micros ds)))) @
       [''Measuring ping through proxy''] @
       proxy_lines (quantile (mset (filter (\<lambda>v. v \<le> highest) (map as_micros ps)))), t)"
proof -
  have payload: "u32_to_be_bytes (from_be_bytes octets) = octets"
    using parse_ipv4_length [OF assms(3)] by simp
  have bound: "100 * 1000 = (100000 :: u64)" by simp
  obtain k1 s1 where s1: "udp_bind U ''0.0.0.0:0'' s = (Inr k1, s1)" "trips s1 = trips s"
    using assms(1) unfolding answers_pings_def by blast
  obtain k2 s2 where s2: "udp_bind U ''0.0.0.0:0'' s1 = (Inr k2, s2)" "trips s2 = trips s1"
    using assms(1) unfolding answers_pings_def by blast
  obtain h where h: "hist_new H 1 100000 2 = Some h" "recorded h = {#}"
    and q: "\<And>h. value_at_quantile H h = quantile (recorded h)"
    using assms(2) unfolding counts_up_to_def by blast
  obtain buf h1 t1 ds where t1: "pings U C H k1 octets (arg_server opt @ '':8888'') 10000
      (replicate 1024 0) h s2 = (Inr (), buf, h1, t1)" "length ds = 10000"
    "trips t1 = trips s2 @ map (\<lambda>d. (octets, arg_server opt @ '':8888'', d)) ds"
    "recorded h1 = recorded h + mset (filter (\<lambda>v. v \<le> highest) (map as_micros ds))"
    using pings_measure [OF assms(1,2)] by blast
  obtain buf' h2 t2 ps where t2: "pings U C H k2 octets (arg_proxy opt @ '':8888'') 10000
      buf h t1 = (Inr (), buf', h2, t2)" "length ps = 10000"
    "trips t2 = trips t1 @ map (\<lambda>d. (octets, arg_proxy opt @ '':8888'', d)) ps"
    "recorded h2 = recorded h + mset (filter (\<lambda>v. v \<le> highest) (map as_micros ps))"
    using pings_measure [OF assms(1,2)] by blast
  have "client_main U C H opt s = Inr (Inr (), ([''Measuring direct ping to server''] @
      direct_lines (value_at_quantile H h1) @ [''Measuring ping through proxy'']) @
      proxy_lines (value_at_quantile H h2), t2)"
    unfolding client_main_def
    by (simp only: s1 s2 assms(3) h bound prod.case sum.case unwrap_simps and_then_simps Let_def
        payload t1 t2)
  then show ?thesis
    using s1 s2 t1 t2 h(2)
    by (intro exI [of _ t2] exI [of _ ds] exI [of _ ps]) (simp add: q)
qed

text \<open>
  A network on which every ping takes three microseconds, and a histogram that keeps the
  values, for the example.
\<close>

definition timed_udp :: "(nat \<times> (bytes \<times> string \<times> nat) list, unit, nat, unit) udp" where
  "timed_udp = \<lparr>udp_bind = (\<lambda>_ s. (Inr (), s)),
     udp_send_name = (\<lambda>_ bs dst (t, p). (Inr (length bs), (t + 3000, p @ [(bs, dst, 3000)]))),
     udp_send_addr = (\<lambda>_ bs a s. (Inr (length bs), s)),
     udp_recv = (\<lambda>_ buf s. (Inr (0, 0), buf, s))\<rparr>"

definition timed_clock :: "(nat \<times> (bytes \<times> string \<times> nat) list) clock" where
  "timed_clock = \<lparr>instant_now = (\<lambda>s. (fst s, s))\<rparr>"

definition largest :: "u64 multiset \<Rightarrow> nat \<Rightarrow> u64" where
  "largest M q = (if M = {#} then 0 else Max (set_mset M))"

definition sample_histogram :: "u64 multiset histogram" where
  "sample_histogram = \<lparr>hist_new = (\<lambda>_ _ _. Some {#}),
     hist_record = (\<lambda>h v. (v \<le> 131071, if v \<le> 131071 then add_mset v h else h)),
     value_at_quantile = largest\<rparr>"

lemma timed_answers: "answers_pings timed_udp timed_clock snd"
  by (auto simp: answers_pings_def timed_udp_def timed_clock_def)

lemma sample_counts: "counts_up_to sample_histogram 131071 (\<lambda>h. h) largest"
  by (simp add: counts_up_to_def sample_histogram_def)

theorem client_main_measures_witness:
  "\<exists>out t. client_main timed_udp timed_clock sample_histogram
       \<lparr>arg_proxy = print_ipv4 0x0A000001, arg_server = print_ipv4 0x0A000002\<rparr> (0, []) =
         Inr (Inr (), out, t) \<and> length (snd t) = 20000 \<and>
       fst (hd (snd t)) = u32_to_be_bytes 0x0A000002"
proof -
  let ?opt = "\<lparr>arg_proxy = print_ipv4 0x0A000001, arg_server = print_ipv4 0x0A000002\<rparr>"
  have "parse_ipv4 (arg_server ?opt) = Some (u32_to_be_bytes 0x0A000002)"
    by (simp add: parse_print_ipv4)
  from client_main_measures [OF timed_answers sample_counts this, of "(0, [])"]
  obtain t ds ps out where l: "length ds = 10000" "length ps = 10000"
    and t: "snd t = map (\<lambda>d. (u32_to_be_bytes 0x0A000002, arg_server ?opt @ '':8888'', d)) ds @
      map (\<lambda>d. (u32_to_be_bytes 0x0A000002, arg_proxy ?opt @ '':8888'', d)) ps"
    and run: "client_main timed_udp timed_clock sample_histogram ?opt (0, []) = Inr (Inr (), out, t)"
    by (metis append_Nil snd_conv)
  have "ds \<noteq> []" using l by auto
  with l t have "length (snd t) = 20000" and "fst (hd (snd t)) = u32_to_be_bytes 0x0A000002"
    by (simp_all add: hd_map)
  with run show ?thesis by blast
qed

end
