(* ===== verification/Build.thy ===== *)
theory Build
  imports Rust_Parse
begin

text \<open>
  How the repository builds itself: the build script of the daemon
  (\<^verbatim>\<open>udp-router/build.rs\<close>), which puts the eBPF program, or an empty stub for it, into the
  output directory; the build scripts of the program
  (\<^verbatim>\<open>udp-router-ebpf/build.rs\<close>) and of the protocol (\<^verbatim>\<open>udp-router-protobuf/build.rs\<close>); and the
  task that builds and runs the daemon (\<^verbatim>\<open>xtask/src/run.rs\<close>). cargo and its metadata are
  arguments; files are a map from paths to contents.
\<close>

section \<open>Environment and paths\<close>

definition AYA_BUILD_EBPF :: string where
  "AYA_BUILD_EBPF = ''AYA_BUILD_EBPF''"

type_synonym environment = "string \<Rightarrow> string option"

text \<open>\<^verbatim>\<open>bool::from_str\<close>\<close>

definition parse_bool :: "string \<Rightarrow> bool option" where
  "parse_bool s = (if s = ''true'' then Some True else if s = ''false'' then Some False else None)"

text \<open>\<^verbatim>\<open>env::var(AYA_BUILD_EBPF).as_deref().map(str::parse).map(Result::unwrap).unwrap_or_default()\<close>\<close>

definition build_ebpf_flag :: "environment \<Rightarrow> panic + bool" where
  "build_ebpf_flag env =
     (case env AYA_BUILD_EBPF of None \<Rightarrow> Inr False | Some v \<Rightarrow> unwrap (parse_bool v))"

text \<open>\<^verbatim>\<open>PathBuf::join\<close>: an absolute second path replaces the first.\<close>

definition path_join :: "string \<Rightarrow> string \<Rightarrow> string" where
  "path_join a b =
     (if b \<noteq> [] \<and> hd b = CHR ''/'' then b
      else if a = [] \<or> last a = CHR ''/'' then a @ b else a @ ''/'' @ b)"

text \<open>\<^verbatim>\<open>Path::parent\<close> of a path without empty components.\<close>

definition path_parent :: "string \<Rightarrow> string option" where
  "path_parent s =
     (let front = rev (dropWhile (\<lambda>c. c \<noteq> CHR ''/'') (rev s)) in
      if s = [] \<or> s = ''/'' then None
      else if front = ''/'' then Some front else Some (butlast front))"

section \<open>Commands\<close>

text \<open>A \<^verbatim>\<open>std::process::Command\<close>: the program, its arguments, and the changes to its environment.\<close>

record command =
  program :: string
  arguments :: "string list"
  env_set :: "(string \<times> string) list"
  env_removed :: "string list"
  current_dir :: "string option"

definition command_new :: "string \<Rightarrow> command" where
  "command_new p = \<lparr>program = p, arguments = [], env_set = [], env_removed = [], current_dir = None\<rparr>"

definition add_args :: "string list \<Rightarrow> command \<Rightarrow> command" where
  "add_args as c = c\<lparr>arguments := arguments c @ as\<rparr>"

definition set_env :: "string \<Rightarrow> string \<Rightarrow> command \<Rightarrow> command" where
  "set_env k v c = c\<lparr>env_set := env_set c @ [(k, v)]\<rparr>"

definition remove_env :: "string \<Rightarrow> command \<Rightarrow> command" where
  "remove_env k c = c\<lparr>env_removed := env_removed c @ [k]\<rparr>"

text \<open>
  The environment that a command runs in. Only the variables that a caller sets and no variable
  that it both sets and removes occur in the repository.
\<close>

definition command_env :: "command \<Rightarrow> environment \<Rightarrow> environment" where
  "command_env c env =
     (\<lambda>k. case map_of (rev (env_set c)) k of Some v \<Rightarrow> Some v
          | None \<Rightarrow> if k \<in> set (env_removed c) then None else env k)"

section \<open>The task that runs the daemon\<close>

record run_options =
  release :: bool
  runner :: string
  run_args :: "string list"

definition runner_config :: "string \<Rightarrow> string" where
  "runner_config r = ''target.\"cfg(all())\".runner=\"'' @ r @ ''\"''"

definition run_command :: "run_options \<Rightarrow> command" where
  "run_command opts =
     (let cmd = command_new ''cargo'';
          cmd = set_env AYA_BUILD_EBPF ''true'' cmd;
          cmd = add_args [''run'', ''--package'', ''udp-router'', ''--config''] cmd;
          cmd = (if release opts
                 then add_args [''--release''] (add_args [runner_config (runner opts)] cmd)
                 else add_args [runner_config (runner opts)] cmd)
      in if run_args opts \<noteq> [] then add_args (run_args opts) (add_args [''--''] cmd) else cmd)"

text \<open>
  \<^verbatim>\<open>cmd.status()\<close>: an error to start it, or the exit code (\<open>None\<close> when a signal ended it). The
  error of \<^verbatim>\<open>run\<close> is one of the two texts it is made of.
\<close>

datatype 'e run_error = Failed_To_Run 'e | Failed "int option"

definition xtask_run ::
    "(command \<Rightarrow> 's \<Rightarrow> ('e + int option) \<times> 's) \<Rightarrow> run_options \<Rightarrow> 's \<Rightarrow> ('e run_error + unit) \<times> 's" where
  "xtask_run status opts s =
     (case status (run_command opts) s of
        (Inl e, s) \<Rightarrow> (Inl (Failed_To_Run e), s)
      | (Inr code, s) \<Rightarrow> if code \<noteq> Some 0 then (Inl (Failed code), s) else (Inr (), s))"

datatype xtask_command = Run run_options

record xtask_options =
  xtask_cmd :: xtask_command

definition xtask_main ::
    "(command \<Rightarrow> 's \<Rightarrow> ('e + int option) \<times> 's) \<Rightarrow> xtask_options \<Rightarrow> 's \<Rightarrow>
     ('e run_error + unit) \<times> 's" where
  "xtask_main status options s =
     (case xtask_cmd options of Run opts \<Rightarrow> xtask_run status opts s)"

section \<open>The build script of the protocol\<close>

text \<open>
  The builder of the crate tonic-build: \<^verbatim>\<open>configure\<close>, \<^verbatim>\<open>out_dir\<close> and \<^verbatim>\<open>compile_protos\<close>,
  which runs the protobuf compiler on the given files with the given include directories.
\<close>

record ('c, 'e, 's) tonic_build =
  pb_configure :: 'c
  pb_out_dir :: "'c \<Rightarrow> string \<Rightarrow> 'c"
  pb_compile_protos :: "'c \<Rightarrow> string list \<Rightarrow> string list \<Rightarrow> 's \<Rightarrow> ('e + unit) \<times> 's"

definition protobuf_build_main :: "('c, 'e, 's) tonic_build \<Rightarrow> 's \<Rightarrow> ('e + unit) \<times> 's" where
  "protobuf_build_main B s =
     (case pb_compile_protos B (pb_out_dir B (pb_configure B) ''src/codegen'')
         [''proto/management.proto''] [''proto''] s of
        (Inl e, s) \<Rightarrow> (Inl e, s)
      | (Inr _, s) \<Rightarrow> (Inr (), s))"

section \<open>The build script of the eBPF program\<close>

text \<open>The lines it prints for cargo; \<open>which\<close> is the crate of that name.\<close>

definition ebpf_build_main ::
    "(string \<Rightarrow> string option) \<Rightarrow> environment \<Rightarrow> panic + string list" where
  "ebpf_build_main which env =
     (let out = [''cargo:rerun-if-env-changed='' @ AYA_BUILD_EBPF] in
      and_then (build_ebpf_flag env) (\<lambda>build_ebpf.
      if build_ebpf then
        and_then (unwrap (which ''bpf-linker'')) (\<lambda>bpf_linker.
        Inr (out @ [''cargo:rerun-if-changed='' @ bpf_linker]))
      else Inr out))"

section \<open>The build script of the daemon\<close>

text \<open>What cargo's metadata say of a package.\<close>

record target =
  target_name :: string
  target_kind :: "string list"

record package =
  package_name :: string
  manifest_path :: string
  package_targets :: "target list"

text \<open>The messages of a cargo build; a compiler message has a rendered text or none.\<close>

datatype cargo_message =
    Compiler_Artifact string "string option"
  | Compiler_Message "string option"
  | Text_Line string
  | Other_Message

text \<open>
  What running cargo yields: the messages (\<open>None\<close> where one cannot be read), the lines on its
  standard error (\<open>None\<close> where one cannot be read), how it ended (\<open>None\<close> when waiting fails), and
  the files it leaves.
\<close>

type_synonym files = "string \<Rightarrow> bytes option"

record cargo_child =
  child_messages :: "cargo_message option list"
  child_stderr :: "string option list"
  child_status :: "int option option"
  child_files :: files

record build_host =
  cargo_metadata :: "package list option"
  spawn :: "command \<Rightarrow> files \<Rightarrow> cargo_child option"
  writable :: "string \<Rightarrow> bool"

definition warning :: "string \<Rightarrow> string" where
  "warning line = ''cargo:warning='' @ line"

text \<open>
  The loop over the messages: the executables found, as names and paths, and the lines printed.
\<close>

fun read_messages ::
    "cargo_message option list \<Rightarrow> panic + ((string \<times> string) list \<times> string list)" where
  "read_messages [] = Inr ([], [])"
| "read_messages (None # msgs) = Inl Expect"
| "read_messages (Some msg # msgs) =
     and_then (read_messages msgs) (\<lambda>(executables, out).
     Inr (case msg of
        Compiler_Artifact name (Some e) \<Rightarrow> ((name, e) # executables, out)
      | Compiler_Artifact name None \<Rightarrow> (executables, out)
      | Compiler_Message rendered \<Rightarrow>
          (executables, map warning (split_at (CHR 0x0A) (case rendered of None \<Rightarrow> [] | Some r \<Rightarrow> r)) @ out)
      | Text_Line line \<Rightarrow> (executables, warning line # out)
      | Other_Message \<Rightarrow> (executables, out)))"

text \<open>
  \<^verbatim>\<open>fs::write\<close> and \<^verbatim>\<open>fs::copy\<close>, whose errors the script turns into panics. \<open>writable\<close> says
  which files can be created or replaced.
\<close>

definition fs_write :: "build_host \<Rightarrow> string \<Rightarrow> bytes \<Rightarrow> files \<Rightarrow> panic + files" where
  "fs_write H dst content fs = (if writable H dst then Inr (fs(dst \<mapsto> content)) else Inl Explicit)"

definition fs_copy :: "build_host \<Rightarrow> string \<Rightarrow> string \<Rightarrow> files \<Rightarrow> panic + files" where
  "fs_copy H src dst fs =
     (case fs src of None \<Rightarrow> Inl Explicit | Some content \<Rightarrow> fs_write H dst content fs)"

fun copy_executables :: "build_host \<Rightarrow> string \<Rightarrow> (string \<times> string) list \<Rightarrow> files \<Rightarrow> panic + files" where
  "copy_executables H out_dir [] fs = Inr fs"
| "copy_executables H out_dir ((name, binary) # es) fs =
     and_then (fs_copy H binary (path_join out_dir name) fs) (copy_executables H out_dir es)"

fun write_stubs :: "build_host \<Rightarrow> string \<Rightarrow> target list \<Rightarrow> files \<Rightarrow> panic + files" where
  "write_stubs H out_dir [] fs = Inr fs"
| "write_stubs H out_dir (t # ts) fs =
     (if target_kind t \<noteq> [''bin''] then write_stubs H out_dir ts fs
      else and_then (fs_write H (path_join out_dir (target_name t)) [] fs) (write_stubs H out_dir ts))"

definition bpf_target :: "environment \<Rightarrow> panic + string" where
  "bpf_target env =
     and_then (unwrap (env ''CARGO_CFG_TARGET_ENDIAN'')) (\<lambda>endian.
     if endian = ''big'' then Inr ''bpfeb'' else if endian = ''little'' then Inr ''bpfel'' else Inl Explicit)"

definition cargo_command :: "string \<Rightarrow> string \<Rightarrow> string \<Rightarrow> string \<Rightarrow> command" where
  "cargo_command target arch ebpf_dir out_dir =
     (let cmd = command_new ''cargo'';
          cmd = add_args [''build'', ''-Z'', ''build-std=core'', ''--bins'', ''--message-format=json'',
            ''--release'', ''--target'', target] cmd;
          cmd = set_env ''CARGO_CFG_BPF_TARGET_ARCH'' arch cmd;
          cmd = fold remove_env [''RUSTUP_TOOLCHAIN'', ''RUSTC''] cmd;
          cmd = cmd\<lparr>current_dir := Some ebpf_dir\<rparr>
      in add_args [''--target-dir'', path_join out_dir ''udp-router-ebpf''] cmd)"

text \<open>
  The branch that builds: spawn cargo, read its messages, wait for it and require exit code 0,
  join the thread that reads standard error, copy the executables. The lines of that thread may
  come anywhere between the others; here they come last.
\<close>

definition build_program :: "build_host \<Rightarrow> environment \<Rightarrow> package \<Rightarrow> string \<Rightarrow> string \<Rightarrow> files \<Rightarrow>
    panic + (string list \<times> files)" where
  "build_program H env pkg out_dir target fs =
     and_then (unwrap (env ''CARGO_CFG_TARGET_ARCH'')) (\<lambda>arch.
     let target = target @ ''-unknown-none'' in
     and_then (unwrap (path_parent (manifest_path pkg))) (\<lambda>ebpf_dir.
     let out = [''cargo:rerun-if-changed='' @ ebpf_dir];
         cmd = cargo_command target arch ebpf_dir out_dir in
     case spawn H cmd fs of
       None \<Rightarrow> Inl Explicit
     | Some child \<Rightarrow>
         and_then (read_messages (child_messages child)) (\<lambda>(executables, lines).
         if child_status child \<noteq> Some (Some 0) then Inl Explicit
         else if None \<in> set (child_stderr child) then Inl Unwrap
         else
           and_then (copy_executables H out_dir executables (child_files child)) (\<lambda>fs.
           Inr (out @ lines @ map (\<lambda>l. warning (the l)) (child_stderr child), fs)))))"

definition build_main :: "build_host \<Rightarrow> environment \<Rightarrow> files \<Rightarrow> panic + (string list \<times> files)" where
  "build_main H env fs =
     (let out = [''cargo:rerun-if-env-changed='' @ AYA_BUILD_EBPF] in
      and_then (build_ebpf_flag env) (\<lambda>build_ebpf.
      and_then (unwrap (cargo_metadata H)) (\<lambda>packages.
      and_then (unwrap (List.find (\<lambda>p. package_name p = ''udp-router-ebpf'') packages)) (\<lambda>ebpf_package.
      and_then (unwrap (env ''OUT_DIR'')) (\<lambda>out_dir.
      and_then (bpf_target env) (\<lambda>target.
      if build_ebpf then
        and_then (build_program H env ebpf_package out_dir target fs) (\<lambda>(lines, fs).
        Inr (out @ lines, fs))
      else
        and_then (write_stubs H out_dir (package_targets ebpf_package) fs) (\<lambda>fs.
        Inr (out, fs))))))))"

section \<open>What the loops do\<close>

definition is_bin :: "target \<Rightarrow> bool" where
  "is_bin t \<longleftrightarrow> target_kind t = [''bin'']"

lemma write_stubs_run:
  assumes "\<forall>t \<in> set ts. is_bin t \<longrightarrow> writable H (path_join out_dir (target_name t))"
  shows "\<exists>fs'. write_stubs H out_dir ts fs = Inr fs' \<and> (\<forall>path. fs' path =
     (if path \<in> (\<lambda>t. path_join out_dir (target_name t)) ` set (filter is_bin ts) then Some []
      else fs path))"
  using assms
proof (induction ts arbitrary: fs)
  case (Cons t ts)
  then show ?case
  proof (cases "is_bin t")
    case True
    let ?dst = "path_join out_dir (target_name t)"
    obtain fs' where "write_stubs H out_dir ts (fs(?dst \<mapsto> [])) = Inr fs'"
      and "\<forall>path. fs' path = (if path \<in> (\<lambda>t. path_join out_dir (target_name t)) ` set (filter is_bin ts)
        then Some [] else (fs(?dst \<mapsto> [])) path)"
      using Cons by fastforce
    with True Cons.prems show ?thesis by (auto simp: is_bin_def fs_write_def)
  qed (simp add: is_bin_def)
qed simp

lemma write_stubs_fail:
  "\<exists>t \<in> set ts. is_bin t \<and> \<not> writable H (path_join out_dir (target_name t)) \<Longrightarrow>
     write_stubs H out_dir ts fs = Inl Explicit"
  by (induction ts arbitrary: fs) (auto simp: is_bin_def fs_write_def)

lemma write_stubs_spawn [simp]:
  "write_stubs (H\<lparr>spawn := sp\<rparr>) out_dir ts fs = write_stubs H out_dir ts fs"
proof -
  have w: "fs_write (H\<lparr>spawn := sp\<rparr>) = fs_write H" by (intro ext) (simp add: fs_write_def)
  have "write_stubs (H\<lparr>spawn := sp\<rparr>) out_dir ts = write_stubs H out_dir ts"
  proof (induction ts)
    case (Cons t ts)
    show ?case by (rule ext) (simp add: w Cons.IH)
  qed (rule ext, simp)
  then show ?thesis by simp
qed

text \<open>The executables that the messages report.\<close>

definition reported :: "cargo_message option list \<Rightarrow> (string \<times> string) list" where
  "reported msgs = List.map_filter (\<lambda>m. case m of Some (Compiler_Artifact name (Some e)) \<Rightarrow> Some (name, e)
     | _ \<Rightarrow> None) msgs"

lemma read_messages_reported:
  "None \<notin> set msgs \<Longrightarrow> \<exists>out. read_messages msgs = Inr (reported msgs, out)"
  by (induction msgs rule: read_messages.induct)
    (auto simp: reported_def map_filter_simps split: cargo_message.split option.split)

lemma read_messages_invalid: "None \<in> set msgs \<Longrightarrow> read_messages msgs = Inl Expect"
  by (induction msgs rule: read_messages.induct) auto

lemma copy_executables_run:
  assumes "\<forall>(name, binary) \<in> set es. fs binary \<noteq> None \<and> writable H (path_join out_dir name)"
    and "distinct (map (\<lambda>(name, _). path_join out_dir name) es)"
    and "(\<lambda>(name, _). path_join out_dir name) ` set es \<inter> snd ` set es = {}"
  shows "\<exists>fs'. copy_executables H out_dir es fs = Inr fs' \<and>
     (\<forall>(name, binary) \<in> set es. fs' (path_join out_dir name) = fs binary) \<and>
     (\<forall>path. path \<notin> (\<lambda>(name, _). path_join out_dir name) ` set es \<longrightarrow> fs' path = fs path)"
  using assms
proof (induction es arbitrary: fs)
  case (Cons e es)
  obtain name binary where e: "e = (name, binary)" by fastforce
  let ?dst = "path_join out_dir name"
  obtain content where c: "fs binary = Some content" using Cons.prems(1) e by auto
  have "?dst \<notin> snd ` set es" using Cons.prems(3) e by auto
  then have same: "(fs(?dst \<mapsto> content)) b = fs b" if "(n, b) \<in> set es" for n b
    using that by force
  have "\<exists>fs'. copy_executables H out_dir es (fs(?dst \<mapsto> content)) = Inr fs' \<and>
     (\<forall>(name, binary) \<in> set es. fs' (path_join out_dir name) = (fs(?dst \<mapsto> content)) binary) \<and>
     (\<forall>path. path \<notin> (\<lambda>(name, _). path_join out_dir name) ` set es \<longrightarrow>
        fs' path = (fs(?dst \<mapsto> content)) path)"
    using Cons.prems same by (intro Cons.IH) (auto simp: e)
  then obtain fs' where f: "copy_executables H out_dir es (fs(?dst \<mapsto> content)) = Inr fs'"
    and "\<forall>(name, binary) \<in> set es. fs' (path_join out_dir name) = fs binary"
    and "\<forall>path. path \<notin> (\<lambda>(name, _). path_join out_dir name) ` set es \<longrightarrow>
        fs' path = (fs(?dst \<mapsto> content)) path"
    using same by fastforce
  moreover have "?dst \<notin> (\<lambda>(name, _). path_join out_dir name) ` set es"
    using Cons.prems(2) e by (auto simp: image_iff)
  ultimately show ?case
    using Cons.prems(1) c e by (intro exI [of _ fs']) (auto simp: fs_copy_def fs_write_def)
qed simp

section \<open>Properties\<close>

text \<open>
  C25: without a request to build the program, the daemon's build script starts no build: after
  it has asked cargo for the metadata of the workspace, its outcome is the same whatever spawning
  cargo would do. It leaves an empty file in the output directory for each binary of the eBPF
  package and every other file as it was, and panics if one of these files cannot be written.
\<close>

theorem build_main_stubs:
  assumes "env ''AYA_BUILD_EBPF'' \<in> {None, Some ''false''}" and "cargo_metadata H = Some packages"
    and "List.find (\<lambda>p. package_name p = ''udp-router-ebpf'') packages = Some pkg"
    and "env ''OUT_DIR'' = Some out_dir"
    and "env ''CARGO_CFG_TARGET_ENDIAN'' \<in> {Some ''big'', Some ''little''}"
  shows "if \<forall>t \<in> set (package_targets pkg).
         is_bin t \<longrightarrow> writable H (path_join out_dir (target_name t))
     then \<exists>fs'. (\<forall>sp. build_main (H\<lparr>spawn := sp\<rparr>) env fs =
         Inr ([''cargo:rerun-if-env-changed=AYA_BUILD_EBPF''], fs')) \<and>
       (\<forall>path. fs' path =
         (if path \<in> (\<lambda>t. path_join out_dir (target_name t)) ` set (filter is_bin (package_targets pkg))
          then Some [] else fs path))
     else \<forall>sp. build_main (H\<lparr>spawn := sp\<rparr>) env fs = Inl Explicit"
proof -
  have "build_ebpf_flag env = Inr False"
    using assms(1) by (auto simp: build_ebpf_flag_def parse_bool_def AYA_BUILD_EBPF_def)
  moreover obtain target where "bpf_target env = Inr target"
    using assms(5) by (auto simp: bpf_target_def)
  ultimately have run: "build_main (H\<lparr>spawn := sp\<rparr>) env fs =
      and_then (write_stubs H out_dir (package_targets pkg) fs) (\<lambda>fs.
        Inr ([''cargo:rerun-if-env-changed=AYA_BUILD_EBPF''], fs))" for sp
    by (simp add: build_main_def assms(2-4) AYA_BUILD_EBPF_def)
  show ?thesis
  proof (cases "\<forall>t \<in> set (package_targets pkg).
      is_bin t \<longrightarrow> writable H (path_join out_dir (target_name t))")
    case True
    from write_stubs_run [OF this, of fs] run True show ?thesis by auto
  next
    case False
    with write_stubs_fail [of "package_targets pkg" H out_dir fs] run show ?thesis by auto
  qed
qed

text \<open>
  C23: when the program is to be built, cargo is run in the package's directory with the release
  profile and the BPF target of the byte order; if it succeeds, every executable it reported is
  in the output directory under its name and no other file is touched; if it fails, ends by a
  signal or prints something that cannot be read, the script panics.
\<close>

theorem build_main_builds:
  assumes "build_ebpf_flag env = Inr True" and "cargo_metadata H = Some packages"
    and "List.find (\<lambda>p. package_name p = ''udp-router-ebpf'') packages = Some pkg"
    and "env ''OUT_DIR'' = Some out_dir" and "bpf_target env = Inr target"
    and "env ''CARGO_CFG_TARGET_ARCH'' = Some arch" and "path_parent (manifest_path pkg) = Some dir"
    and "spawn H (cargo_command (target @ ''-unknown-none'') arch dir out_dir) fs = Some child"
    and "None \<notin> set (child_stderr child)"
    and "\<forall>(name, binary) \<in> set (reported (child_messages child)).
      child_files child binary \<noteq> None \<and> writable H (path_join out_dir name)"
    and "distinct (map (\<lambda>(name, _). path_join out_dir name) (reported (child_messages child)))"
    and "(\<lambda>(name, _). path_join out_dir name) ` set (reported (child_messages child)) \<inter>
      snd ` set (reported (child_messages child)) = {}"
  shows "if None \<notin> set (child_messages child) \<and> child_status child = Some (Some 0) then
       (\<exists>out fs'. build_main H env fs = Inr (out, fs') \<and>
          (\<forall>(name, binary) \<in> set (reported (child_messages child)).
             fs' (path_join out_dir name) = child_files child binary) \<and>
          (\<forall>path. path \<notin> (\<lambda>(name, _). path_join out_dir name) ` set (reported (child_messages child)) \<longrightarrow>
             fs' path = child_files child path))
     else (\<exists>e. build_main H env fs = Inl e)"
proof (cases "None \<in> set (child_messages child)")
  case True
  then show ?thesis
    by (simp add: build_main_def build_program_def assms(1-8) read_messages_invalid Let_def)
next
  case False
  obtain lines where l: "read_messages (child_messages child) =
      Inr (reported (child_messages child), lines)"
    using read_messages_reported [OF False] by blast
  obtain fs' where c: "copy_executables H out_dir (reported (child_messages child)) (child_files child) = Inr fs'"
    and fs': "\<forall>(name, binary) \<in> set (reported (child_messages child)).
        fs' (path_join out_dir name) = child_files child binary"
      "\<forall>path. path \<notin> (\<lambda>(name, _). path_join out_dir name) ` set (reported (child_messages child)) \<longrightarrow>
        fs' path = child_files child path"
    using copy_executables_run [OF assms(10-12)] by blast
  show ?thesis
  proof (cases "child_status child = Some (Some 0)")
    case True
    with False fs' show ?thesis
      by (simp add: build_main_def build_program_def assms(1-9) l c Let_def)
  next
    case status: False
    with False show ?thesis
      by (simp add: build_main_def build_program_def assms(1-8) l Let_def)
  qed
qed

text \<open>
  C24: the task and the build scripts fit together: in the environment the task gives cargo, the
  scripts decide to build the program, whatever the environment was, and the program's own script
  watches the linker it found, or panics without one; the arguments for the daemon follow a
  double dash at the end; and the task succeeds exactly if cargo exits with 0.
\<close>

theorem xtask_builds_the_program:
  "build_ebpf_flag (command_env (run_command opts) env) = Inr True \<and>
   ebpf_build_main which (command_env (run_command opts) env) =
     (case which ''bpf-linker'' of None \<Rightarrow> Inl Unwrap
      | Some linker \<Rightarrow> Inr [''cargo:rerun-if-env-changed=AYA_BUILD_EBPF'', ''cargo:rerun-if-changed='' @ linker]) \<and>
   arguments (run_command opts) =
     [''run'', ''--package'', ''udp-router'', ''--config'', runner_config (runner opts)] @
     (if release opts then [''--release''] else []) @
     (if run_args opts = [] then [] else ''--'' # run_args opts) \<and>
   (fst (xtask_main status \<lparr>xtask_cmd = Run opts\<rparr> s) = Inr () \<longleftrightarrow>
     fst (status (run_command opts) s) = Inr (Some 0))"
proof -
  have "env_set (run_command opts) = [(AYA_BUILD_EBPF, ''true'')]"
    by (simp add: run_command_def command_new_def set_env_def add_args_def Let_def)
  then have flag: "build_ebpf_flag (command_env (run_command opts) env) = Inr True"
    by (simp add: build_ebpf_flag_def command_env_def parse_bool_def)
  then have "ebpf_build_main which (command_env (run_command opts) env) =
     (case which ''bpf-linker'' of None \<Rightarrow> Inl Unwrap
      | Some linker \<Rightarrow> Inr [''cargo:rerun-if-env-changed=AYA_BUILD_EBPF'', ''cargo:rerun-if-changed='' @ linker])"
    by (simp add: ebpf_build_main_def AYA_BUILD_EBPF_def split: option.split)
  moreover have "fst (xtask_main status \<lparr>xtask_cmd = Run opts\<rparr> s) = Inr () \<longleftrightarrow>
      fst (status (run_command opts) s) = Inr (Some 0)"
    by (auto simp: xtask_main_def xtask_run_def split: sum.splits prod.splits if_splits)
  moreover note flag
  ultimately show ?thesis
    by (simp add: run_command_def command_new_def set_env_def add_args_def Let_def)
qed

text \<open>
  A value of the variable other than \<^verbatim>\<open>true\<close> and \<^verbatim>\<open>false\<close> (1, for one) makes both build
  scripts panic; without it neither builds nor needs the linker.
\<close>

lemma build_flag_values:
  "(env AYA_BUILD_EBPF = Some v \<and> v \<notin> {''true'', ''false''} \<longrightarrow>
     build_main H env fs = Inl Unwrap \<and> ebpf_build_main which env = Inl Unwrap) \<and>
   (env AYA_BUILD_EBPF \<in> {None, Some ''false''} \<longrightarrow>
     build_ebpf_flag env = Inr False \<and>
     ebpf_build_main which env = Inr [''cargo:rerun-if-env-changed=AYA_BUILD_EBPF''])"
  by (auto simp: build_main_def ebpf_build_main_def build_ebpf_flag_def parse_bool_def
      AYA_BUILD_EBPF_def)

section \<open>Witnesses\<close>

definition sample_env :: "string \<Rightarrow> environment" where
  "sample_env flag = [AYA_BUILD_EBPF \<mapsto> flag, ''OUT_DIR'' \<mapsto> ''/out'',
     ''CARGO_CFG_TARGET_ENDIAN'' \<mapsto> ''little'', ''CARGO_CFG_TARGET_ARCH'' \<mapsto> ''x86_64'']"

definition sample_package :: package where
  "sample_package = \<lparr>package_name = ''udp-router-ebpf'', manifest_path = ''/repo/ebpf/Cargo.toml'',
     package_targets = [\<lparr>target_name = ''lib'', target_kind = [''lib'']\<rparr>,
       \<lparr>target_name = ''udp-router'', target_kind = [''bin'']\<rparr>]\<rparr>"

definition sample_child :: "bytes \<Rightarrow> files \<Rightarrow> cargo_child" where
  "sample_child object fs = \<lparr>
     child_messages = [Some (Compiler_Message (Some ''note'')),
       Some (Compiler_Artifact ''udp-router'' (Some ''/build/udp-router''))],
     child_stderr = [Some ''Compiling''], child_status = Some (Some 0),
     child_files = fs(''/build/udp-router'' \<mapsto> object)\<rparr>"

definition sample_build_host :: "bytes \<Rightarrow> build_host" where
  "sample_build_host object = \<lparr>cargo_metadata = Some [sample_package],
     spawn = (\<lambda>cmd fs. if program cmd = ''cargo'' then Some (sample_child object fs) else None),
     writable = (\<lambda>path. take 5 path = ''/out/'')\<rparr>"

lemmas sample_build = sample_env_def sample_package_def sample_child_def sample_build_host_def
  AYA_BUILD_EBPF_def build_ebpf_flag_def parse_bool_def bpf_target_def path_join_def
  is_bin_def reported_def map_filter_simps

theorem build_main_stubs_witness:
  "\<exists>fs'. build_main ((sample_build_host [1])\<lparr>spawn := \<lambda>_ _. None\<rparr>) (sample_env ''false'') Map.empty =
     Inr ([''cargo:rerun-if-env-changed=AYA_BUILD_EBPF''], fs') \<and>
   fs' ''/out/udp-router'' = Some [] \<and> fs' ''/out/lib'' = None"
proof -
  have "sample_env ''false'' ''AYA_BUILD_EBPF'' \<in> {None, Some ''false''}"
    and "sample_env ''false'' ''CARGO_CFG_TARGET_ENDIAN'' \<in> {Some ''big'', Some ''little''}"
    and "sample_env ''false'' ''OUT_DIR'' = Some ''/out''"
    and "cargo_metadata (sample_build_host [1]) = Some [sample_package]"
    and "List.find (\<lambda>p. package_name p = ''udp-router-ebpf'') [sample_package] = Some sample_package"
    by (simp_all add: sample_build)
  moreover have "\<forall>t \<in> set (package_targets sample_package). is_bin t \<longrightarrow>
      writable (sample_build_host [1]) (path_join ''/out'' (target_name t))"
    by (simp add: sample_build)
  moreover have "(\<lambda>t. path_join ''/out'' (target_name t)) ` set (filter is_bin (package_targets sample_package)) =
      {''/out/udp-router''}"
    by (simp add: sample_build)
  ultimately show ?thesis
    using build_main_stubs [of "sample_env ''false''" "sample_build_host [1]" "[sample_package]"
        sample_package "''/out''" Map.empty] by auto
qed

lemma sample_spawn:
  "spawn (sample_build_host object) (cargo_command target arch dir out_dir) fs =
     Some (sample_child object fs)"
  by (simp add: sample_build_host_def cargo_command_def command_new_def add_args_def set_env_def
      remove_env_def Let_def)

theorem build_main_builds_witness:
  "\<exists>out fs'. build_main (sample_build_host [0x7F]) (sample_env ''true'') Map.empty = Inr (out, fs') \<and>
     fs' ''/out/udp-router'' = Some [0x7F] \<and> fs' ''/out/lib'' = None"
  using build_main_builds [of "sample_env ''true''" "sample_build_host [0x7F]" "[sample_package]"
      sample_package "''/out''" "''bpfel''" "''x86_64''" "''/repo/ebpf''" Map.empty
      "sample_child [0x7F] Map.empty", OF _ _ _ _ _ _ _ sample_spawn]
  by (simp add: sample_build path_parent_def Let_def) fastforce

end
