(* ===== verification/Spec2Isabelle.thy ===== *)
theory Spec2Isabelle
  imports System Xdp_Safety Startup Daemon Tool_System Endpoints Build
begin

text \<open>
  \<^bold>\<open>The program.\<close> A host between clients and servers runs an XDP program that forwards UDP
  datagrams without keeping any state: the first four payload bytes of a datagram name the host
  it is for. The program swaps addresses (destination becomes the address in the payload, source
  becomes the router, and the payload gets the sender, for the way back), redirects the frame to
  the gateway's MAC address and sends it out again. Its settings, a local network whose packets
  are left alone, a backend network and the gateway's MAC address, live in BPF maps. A daemon
  loads the program, owns the maps in an actor task and offers a gRPC service on which the
  command line tool sets them. Two more programs measure the latency of the whole.

  \<^bold>\<open>The theories\<close>, with the code each of them models:

  \<^item> \<open>Prelude\<close>: panics and results, checked and wrapping arithmetic of the two cargo profiles, byte
    order, ranges of a buffer. It has the lemma collections \<open>range_simps\<close> and \<open>byte_simps\<close>.
  \<^item> \<open>Checksum\<close>: the functions \<^verbatim>\<open>calculate_ip_checksum\<close> and \<^verbatim>\<open>update_udp_checksum\<close> of
    \<^verbatim>\<open>udp-router-ebpf/src/main.rs\<close>, against the ones' complement sum of RFC 1071 and the update
    of RFC 1624. The interface \<open>checksum_update\<close> holds what forwarding needs of an update.
  \<^item> \<open>Bpf_Maps\<close>: the six declared maps, the operations on them that both sides use, and the
    interface \<open>array_maps\<close> of what those operations promise.
  \<^item> \<open>Xdp\<close>: the program itself. Its state \<open>xdp_ctx\<close> is the frame with the addresses of its first
    byte and of its end; every read and write goes through an address and faults outside the
    frame. \<open>ptr_at_mut\<close>, the filters, \<open>try_forward_packet\<close>, \<open>try_udp_router\<close> and \<open>udp_router\<close>
    are the functions of the same names.
  \<^item> \<open>Forwarding\<close>: frames as records of fields, the abstract rerouting \<open>forward_frame\<close>, and the
    simulation of the program by it; \<open>Forwarding_Props\<close>: what the program guarantees;
    \<open>Xdp_Safety\<close>: memory safety, as a judgement that every step of the program preserves,
    whatever layout the header crate has.
  \<^item> \<open>Bpf_Actor\<close>: the options, the choice of an attach mode, the messages and their handling, and
    the statistics of \<^verbatim>\<open>udp-router/src/bpf_actor.rs\<close>; the record \<open>settings\<close> is the actor's
    contract. \<open>Actor_System\<close>: the actor as a process with its channel, the relation
    \<open>process_run\<close> of all interleavings of senders and actor, the operations of
    \<^verbatim>\<open>BpfActorHandle\<close>, and the interface \<open>actor_link\<close> that their callers rely on. Its
    \<open>actor_loop\<close> is the receive loop as a partial function, whose end is proved.
  \<^item> \<open>Management\<close>: the checked-in stubs \<^verbatim>\<open>udp-router-protobuf/src/codegen/management.rs\<close>:
    messages, dispatch by path, settings, client methods, and the interface \<open>grpc_link\<close> of a connection.
    \<open>Management_Server\<close>: the handlers of \<^verbatim>\<open>udp-router/src/server.rs\<close>.
  \<^item> \<open>Router_Settings\<close>: what the program does in terms of the actor's settings, the contract
    \<open>settings_router\<close> between the two. \<open>System\<close>: the router while it runs, requests, actor and
    packets on any number of CPUs interleaving (\<open>system_run\<close>), and which settings a packet sees
    when the maps change under it.
  \<^item> \<open>Startup\<close>: what \<^verbatim>\<open>run_actor\<close> does before its loop (loading the program, attaching it,
    taking the maps), and the actor on the maps it took.
  \<^item> \<open>Daemon\<close>: \<^verbatim>\<open>ManagementServer::start\<close>, which opens the listening socket and serves on it,
    \<^verbatim>\<open>BpfActorHandle::new\<close> and \<^verbatim>\<open>main\<close> of \<^verbatim>\<open>udp-router/src/main.rs\<close>. \<open>Socket_Addr\<close> is the
    standard library's parser of socket addresses, which \<^verbatim>\<open>start\<close> calls.
  \<^item> \<open>Rust_Parse\<close>: the string functions of Rust's standard library that the tools call;
    \<open>Tool\<close>: \<^verbatim>\<open>udp-router-tool/src/main.rs\<close>; \<open>Tool_System\<close>: the tool run against the router.
  \<^item> \<open>Endpoints\<close>: \<^verbatim>\<open>udp-router-client/src/main.rs\<close> and \<^verbatim>\<open>udp-router-server/src/main.rs\<close>.
  \<^item> \<open>Build\<close>: \<^verbatim>\<open>udp-router/build.rs\<close>, \<^verbatim>\<open>udp-router-ebpf/build.rs\<close> and \<^verbatim>\<open>udp-router-protobuf/build.rs\<close>, with the files as a map from
    paths to contents and the commands they run as values, and \<^verbatim>\<open>xtask/src\<close>, whose command
    makes them build the program.
  \<^item> This theory: the properties that span components, from what is typed on the tool's command
    line to the bytes of a forwarded frame.

  \<^bold>\<open>Code outside the repository\<close> is an argument: the header layouts of the crate network-types
  (\<open>net_types\<close>, with the hypothesis \<open>wire_format\<close> that they are the layouts on the wire), aya's
  maps (\<open>bpf_api\<close>, \<open>array_maps\<close>), tokio's channels (\<open>runtime\<close>), prost's codecs and tonic
  (\<open>prost\<close>, \<open>tonic_server\<close>, \<open>tonic_client\<close>, \<open>grpc_link\<close>), sockets (\<open>udp\<close>,
  \<open>listener_stack\<close>), the clock and the latency histogram (\<open>counts_up_to\<close>), cargo and its
  metadata (\<open>build_host\<close>). Each hypothesis is met by a concrete instance: the declared maps, the
  actor process, an in-memory connection.

  \<^bold>\<open>Profiles, panics and fuel.\<close> Arithmetic that can overflow takes the cargo profile. A panic is a
  left value: both profiles abort. The loops that may not end are partial functions: the echo
  server's (\<open>echo_loop\<close>), which ends exactly when its socket fails, and the actor's
  (\<open>actor_loop\<close>), which ends once every sender is gone because each turn shortens the channel.
  \<open>echo_main\<close> is the echo server for a given number of rounds, and the property gives the number
  that is enough: one for each waiting datagram. The actor receives a message, which frees its
  place in the channel, and handles it in a second step, so that nine requests can be sent and
  not yet applied; \<open>drain\<close> takes a number of these steps, and two for each waiting message empty
  the channel. The kernel may change the maps between the two reads of
  one packet; a single entry is read and written as a whole.

  \<^bold>\<open>Not modelled\<close>: logging; the deployment files; the crate
  \<^verbatim>\<open>udp-router-common\<close>, which is empty; and what \<^verbatim>\<open>derive\<close> generates (printing, cloning,
  comparison and command line parsing).
\<close>

section \<open>Networks given by a prefix\<close>

lemma in_network_prefix:
  assumes "len \<le> 32"
  shows "in_network (n, prefix_mask len) ip \<longleftrightarrow>
     take_bit (32 - len) n = 0 \<and> drop_bit (32 - len) ip = drop_bit (32 - len) n"
proof
  assume "in_network (n, prefix_mask len) ip"
  then have n: "n = ip AND NOT (mask (32 - len))" by (simp add: in_network_def prefix_mask_def)
  show "take_bit (32 - len) n = 0 \<and> drop_bit (32 - len) ip = drop_bit (32 - len) n"
    unfolding n
    by (intro conjI; rule bit_word_eqI) (auto simp: bit_simps dest: bit_imp_le_length)
next
  assume "take_bit (32 - len) n = 0 \<and> drop_bit (32 - len) ip = drop_bit (32 - len) n"
  then have t: "bit (take_bit (32 - len) n) i = False"
    and d: "bit (drop_bit (32 - len) ip) i = bit (drop_bit (32 - len) n) i" for i by simp_all
  have "ip AND NOT (mask (32 - len)) = n"
  proof (rule bit_word_eqI)
    fix i :: nat assume "i < LENGTH(32)"
    then show "bit (ip AND NOT (mask (32 - len))) i = bit n i"
      using t [of i] d [of "i - (32 - len)"] by (cases "i < 32 - len") (auto simp: bit_simps)
  qed
  then show "in_network (n, prefix_mask len) ip" by (simp add: in_network_def prefix_mask_def)
qed


section \<open>Properties\<close>

text \<open>
  C5: the maps matter to the program only through the actor's settings: for any contents of the
  maps, its verdict and the frame it leaves are those of the settings, for every packet.
\<close>

theorem settings_determine_router:
  assumes "wire_format N" and "ctx_ok s"
  shows "udp_router N e get s =
     (Inr (fst (settings_router (settings_of get) (pkt s))),
      s\<lparr>pkt := snd (settings_router (settings_of get) (pkt s))\<rparr>)"
  using assms by (rule udp_router_settings)

theorem settings_determine_router_witness:
  "udp_router rfc_headers Little sample_get (sample_ctx sample_frame) =
     (Inr XDP_TX, (sample_ctx sample_frame)
        \<lparr>pkt := snd (settings_router (settings_of sample_get) sample_frame)\<rparr>)"
proof -
  have "udp_router rfc_headers Little sample_get (sample_ctx sample_frame) =
      (Inr XDP_TX, sample_forwarded sample_frame)"
    by (rule sample_run) (simp_all add: sample_not_exempt)
  with settings_determine_router [of rfc_headers "sample_ctx sample_frame" Little sample_get]
  show ?thesis by auto
qed

text \<open>
  C26: an address counts as local exactly if the configured network has no bits below its prefix
  and the address agrees with it above; a network entered with host bits (such as 10.0.0.1/8)
  exempts no address at all.
\<close>

theorem local_network_membership:
  assumes "local_net (settings_of get) = (n, prefix_mask len)" and "len \<le> 32"
  shows "is_from_local_network get ip \<longleftrightarrow>
     take_bit (32 - len) n = 0 \<and> drop_bit (32 - len) ip = drop_bit (32 - len) n"
  using assms by (simp add: is_from_local_network_settings in_network_prefix)

definition host_bits_get :: "bpf_map \<Rightarrow> u32 \<Rightarrow> u64 option" where
  "host_bits_get m k = Some (pack_net_mask 0x0A000001 (prefix_mask 8))"

theorem local_network_membership_witness:
  "\<not> is_from_local_network host_bits_get 0x0A000001"
proof -
  have "local_net (settings_of host_bits_get) = (0x0A000001, prefix_mask 8)"
    by (simp add: settings_of_def read_map_def host_bits_get_def entry.net_of_pack
        entry.mask_of_pack)
  from local_network_membership [OF this]
  show ?thesis by (simp add: take_bit_eq_mask mask_eq_exp_minus_1)
qed



text \<open>
  A ping of the client reaches its server: if the router forwards a frame whose payload
  begins with what the client sends for the server's address, the frame goes to that address,
  comes from the router's own, and carries the client's address for the way back.
\<close>

theorem ping_reaches_server:
  assumes "wire_format N" and "ctx_ok s" and "udp_router N e get s = (Inr XDP_TX, s')"
    and "parse_ipv4 (arg_server opt) = Some octets"
    and "range_at 42 4 (pkt s) = u32_to_be_bytes (from_be_bytes octets)"
  shows "range_at 30 4 (pkt s') = octets \<and> range_at 26 4 (pkt s') = range_at 30 4 (pkt s) \<and>
     range_at 42 4 (pkt s') = range_at 26 4 (pkt s)"
  using udp_router_TX [OF assms(1-3)] assms(5) parse_ipv4_length [OF assms(4)]
  by (simp add: forward_ranges)

theorem ping_reaches_server_witness:
  "range_at 30 4 (pkt (sample_forwarded sample_frame)) = range_at 42 4 sample_frame"
proof -
  let ?opt = "\<lparr>arg_proxy = ''10.0.2.10'', arg_server = print_ipv4 0x0A00030A\<rparr>"
  have s: "udp_router rfc_headers Little sample_get (sample_ctx sample_frame) =
      (Inr XDP_TX, sample_forwarded sample_frame)"
    by (rule sample_run) (simp_all add: sample_not_exempt)
  have o: "parse_ipv4 (arg_server ?opt) = Some [10, 0, 3, 10]"
    by (simp add: parse_print_ipv4 u32_to_be_bytes_eq)
  have p: "range_at 42 4 sample_frame = [10, 0, 3, 10]"
    by (simp add: sample_frame_def range_at_def)
  from ping_reaches_server [OF wire_format_rfc sample_ctx_ok s o]
  show ?thesis by (simp add: p)
qed

text \<open>
  C37: the backend network is stored but never used: two routers whose settings differ in nothing
  else treat every packet alike.
\<close>

theorem backend_network_ignored:
  assumes "wire_format N" and "ctx_ok s"
    and "settings_of get' = (settings_of get)\<lparr>backend_net := b\<rparr>"
  shows "udp_router N e get' s = udp_router N e get s"
  using assms by (simp add: udp_router_run router_spec_settings settings_router_def)

theorem backend_network_ignored_witness:
  "udp_router rfc_headers Big (sample_get(BACKEND_NET_AND_MASK := (\<lambda>_. Some 0))) (sample_ctx sample_frame) =
     udp_router rfc_headers Big sample_get (sample_ctx sample_frame)"
  by (rule backend_network_ignored [where b = "(0, 0)"])
    (simp_all add: settings_of_def read_map_def net_part_def mask_part_def Let_def)

end
